(* ===== verification/Prelude.thy ===== *)
theory Prelude
  imports Main "HOL-Library.Word" "HOL-Library.Sublist"
begin

section \<open>Shared vocabulary: bytes, C strings, generic lemmas\<close>

text \<open>
  Bytes, machine words and C strings as every component of the program uses them, and the
  lemmas on lists that the component theories share. A C string is the \<^typ>\<open>char list\<close> of its
  bytes before the terminating NUL; a buffer is a \<^typ>\<open>char list\<close> in which the NUL is a
  character, and \<open>cstr\<close> reads the string that starts at its first byte. The functions
  \<open>strchr\<close>, \<open>strrchr\<close> and \<open>strncmp0\<close> are those of \<^verbatim>\<open>string.h\<close>, with an index
  for the returned pointer.
\<close>

type_synonym u8 = "8 word"
type_synonym u32 = "32 word"
type_synonym u64 = "64 word"

named_theorems cstring_simps \<open>equations of the C string functions on structured strings\<close>
named_theorems buffer_simps \<open>lengths and contents of updated buffers\<close>

subsection \<open>C strings\<close>

abbreviation NUL :: char where
  "NUL \<equiv> CHR 0x00"

text \<open>The line break.\<close>

abbreviation LF :: char where
  "LF \<equiv> CHR 0x0A"

definition cstr :: "char list \<Rightarrow> string" where
  "cstr b = takeWhile (\<lambda>c. c \<noteq> NUL) b"

fun strchr :: "string \<Rightarrow> char \<Rightarrow> nat option" where
  "strchr [] c = None"
| "strchr (x # xs) c = (if x = c then Some 0 else map_option Suc (strchr xs c))"

fun strrchr :: "string \<Rightarrow> char \<Rightarrow> nat option" where
  "strrchr [] c = None"
| "strrchr (x # xs) c =
     (case strrchr xs c of
        Some i \<Rightarrow> Some (Suc i)
      | None \<Rightarrow> (if x = c then Some 0 else None))"

text \<open>\<open>strncmp0 n a b\<close> is \<^verbatim>\<open>strncmp(a, b, n) == 0\<close> on C strings.\<close>

definition strncmp0 :: "nat \<Rightarrow> string \<Rightarrow> string \<Rightarrow> bool" where
  "strncmp0 n a b \<longleftrightarrow> take n a = take n b"

lemma cstr_Nil [simp]: "cstr [] = []"
  by (simp add: cstr_def)

lemma cstr_Cons [simp]: "cstr (c # b) = (if c = NUL then [] else c # cstr b)"
  by (simp add: cstr_def)

lemma cstr_no_NUL [simp, cstring_simps]: "NUL \<notin> set (cstr b)"
  by (induction b) auto

lemma cstr_id [cstring_simps]: "NUL \<notin> set s \<Longrightarrow> cstr s = s"
  by (induction s) auto

lemma cstr_append_NUL [cstring_simps]: "NUL \<notin> set s \<Longrightarrow> cstr (s @ NUL # b) = s"
  by (induction s) auto

lemma cstr_append [cstring_simps]: "NUL \<notin> set s \<Longrightarrow> cstr (s @ b) = s @ cstr b"
  by (induction s) auto

lemma strchr_None [cstring_simps]: "strchr s c = None \<longleftrightarrow> c \<notin> set s"
  by (induction s) auto

lemma strchr_Some_iff:
  "strchr s c = Some i \<longleftrightarrow> i < length s \<and> s ! i = c \<and> c \<notin> set (take i s)"
proof (induction s arbitrary: i)
  case (Cons x xs)
  show ?case by (cases i) (auto simp: Cons.IH)
qed simp

lemma strchr_less: "strchr s c = Some i \<Longrightarrow> i < length s" "Some i = strchr s c \<Longrightarrow> i < length s"
  by (simp_all add: strchr_Some_iff eq_commute [of "Some i"])

lemma strchr_append [cstring_simps]: "c \<notin> set s \<Longrightarrow> strchr (s @ c # t) c = Some (length s)"
  by (induction s) auto

lemma strrchr_None [cstring_simps]: "strrchr s c = None \<longleftrightarrow> c \<notin> set s"
  by (induction s) (auto split: option.splits)

lemma strrchr_append [cstring_simps]: "c \<notin> set t \<Longrightarrow> strrchr (s @ c # t) c = Some (length s)"
  by (induction s) (auto simp: strrchr_None split: option.splits)

lemma strrchr_SomeD:
  "strrchr s c = Some i \<Longrightarrow> i < length s \<and> s ! i = c \<and> c \<notin> set (drop (Suc i) s)"
proof (induction s arbitrary: i)
  case (Cons x xs)
  have "strrchr xs c = None \<Longrightarrow> c \<notin> set xs" by (simp add: strrchr_None)
  with Cons show ?case by (auto split: option.splits if_splits)
qed simp

lemma strrchr_split:
  assumes "strrchr s c = Some i"
  shows "s = take i s @ c # drop (Suc i) s" "c \<notin> set (drop (Suc i) s)"
  using strrchr_SomeD [OF assms] id_take_nth_drop [of i s] by auto

lemma strncmp0_refl [simp]: "strncmp0 n a a"
  by (simp add: strncmp0_def)

lemma strncmp0_append: "strncmp0 (length a) a b \<longleftrightarrow> take (length a) b = a"
  by (auto simp: strncmp0_def)

subsection \<open>Lists\<close>

lemma takeWhile_stop: "(\<forall>x\<in>set xs. P x) \<Longrightarrow> \<not> P y \<Longrightarrow> takeWhile P (xs @ y # ys) = xs"
  by (induction xs) auto

lemma list_update_take_drop:
  "i < length xs \<Longrightarrow> xs[i := x] = take i xs @ x # drop (Suc i) xs"
  by (rule upd_conv_take_nth_drop)

lemma drop_suffix: "suffix r s \<Longrightarrow> drop (length s - length r) s = r"
  by (auto simp: suffix_def)

end
