(* ===== verification/Minisha256.thy ===== *)
theory Minisha256
  imports Prelude
begin

unbundle bit_operations_syntax

section \<open>SHA-256 (\<^verbatim>\<open>src/minisha256.c\<close>)\<close>

text \<open>
  The context record, the compression of one block, the three entry points and the hexadecimal
  rendering, and that together they compute the digest of FIPS 180-4, whose definition on byte lists
  is part of this theory. The \<^verbatim>\<open>for\<close> loops are recursive functions on their counters.
\<close>

definition k :: "u32 list" where
  "k = [
    0x428A2F98, 0x71374491, 0xB5C0FBCF, 0xE9B5DBA5, 0x3956C25B, 0x59F111F1, 0x923F82A4, 0xAB1C5ED5,
    0xD807AA98, 0x12835B01, 0x243185BE, 0x550C7DC3, 0x72BE5D74, 0x80DEB1FE, 0x9BDC06A7, 0xC19BF174,
    0xE49B69C1, 0xEFBE4786, 0x0FC19DC6, 0x240CA1CC, 0x2DE92C6F, 0x4A7484AA, 0x5CB0A9DC, 0x76F988DA,
    0x983E5152, 0xA831C66D, 0xB00327C8, 0xBF597FC7, 0xC6E00BF3, 0xD5A79147, 0x06CA6351, 0x14292967,
    0x27B70A85, 0x2E1B2138, 0x4D2C6DFC, 0x53380D13, 0x650A7354, 0x766A0ABB, 0x81C2C92E, 0x92722C85,
    0xA2BFE8A1, 0xA81A664B, 0xC24B8B70, 0xC76C51A3, 0xD192E819, 0xD6990624, 0xF40E3585, 0x106AA070,
    0x19A4C116, 0x1E376C08, 0x2748774C, 0x34B0BCB5, 0x391C0CB3, 0x4ED8AA4A, 0x5B9CCA4F, 0x682E6FF3,
    0x748F82EE, 0x78A5636F, 0x84C87814, 0x8CC70208, 0x90BEFFFA, 0xA4506CEB, 0xBEF9A3F7, 0xC67178F2]"

definition ROTRIGHT :: "u32 \<Rightarrow> nat \<Rightarrow> u32" where
  "ROTRIGHT x n = drop_bit n x OR push_bit (32 - n) x"

definition CH :: "u32 \<Rightarrow> u32 \<Rightarrow> u32 \<Rightarrow> u32" where
  "CH x y z = (x AND y) XOR (NOT x AND z)"

definition MAJ :: "u32 \<Rightarrow> u32 \<Rightarrow> u32 \<Rightarrow> u32" where
  "MAJ x y z = (x AND y) XOR (x AND z) XOR (y AND z)"

definition EP0 :: "u32 \<Rightarrow> u32" where
  "EP0 x = ROTRIGHT x 2 XOR ROTRIGHT x 13 XOR ROTRIGHT x 22"

definition EP1 :: "u32 \<Rightarrow> u32" where
  "EP1 x = ROTRIGHT x 6 XOR ROTRIGHT x 11 XOR ROTRIGHT x 25"

definition SIG0 :: "u32 \<Rightarrow> u32" where
  "SIG0 x = ROTRIGHT x 7 XOR ROTRIGHT x 18 XOR drop_bit 3 x"

definition SIG1 :: "u32 \<Rightarrow> u32" where
  "SIG1 x = ROTRIGHT x 17 XOR ROTRIGHT x 19 XOR drop_bit 10 x"

text \<open>The message words: the first loop reads sixteen big-endian words, the second extends them.\<close>

definition load_word :: "u8 list \<Rightarrow> nat \<Rightarrow> u32" where
  "load_word data j =
     push_bit 24 (ucast (data ! j)) OR push_bit 16 (ucast (data ! (j + 1))) OR
     push_bit 8 (ucast (data ! (j + 2))) OR ucast (data ! (j + 3))"

function load_words :: "nat \<Rightarrow> u8 list \<Rightarrow> u32 list \<Rightarrow> u32 list" where
  "load_words i data m =
     (if i < 16 then load_words (Suc i) data (m @ [load_word data (4 * i)]) else m)"
  by pat_completeness auto
termination
  by (relation "measure (\<lambda>(i, data, m). 16 - i)") auto

function extend_words :: "nat \<Rightarrow> u32 list \<Rightarrow> u32 list" where
  "extend_words i m =
     (if i < 64
      then extend_words (Suc i)
        (m @ [SIG1 (m ! (i - 2)) + m ! (i - 7) + SIG0 (m ! (i - 15)) + m ! (i - 16)])
      else m)"
  by pat_completeness auto
termination
  by (relation "measure (\<lambda>(i, m). 64 - i)") auto

declare load_words.simps [simp del] extend_words.simps [simp del]

type_synonym vars = "u32 \<times> u32 \<times> u32 \<times> u32 \<times> u32 \<times> u32 \<times> u32 \<times> u32"

fun sha_round :: "u32 \<Rightarrow> u32 \<Rightarrow> vars \<Rightarrow> vars" where
  "sha_round ki mi (a, b, c, d, e, f, g, h) =
     (let t1 = h + EP1 e + CH e f g + ki + mi;
          t2 = EP0 a + MAJ a b c
      in (t1 + t2, a, b, c, d + t1, e, f, g))"

function sha_rounds :: "nat \<Rightarrow> u32 list \<Rightarrow> vars \<Rightarrow> vars" where
  "sha_rounds i m v = (if i < 64 then sha_rounds (Suc i) m (sha_round (k ! i) (m ! i) v) else v)"
  by pat_completeness auto
termination
  by (relation "measure (\<lambda>(i, m, v). 64 - i)") auto

declare sha_rounds.simps [simp del]

fun add_vars :: "u32 list \<Rightarrow> vars \<Rightarrow> u32 list" where
  "add_vars st (a, b, c, d, e, f, g, h) =
     [st ! 0 + a, st ! 1 + b, st ! 2 + c, st ! 3 + d, st ! 4 + e, st ! 5 + f, st ! 6 + g, st ! 7 + h]"

text \<open>The context of \<^verbatim>\<open>SHA256_CTX\<close>; \<^verbatim>\<open>data\<close> is the block buffer of 64 bytes.\<close>

record sha256_ctx =
  data :: "u8 list"
  state :: "u32 list"
  bitlen :: u64
  datalen :: nat

definition sha256_transform :: "sha256_ctx \<Rightarrow> u8 list \<Rightarrow> sha256_ctx" where
  "sha256_transform ctx block =
     (let m = extend_words 16 (load_words 0 block []);
          st = state ctx
      in ctx\<lparr>state := add_vars st
           (sha_rounds 0 m (st ! 0, st ! 1, st ! 2, st ! 3, st ! 4, st ! 5, st ! 6, st ! 7))\<rparr>)"

text \<open>\<^verbatim>\<open>SHA256_Init\<close> leaves the block buffer as it was.\<close>

definition SHA256_Init :: "sha256_ctx \<Rightarrow> sha256_ctx" where
  "SHA256_Init ctx = ctx\<lparr>datalen := 0, bitlen := 0,
     state := [0x6a09e667, 0xbb67ae85, 0x3c6ef372, 0xa54ff53a,
               0x510e527f, 0x9b05688c, 0x1f83d9ab, 0x5be0cd19]\<rparr>"

definition update_byte :: "u8 \<Rightarrow> sha256_ctx \<Rightarrow> sha256_ctx" where
  "update_byte b ctx =
     (let ctx = ctx\<lparr>data := (data ctx)[datalen ctx := b], datalen := datalen ctx + 1\<rparr>
      in if datalen ctx = 64
         then (sha256_transform ctx (data ctx))\<lparr>bitlen := bitlen ctx + 512, datalen := 0\<rparr>
         else ctx)"

fun SHA256_Update :: "sha256_ctx \<Rightarrow> u8 list \<Rightarrow> sha256_ctx" where
  "SHA256_Update ctx [] = ctx"
| "SHA256_Update ctx (b # bs) = SHA256_Update (update_byte b ctx) bs"

text \<open>\<open>zero_fill i n xs\<close> is the loop \<^verbatim>\<open>while (i < n) data[i++] = 0\<close>.\<close>

function zero_fill :: "nat \<Rightarrow> nat \<Rightarrow> u8 list \<Rightarrow> u8 list" where
  "zero_fill i n xs = (if i < n then zero_fill (Suc i) n (xs[i := 0]) else xs)"
  by pat_completeness auto
termination
  by (relation "measure (\<lambda>(i, n, xs). n - i)") auto

declare zero_fill.simps [simp del]

definition pad_block :: "sha256_ctx \<Rightarrow> sha256_ctx" where
  "pad_block ctx =
     (let i = datalen ctx; ctx = ctx\<lparr>data := (data ctx)[i := 0x80]\<rparr>
      in if datalen ctx < 56
         then ctx\<lparr>data := zero_fill (i + 1) 56 (data ctx)\<rparr>
         else let ctx = ctx\<lparr>data := zero_fill (i + 1) 64 (data ctx)\<rparr>;
                  ctx = sha256_transform ctx (data ctx)
              in ctx\<lparr>data := zero_fill 0 56 (data ctx)\<rparr>)"

definition append_length :: "u8 list \<Rightarrow> u64 \<Rightarrow> u8 list" where
  "append_length xs n = xs
     [63 := ucast n, 62 := ucast (drop_bit 8 n), 61 := ucast (drop_bit 16 n),
      60 := ucast (drop_bit 24 n), 59 := ucast (drop_bit 32 n), 58 := ucast (drop_bit 40 n),
      57 := ucast (drop_bit 48 n), 56 := ucast (drop_bit 56 n)]"

definition word_bytes :: "u32 \<Rightarrow> u8 list" where
  "word_bytes w = [ucast (drop_bit 24 w), ucast (drop_bit 16 w), ucast (drop_bit 8 w), ucast w]"

text \<open>\<^verbatim>\<open>SHA256_Final\<close> returns the digest and the context, which it overwrites with zeros.\<close>

definition SHA256_Final :: "sha256_ctx \<Rightarrow> u8 list \<times> sha256_ctx" where
  "SHA256_Final ctx0 =
     (let ctx = pad_block ctx0;
          ctx = ctx\<lparr>bitlen := bitlen ctx + of_nat (datalen ctx * 8)\<rparr>;
          ctx = ctx\<lparr>data := append_length (data ctx) (bitlen ctx)\<rparr>;
          ctx = sha256_transform ctx (data ctx)
      in (concat (map word_bytes (state ctx)),
          \<lparr>data = replicate 64 0, state = replicate 8 0, bitlen = 0, datalen = 0\<rparr>))"

text \<open>\<^verbatim>\<open>sprintf("%02x")\<close> of a byte, and the 65-byte output with its NUL.\<close>

definition hex_digit :: "nat \<Rightarrow> char" where
  "hex_digit d = ''0123456789abcdef'' ! d"

definition hex_byte :: "u8 \<Rightarrow> string" where
  "hex_byte b = [hex_digit (unat b div 16), hex_digit (unat b mod 16)]"

definition sha256_hashtostring :: "u8 list \<Rightarrow> char list" where
  "sha256_hashtostring hash = concat (map hex_byte hash) @ [NUL]"

text \<open>\<open>junk\<close> is what the 64 bytes of the uninitialised block buffer on the stack hold.\<close>

definition sha256_buf :: "(nat \<Rightarrow> u8) \<Rightarrow> u8 list \<Rightarrow> char list" where
  "sha256_buf junk buf =
     (let ctx = \<lparr>data = map junk [0..<64], state = replicate 8 0, bitlen = 0, datalen = 0\<rparr>
      in sha256_hashtostring (fst (SHA256_Final (SHA256_Update (SHA256_Init ctx) buf))))"

subsection \<open>FIPS 180-4\<close>

definition fips_Sigma0 :: "u32 \<Rightarrow> u32" where
  "fips_Sigma0 x = word_rotr 2 x XOR word_rotr 13 x XOR word_rotr 22 x"

definition fips_Sigma1 :: "u32 \<Rightarrow> u32" where
  "fips_Sigma1 x = word_rotr 6 x XOR word_rotr 11 x XOR word_rotr 25 x"

definition fips_sigma0 :: "u32 \<Rightarrow> u32" where
  "fips_sigma0 x = word_rotr 7 x XOR word_rotr 18 x XOR drop_bit 3 x"

definition fips_sigma1 :: "u32 \<Rightarrow> u32" where
  "fips_sigma1 x = word_rotr 17 x XOR word_rotr 19 x XOR drop_bit 10 x"

fun fips_W :: "u8 list \<Rightarrow> nat \<Rightarrow> u32" where
  "fips_W M t =
     (if t < 16 then word_rcat (take 4 (drop (4 * t) M))
      else fips_sigma1 (fips_W M (t - 2)) + fips_W M (t - 7) +
           fips_sigma0 (fips_W M (t - 15)) + fips_W M (t - 16))"

declare fips_W.simps [simp del]

fun fips_step :: "u8 list \<Rightarrow> nat \<Rightarrow> u32 list \<Rightarrow> u32 list" where
  "fips_step M t [a, b, c, d, e, f, g, h] =
     (let T1 = h + fips_Sigma1 e + ((e AND f) XOR (NOT e AND g)) + k ! t + fips_W M t;
          T2 = fips_Sigma0 a + ((a AND b) XOR (a AND c) XOR (b AND c))
      in [T1 + T2, a, b, c, d + T1, e, f, g])"
| "fips_step M t _ = []"

definition fips_compress :: "u32 list \<Rightarrow> u8 list \<Rightarrow> u32 list" where
  "fips_compress H M = map2 (+) H (fold (fips_step M) [0..<64] H)"

lemma ROTRIGHT_word_rotr: "0 < n \<Longrightarrow> n < 32 \<Longrightarrow> ROTRIGHT x n = word_rotr n x"
proof (rule bit_word_eqI)
  fix i assume n: "0 < n" "n < 32" and i: "i < LENGTH(32)"
  show "bit (ROTRIGHT x n) i = bit (word_rotr n x) i"
  proof (cases "i + n < 32")
    case True
    then show ?thesis using n by (auto simp: ROTRIGHT_def bit_simps add.commute)
  next
    case False
    then have "(i + n) mod 32 = i - (32 - n)" "32 - n \<le> i" using n i by (auto simp: mod_if)
    moreover have "\<not> bit x (n + i)" using False by (auto dest: bit_imp_le_length)
    ultimately show ?thesis using i by (simp add: ROTRIGHT_def bit_simps)
  qed
qed

lemma fips_functions:
  "EP0 = fips_Sigma0" "EP1 = fips_Sigma1" "SIG0 = fips_sigma0" "SIG1 = fips_sigma1"
  by (simp_all add: fun_eq_iff EP0_def EP1_def SIG0_def SIG1_def fips_Sigma0_def fips_Sigma1_def
      fips_sigma0_def fips_sigma1_def ROTRIGHT_word_rotr)

lemma load_word_rcat:
  assumes "length M = 64" "i < 16"
  shows "load_word M (4 * i) = word_rcat (take 4 (drop (4 * i) M))"
proof -
  have t: "take 4 (drop (4 * i) M) = [M ! (4 * i), M ! (4 * i + 1), M ! (4 * i + 2), M ! (4 * i + 3)]"
    using assms by (intro nth_equalityI) (auto simp: less_Suc_eq numeral_eq_Suc)
  have or_add: "push_bit 24 (ucast a) OR push_bit 16 (ucast b) OR push_bit 8 (ucast c) OR ucast d =
      (push_bit 24 (ucast a) + (push_bit 16 (ucast b) + (push_bit 8 (ucast c) + ucast d)) :: u32)"
    for a b c d :: u8
    by (subst disjunctive_add_eq_or, rule bit_word_eqI, auto simp: bit_simps or.assoc dest: bit_imp_le_length)+
  show ?thesis unfolding t load_word_def or_add
    by (simp add: word_rcat_def push_bit_eq_mult)
qed

lemma load_words_eq:
  assumes "length M = 64"
  shows "i \<le> 16 \<Longrightarrow> load_words i M (map (fips_W M) [0..<i]) = map (fips_W M) [0..<16]"
proof (induction "16 - i" arbitrary: i)
  case 0
  then show ?case by (simp add: load_words.simps)
next
  case (Suc n)
  then have i: "i < 16" and n: "n = 16 - Suc i" by auto
  have "map (fips_W M) [0..<i] @ [load_word M (4 * i)] = map (fips_W M) [0..<Suc i]"
    using assms i by (simp add: load_word_rcat fips_W.simps [of M i])
  then show ?case using Suc(1) [OF n] i by (simp add: load_words.simps [of i])
qed

lemma extend_words_eq:
  "16 \<le> i \<Longrightarrow> i \<le> 64 \<Longrightarrow> extend_words i (map (fips_W M) [0..<i]) = map (fips_W M) [0..<64]"
proof (induction "64 - i" arbitrary: i)
  case 0
  then show ?case by (simp add: extend_words.simps)
next
  case (Suc n)
  then have i: "i < 64" "16 \<le> Suc i" "Suc i \<le> 64" and n: "n = 64 - Suc i" by auto
  have "extend_words i (map (fips_W M) [0..<i]) = extend_words (Suc i) (map (fips_W M) [0..<Suc i])"
    using Suc.prems i(1)
    by (simp add: extend_words.simps [of i] fips_W.simps [of M i] fips_functions)
  then show ?case using Suc(1) [OF n i(2,3)] by simp
qed

fun vars_list :: "vars \<Rightarrow> u32 list" where
  "vars_list (a, b, c, d, e, f, g, h) = [a, b, c, d, e, f, g, h]"

lemma sha_round_step:
  "vars_list (sha_round (k ! i) (fips_W M i) v) = fips_step M i (vars_list v)"
  by (cases v rule: vars_list.cases) (simp add: Let_def fips_functions CH_def MAJ_def)

lemma sha_rounds_eq:
  assumes "\<And>j. j < 64 \<Longrightarrow> ms ! j = fips_W M j"
  shows "i \<le> 64 \<Longrightarrow> vars_list (sha_rounds i ms v) = fold (fips_step M) [i..<64] (vars_list v)"
proof (induction "64 - i" arbitrary: i v)
  case 0
  then show ?case by (simp add: sha_rounds.simps)
next
  case (Suc n)
  then have i: "i < 64" "Suc i \<le> 64" and n: "n = 64 - Suc i" by auto
  then have upt: "[i..<64] = i # [Suc i..<64]" by (simp add: upt_conv_Cons)
  show ?case
    using Suc(1) [OF n i(2)] i(1) assms [OF i(1)]
    by (simp add: sha_rounds.simps [of i] upt sha_round_step del: upt_Suc)
qed

lemma add_vars_map2: "length st = 8 \<Longrightarrow> add_vars st v = map2 (+) st (vars_list v)"
  by (cases v rule: vars_list.cases) (auto simp: numeral_eq_Suc length_Suc_conv)

lemma state_vars: "length st = 8 \<Longrightarrow>
    [st ! 0, st ! Suc 0, st ! 2, st ! 3, st ! 4, st ! 5, st ! 6, st ! 7] = st"
  by (auto simp: numeral_eq_Suc length_Suc_conv)

lemma sha256_transform_fips:
  assumes "length M = 64" "length (state ctx) = 8"
  shows "sha256_transform ctx M = ctx\<lparr>state := fips_compress (state ctx) M\<rparr>"
proof -
  define ms where "ms = extend_words 16 (load_words 0 M [])"
  have "ms = map (fips_W M) [0..<64]"
    using load_words_eq [OF assms(1), of 0] extend_words_eq [of 16 M] by (simp add: ms_def)
  then have "vars_list (sha_rounds 0 ms v) = fold (fips_step M) [0..<64] (vars_list v)" for v
    by (intro sha_rounds_eq) (simp_all del: upt_Suc)
  then show ?thesis
    using assms(2)
    by (simp add: sha256_transform_def Let_def add_vars_map2 state_vars fips_compress_def
        flip: ms_def)
qed

lemma length_fips_step: "length xs = 8 \<Longrightarrow> length (fips_step M i xs) = 8"
  by (auto simp: numeral_eq_Suc length_Suc_conv Let_def)

lemma length_fold_step: "length xs = 8 \<Longrightarrow> length (fold (fips_step M) is xs) = 8"
  by (induction "is" arbitrary: xs) (auto simp: length_fips_step)

lemma length_fips_compress [simp]: "length H = 8 \<Longrightarrow> length (fips_compress H M) = 8"
  by (simp add: fips_compress_def length_fold_step)

text \<open>Padding, block decomposition and the hash value of a byte message.\<close>

fun blocks :: "u8 list \<Rightarrow> u8 list list" where
  "blocks xs = (if xs = [] then [] else take 64 xs # blocks (drop 64 xs))"

declare blocks.simps [simp del]

definition be_bytes :: "nat \<Rightarrow> nat \<Rightarrow> u8 list" where
  "be_bytes n x = map (\<lambda>i. of_nat (x div 256 ^ (n - 1 - i))) [0..<n]"

definition fips_pad :: "u8 list \<Rightarrow> u8 list" where
  "fips_pad M = M @ 0x80 # replicate ((119 - length M mod 64) mod 64) 0 @ be_bytes 8 (8 * length M)"

definition fips_H0 :: "u32 list" where
  "fips_H0 = [0x6a09e667, 0xbb67ae85, 0x3c6ef372, 0xa54ff53a,
              0x510e527f, 0x9b05688c, 0x1f83d9ab, 0x5be0cd19]"

definition fips_sha256 :: "u8 list \<Rightarrow> u8 list" where
  "fips_sha256 M =
     concat (map (\<lambda>w. be_bytes 4 (unat w)) (foldl fips_compress fips_H0 (blocks (fips_pad M))))"

lemma blocks_Nil [simp]: "blocks [] = []"
  by (simp add: blocks.simps)

lemma blocks_single: "length xs = 64 \<Longrightarrow> blocks xs = [xs]"
  by (subst blocks.simps) auto

lemma blocks_append: "64 dvd length xs \<Longrightarrow> blocks (xs @ ys) = blocks xs @ blocks ys"
proof (induction xs rule: blocks.induct)
  case (1 xs)
  show ?case
  proof (cases "xs = []")
    case False
    with "1.prems" have "64 \<le> length xs" by (auto dest: dvd_imp_le)
    moreover have "64 dvd length (drop 64 xs)" using "1.prems" by (simp add: dvd_diff_nat)
    ultimately show ?thesis using False "1.IH" by (simp add: blocks.simps [of "xs @ ys"] blocks.simps [of xs])
  qed simp
qed

text \<open>
  What the context says about the bytes hashed so far: \<open>full\<close> are the bytes of whole blocks,
  already compressed, \<open>rest\<close> those waiting in the buffer.
\<close>

definition sha_inv :: "u8 list \<Rightarrow> u8 list \<Rightarrow> sha256_ctx \<Rightarrow> bool" where
  "sha_inv full rest ctx \<longleftrightarrow>
     64 dvd length full \<and> length (data ctx) = 64 \<and> datalen ctx = length rest \<and> length rest < 64 \<and>
     take (length rest) (data ctx) = rest \<and>
     state ctx = foldl fips_compress fips_H0 (blocks full) \<and>
     bitlen ctx = of_nat (8 * length full)"

lemma length_foldl_compress [simp]:
  "length H = 8 \<Longrightarrow> length (foldl fips_compress H bs) = 8"
  by (induction bs arbitrary: H) auto

lemma length_fips_H0 [simp]: "length fips_H0 = 8"
  by (simp add: fips_H0_def)

lemma sha_inv_Init: "length (data ctx) = 64 \<Longrightarrow> sha_inv [] [] (SHA256_Init ctx)"
  by (simp add: sha_inv_def SHA256_Init_def fips_H0_def)

lemma sha_inv_update_byte:
  assumes "sha_inv full rest ctx"
  shows "sha_inv full (rest @ [b]) (update_byte b ctx) \<or>
         sha_inv (full @ rest @ [b]) [] (update_byte b ctx)"
proof (cases "length rest = 63")
  case False
  with assms show ?thesis
    by (auto simp: sha_inv_def update_byte_def Let_def take_Suc_conv_app_nth)
next
  case True
  define d where "d = (data ctx)[63 := b]"
  have d: "d = rest @ [b]"
    using assms True unfolding d_def sha_inv_def
    by (simp add: list_update_take_drop)
  have st: "length (state ctx) = 8"
    using assms by (simp add: sha_inv_def)
  have dvd: "64 dvd length (full @ rest @ [b])"
    using assms True by (simp add: sha_inv_def)
  have "blocks (full @ rest @ [b]) = blocks full @ [rest @ [b]]"
    using assms True by (simp add: blocks_append blocks_single sha_inv_def)
  with assms True d st dvd have "sha_inv (full @ rest @ [b]) [] (update_byte b ctx)"
    by (simp add: sha_inv_def update_byte_def Let_def sha256_transform_fips flip: d_def)
  then show ?thesis ..
qed

lemma sha_inv_Update:
  "sha_inv full rest ctx \<Longrightarrow>
   \<exists>full' rest'. full' @ rest' = full @ rest @ bs \<and> sha_inv full' rest' (SHA256_Update ctx bs)"
proof (induction bs arbitrary: full rest ctx)
  case (Cons b bs)
  from sha_inv_update_byte [OF Cons.prems, of b] show ?case
    using Cons.IH [of full "rest @ [b]" "update_byte b ctx"]
      Cons.IH [of "full @ rest @ [b]" "[]" "update_byte b ctx"] by auto
qed auto

lemma zero_fill_eq:
  "i \<le> n \<Longrightarrow> n \<le> length xs \<Longrightarrow> zero_fill i n xs = take i xs @ replicate (n - i) 0 @ drop n xs"
proof (induction "n - i" arbitrary: i xs)
  case 0
  then show ?case by (simp add: zero_fill.simps)
next
  case (Suc m)
  then have i: "i < n" "Suc i \<le> n" and m: "m = n - Suc i" by auto
  have "n - i = Suc (n - Suc i)" using i by simp
  then show ?case
    using Suc(1) [OF m i(2), of "xs[i := 0]"] Suc.prems i
    by (simp add: zero_fill.simps [of i] take_Suc_conv_app_nth)
qed

lemma byte_of_length:
  "j \<le> 56 \<Longrightarrow> (ucast (drop_bit j (of_nat x :: u64)) :: u8) = of_nat (x div 2 ^ j)"
  by (rule bit_word_eqI) (auto simp: bit_simps simp flip: drop_bit_eq_div)

lemma byte_of_word:
  "(ucast (drop_bit j (w :: u32)) :: u8) = of_nat (unat w div 2 ^ j)"
  by (rule bit_word_eqI) (auto simp: bit_simps simp flip: drop_bit_eq_div)

lemma word_bytes_be: "word_bytes w = be_bytes 4 (unat w)"
  using byte_of_word [of 0 w]
  by (simp add: word_bytes_def be_bytes_def byte_of_word upt_conv_Cons)

lemma append_length_be:
  assumes "length xs = 64"
  shows "append_length xs (of_nat n) = take 56 xs @ be_bytes 8 n"
proof -
  have "append_length xs (of_nat n) ! i = (take 56 xs @ be_bytes 8 n) ! i" if "i < 64" for i
  proof (cases "i < 56")
    case True
    then show ?thesis using assms by (simp add: append_length_def nth_append)
  next
    case False
    with that have "i \<in> {56, 57, 58, 59, 60, 61, 62, 63}" by auto
    then show ?thesis
      using assms byte_of_length [of 0 n]
      by (auto simp: append_length_def nth_append be_bytes_def byte_of_length)
  qed
  then show ?thesis using assms by (intro nth_equalityI) (auto simp: append_length_def be_bytes_def)
qed

lemma length_be_bytes [simp]: "length (be_bytes n x) = n"
  by (simp add: be_bytes_def)

lemma pad_one_block:
  assumes "sha_inv full rest ctx" "length rest < 56"
  shows "pad_block ctx =
    ctx\<lparr>data := rest @ 0x80 # replicate (55 - length rest) 0 @ drop 56 (data ctx)\<rparr>"
  using assms
  by (auto simp: sha_inv_def pad_block_def Let_def zero_fill_eq list_update_take_drop min_def drop_Cons')

lemma pad_two_blocks:
  assumes "sha_inv full rest ctx" "56 \<le> length rest"
  shows "pad_block ctx =
    ctx\<lparr>state := fips_compress (state ctx) (rest @ 0x80 # replicate (63 - length rest) 0),
        data := replicate 56 0 @ drop 56 (rest @ 0x80 # replicate (63 - length rest) 0)\<rparr>"
proof -
  let ?blk = "rest @ 0x80 # replicate (63 - length rest) 0"
  have r: "length rest < 64" "length (state ctx) = 8" "length (data ctx) = 64"
    "datalen ctx = length rest" "take (length rest) (data ctx) = rest"
    using assms(1) by (auto simp: sha_inv_def)
  then have fill: "zero_fill (Suc (length rest)) 64 ((data ctx)[length rest := 0x80]) = ?blk"
    by (simp add: zero_fill_eq list_update_take_drop min_def)
  have len: "length ?blk = 64" using r by simp
  then have z: "zero_fill 0 56 ?blk = replicate 56 0 @ drop 56 ?blk"
    by (subst zero_fill_eq) (simp_all only: take0 diff_zero append_Nil)
  have "pad_block ctx = (sha256_transform (ctx\<lparr>data := ?blk\<rparr>) ?blk)
      \<lparr>data := zero_fill 0 56 (data (sha256_transform (ctx\<lparr>data := ?blk\<rparr>) ?blk))\<rparr>"
    using assms(2) by (simp add: pad_block_def Let_def r(4) fill)
  also have "\<dots> = ctx\<lparr>state := fips_compress (state ctx) ?blk, data := zero_fill 0 56 ?blk\<rparr>"
    using sha256_transform_fips [OF len, of "ctx\<lparr>data := ?blk\<rparr>"] r(2) by simp
  finally show ?thesis by (simp only: z)
qed

lemma SHA256_Final_digest:
  assumes "length (state ctx) = 8" "length (data (pad_block ctx)) = 64"
    "length (state (pad_block ctx)) = 8" "bitlen (pad_block ctx) = bitlen ctx"
    "datalen (pad_block ctx) = datalen ctx" "bitlen ctx + of_nat (datalen ctx * 8) = of_nat n"
  shows "fst (SHA256_Final ctx) = concat (map (\<lambda>w. be_bytes 4 (unat w))
    (fips_compress (state (pad_block ctx)) (take 56 (data (pad_block ctx)) @ be_bytes 8 n)))"
proof -
  have "word_bytes = (\<lambda>w. be_bytes 4 (unat w))" by (simp add: fun_eq_iff word_bytes_be)
  then show ?thesis
    using assms by (simp add: SHA256_Final_def Let_def append_length_be sha256_transform_fips)
qed

lemma SHA256_Final_fips:
  assumes inv: "sha_inv full rest ctx"
  shows "fst (SHA256_Final ctx) = fips_sha256 (full @ rest)"
proof -
  let ?n = "8 * length (full @ rest)"
  let ?tail = "\<lambda>m. rest @ 0x80 # replicate m 0 @ be_bytes 8 ?n"
  have r: "length rest < 64" "64 dvd length full" "length (state ctx) = 8" "length (data ctx) = 64"
    "state ctx = foldl fips_compress fips_H0 (blocks full)" "bitlen ctx + of_nat (datalen ctx * 8) = of_nat ?n"
    using inv by (auto simp: sha_inv_def)
  have m: "length (full @ rest) mod 64 = length rest"
    using r(1,2) by (auto elim!: dvdE)
  have pad: "blocks (fips_pad (full @ rest)) = blocks full @ blocks (?tail ((119 - length rest) mod 64))"
    using r(2) by (simp add: fips_pad_def m [simplified] blocks_append)
  show ?thesis
  proof (cases "length rest < 56")
    case True
    then have "(119 - length rest) mod 64 = 55 - length rest" by (simp add: mod_if)
    then have "blocks (fips_pad (full @ rest)) = blocks full @ [?tail (55 - length rest)]"
      using True by (simp only: pad, subst blocks_single) auto
    moreover note P = pad_one_block [OF inv True]
    moreover have "take 56 (data (pad_block ctx)) = rest @ 0x80 # replicate (55 - length rest) 0"
      using True by (simp add: P take_Cons')
    ultimately show ?thesis
      using True r by (subst SHA256_Final_digest [where n = ?n]) (simp_all add: fips_sha256_def)
  next
    case False
    let ?blk = "rest @ 0x80 # replicate (63 - length rest) 0"
    from False have "(119 - length rest) mod 64 = (63 - length rest) + 56" using r(1) by simp
    then have "?tail ((119 - length rest) mod 64) = ?blk @ replicate 56 0 @ be_bytes 8 ?n"
      by (simp only: replicate_add append_assoc append_Cons)
    moreover have "length ?blk = 64" using r(1) by simp
    ultimately have "blocks (fips_pad (full @ rest)) = blocks full @ [?blk, replicate 56 0 @ be_bytes 8 ?n]"
      using pad by (simp only:, subst blocks_append) (simp_all add: blocks_single)
    moreover note P = pad_two_blocks [OF inv]
    moreover have "take 56 (data (pad_block ctx)) = replicate 56 0" using False by (simp add: P)
    ultimately show ?thesis
      using False r by (subst SHA256_Final_digest [where n = ?n]) (simp_all add: fips_sha256_def P)
  qed
qed

subsection \<open>The digest string\<close>

lemma SHA256_Update_append:
  "SHA256_Update ctx (as @ bs) = SHA256_Update (SHA256_Update ctx as) bs"
  by (induction "as" arbitrary: ctx) auto

definition is_hex :: "char \<Rightarrow> bool" where
  "is_hex c \<longleftrightarrow> c \<in> set ''0123456789abcdef''"

lemma hex_byte_is_hex: "\<forall>c\<in>set (hex_byte b). is_hex c"
proof -
  have "d < 16 \<Longrightarrow> is_hex (hex_digit d)" for d
    unfolding is_hex_def hex_digit_def by (rule nth_mem) simp
  moreover have "unat b < 256" using unsigned_less [of b] by simp
  ultimately show ?thesis by (simp add: hex_byte_def less_mult_imp_div_less)
qed

lemma length_hex_byte [simp]: "length (hex_byte b) = 2"
  by (simp add: hex_byte_def)

lemma length_concat_hex: "length (concat (map hex_byte bs)) = 2 * length bs"
  by (induction bs) auto

lemma length_concat_be: "length (concat (map (\<lambda>w. be_bytes 4 (unat w)) ws)) = 4 * length ws"
  by (induction ws) auto

lemma length_fips_sha256 [simp]: "length (fips_sha256 M) = 32"
  by (simp add: fips_sha256_def length_concat_be)

definition hex_string :: "u8 list \<Rightarrow> string" where
  "hex_string bs = concat (map hex_byte bs)"

lemma hex_string_is_hex: "\<forall>c\<in>set (hex_string bs). is_hex c"
  using hex_byte_is_hex by (auto simp: hex_string_def)

lemma not_is_hex [simp]: "\<not> is_hex NUL" "\<not> is_hex (CHR ''.'')"
  by (simp_all add: is_hex_def)

lemma sha256_buf_eq: "sha256_buf junk buf = hex_string (fips_sha256 buf) @ [NUL]"
proof -
  let ?ctx = "\<lparr>data = map junk [0..<64], state = replicate 8 0, bitlen = 0, datalen = 0\<rparr>"
  from sha_inv_Update [OF sha_inv_Init [of ?ctx], of buf] obtain full rest
    where "full @ rest = buf" "sha_inv full rest (SHA256_Update (SHA256_Init ?ctx) buf)"
    by (auto simp del: upt_Suc)
  then show ?thesis
    by (auto simp: sha256_buf_def Let_def sha256_hashtostring_def hex_string_def SHA256_Final_fips
        simp del: upt_Suc)
qed

lemma length_hex_string [simp]: "length (hex_string bs) = 2 * length bs"
  by (simp add: hex_string_def length_concat_hex)

lemma sha_inv_chunks:
  assumes "length (data ctx) = 64"
  shows "\<exists>full rest. full @ rest = concat chunks \<and> sha_inv full rest (foldl SHA256_Update (SHA256_Init ctx) chunks)"
proof -
  have "foldl SHA256_Update c chunks = SHA256_Update c (concat chunks)" for c
    by (induction chunks arbitrary: c) (simp_all add: SHA256_Update_append)
  then show ?thesis using sha_inv_Update [OF sha_inv_Init [OF assms], of "concat chunks"] by auto
qed

subsection \<open>Properties\<close>

text \<open>
  C6. \<^verbatim>\<open>sha256_buf\<close> is SHA-256: for every buffer, and whatever the uninitialised context on
  the stack holds, the output is the 64 lower-case hex digits of the FIPS 180-4 digest of
  the buffer, followed by the terminating NUL.
\<close>

theorem sha256_buf_is_fips: "sha256_buf junk buf = hex_string (fips_sha256 buf) @ [NUL]"
  by (rule sha256_buf_eq)

text \<open>
  C30. Hashing is incremental: feeding a message to \<^verbatim>\<open>SHA256_Update\<close> in chunks of any
  lengths and finishing with \<^verbatim>\<open>SHA256_Final\<close> gives the FIPS 180-4 digest of the chunks
  put together.
\<close>

theorem sha256_incremental:
  assumes "length (data ctx) = 64"
  shows "fst (SHA256_Final (foldl SHA256_Update (SHA256_Init ctx) chunks)) = fips_sha256 (concat chunks)"
proof -
  from sha_inv_chunks [OF assms] obtain full rest
    where "full @ rest = concat chunks" "sha_inv full rest (foldl SHA256_Update (SHA256_Init ctx) chunks)" by blast
  then show ?thesis using SHA256_Final_fips by metis
qed

theorem sha256_incremental_witness:
  "fst (SHA256_Final (foldl SHA256_Update
      (SHA256_Init \<lparr>data = replicate 64 9, state = replicate 8 1, bitlen = 5, datalen = 3\<rparr>) [[1, 2], [], [3]])) =
    fips_sha256 [1, 2, 3]"
  using sha256_incremental [of "\<lparr>data = replicate 64 9, state = replicate 8 1, bitlen = 5, datalen = 3\<rparr>"
      "[[1, 2], [], [3]]"] by simp

text \<open>
  C29. The context stays well formed: after any chunks its buffer has 64 bytes, its state eight
  words, \<^verbatim>\<open>datalen\<close> is the number of bytes of the last, incomplete block, which are those at the
  front of the buffer, and \<^verbatim>\<open>bitlen\<close> counts the bits of the blocks before it, modulo 2 to the 64.
\<close>

theorem context_well_formed:
  assumes "length (data ctx) = 64"
  shows "let c = foldl SHA256_Update (SHA256_Init ctx) chunks; n = length (concat chunks)
    in length (data c) = 64 \<and> length (state c) = 8 \<and> datalen c = n mod 64 \<and>
      bitlen c = of_nat (8 * (n - n mod 64)) \<and> take (n mod 64) (data c) = drop (n - n mod 64) (concat chunks)"
proof -
  let ?c = "foldl SHA256_Update (SHA256_Init ctx) chunks"
  from sha_inv_chunks [OF assms] obtain full rest
    where f: "full @ rest = concat chunks" "sha_inv full rest ?c" by blast
  then have "length (concat chunks) = length full + length rest" by (metis length_append)
  moreover have "length rest < 64" "64 dvd length full" using f(2) by (auto simp: sha_inv_def)
  ultimately have n: "length (concat chunks) mod 64 = length rest"
    "length (concat chunks) - length rest = length full" by auto
  have "drop (length full) (concat chunks) = rest" using f(1) by (metis append_eq_conv_conj)
  moreover have "length (data ?c) = 64" "length (state ?c) = 8" "datalen ?c = length rest"
    "bitlen ?c = of_nat (8 * length full)" "take (length rest) (data ?c) = rest"
    using f(2) by (simp_all add: sha_inv_def)
  ultimately show ?thesis unfolding Let_def n by (intro conjI) simp_all
qed

theorem context_well_formed_witness:
  "datalen (foldl SHA256_Update (SHA256_Init \<lparr>data = replicate 64 9, state = [], bitlen = 5, datalen = 3\<rparr>)
      [replicate 60 1, replicate 7 2]) = 3"
  using context_well_formed [of "\<lparr>data = replicate 64 9, state = [], bitlen = 5, datalen = 3\<rparr>"
      "[replicate 60 1, replicate 7 2]"] by (simp add: Let_def)

end
