(* ===== verification/Sha256_vectors.thy ===== *)
theory Sha256_vectors
  imports Minisha256
begin

section \<open>The published test vector\<close>

text \<open>
  The one-block example of FIPS 180-4, run through the model of \<^verbatim>\<open>sha256_buf\<close> by the kernel. It
  ties the specification, whose constants are copied from the standard, to a published value.
\<close>

text \<open>
  \<^verbatim>\<open>sha256_buf\<close> maps the three bytes \<^verbatim>\<open>abc\<close> to the digest the standard gives for
  them.
\<close>

theorem sha256_abc:
  "sha256_buf (\<lambda>_. 0xAA) [0x61, 0x62, 0x63] =
     ''ba7816bf8f01cfea414140de5dae2223b00361a396177a9cb410ff61f20015ad'' @ [NUL]"
  by code_simp

end
