(* ===== verification/Decimal.thy ===== *)
theory Decimal
  imports Prelude
begin

section \<open>Decimal numbers\<close>

text \<open>
  Digits as \<^verbatim>\<open>isdigit\<close>, \<^verbatim>\<open>strtol\<close> and \<^verbatim>\<open>std::from_chars\<close> read
  them, and the text of a number, used by the path reader and by the request handlers.
\<close>

definition is_digit :: "char \<Rightarrow> bool" where
  "is_digit c \<longleftrightarrow> 48 \<le> (of_char c :: nat) \<and> (of_char c :: nat) \<le> 57"

definition digit_val :: "char \<Rightarrow> nat" where
  "digit_val c = of_char c - 48"

definition dec_val :: "string \<Rightarrow> nat" where
  "dec_val s = foldl (\<lambda>a c. 10 * a + digit_val c) 0 s"

definition digit_char :: "nat \<Rightarrow> char" where
  "digit_char d = char_of (48 + d)"

fun nat_text :: "nat \<Rightarrow> string" where
  "nat_text n = (if n < 10 then [digit_char n] else nat_text (n div 10) @ [digit_char (n mod 10)])"

declare nat_text.simps [simp del]

lemma dec_val_Nil [simp]: "dec_val [] = 0"
  by (simp add: dec_val_def)

lemma dec_val_snoc [simp]: "dec_val (s @ [c]) = 10 * dec_val s + digit_val c"
  by (simp add: dec_val_def)

lemma digit_char_digit [simp]: "d < 10 \<Longrightarrow> is_digit (digit_char d)"
  by (simp add: is_digit_def digit_char_def)

lemma digit_val_char [simp]: "d < 10 \<Longrightarrow> digit_val (digit_char d) = d"
  by (simp add: digit_val_def digit_char_def)

lemma nat_text_digits: "\<forall>c\<in>set (nat_text n). is_digit c"
proof (induction n rule: nat_text.induct)
  case (1 n)
  then show ?case by (cases "n < 10") (auto simp: nat_text.simps [of n])
qed

lemma nat_text_nonempty [simp]: "nat_text n \<noteq> []"
  by (subst nat_text.simps) simp

lemma dec_val_nat_text [simp]: "dec_val (nat_text n) = n"
proof (induction n rule: nat_text.induct)
  case (1 n)
  then show ?case
    using dec_val_snoc [of "[]"] by (cases "n < 10") (auto simp: nat_text.simps [of n])
qed

lemma digit_not [simp]: "\<not> is_digit NUL" "\<not> is_digit (CHR ''/'')" "\<not> is_digit (CHR ''-'')"
  by (simp_all add: is_digit_def)

lemma takeWhile_digits: "\<forall>c\<in>set s. is_digit c \<Longrightarrow> t = [] \<or> \<not> is_digit (hd t) \<Longrightarrow>
    takeWhile is_digit (s @ t) = s"
  by (induction s; cases t) auto

lemma dropWhile_digits: "\<forall>c\<in>set s. is_digit c \<Longrightarrow> t = [] \<or> \<not> is_digit (hd t) \<Longrightarrow>
    dropWhile is_digit (s @ t) = t"
  by (induction s; cases t) auto

lemma takeWhile_nat_text [simp]: "takeWhile is_digit (nat_text n) = nat_text n"
  using takeWhile_digits [OF nat_text_digits, of "[]"] by simp

lemma dropWhile_nat_text [simp]: "dropWhile is_digit (nat_text n) = []"
  using dropWhile_digits [OF nat_text_digits, of "[]"] by simp

lemma hd_nat_text: "is_digit (hd (nat_text n))"
  using nat_text_digits [of n] list.set_sel(1) [OF nat_text_nonempty, of n] by blast

end
