(* ===== verification/Pathparse.thy ===== *)
theory Pathparse
  imports Decimal
begin

section \<open>Request paths (\<^verbatim>\<open>HTTPUtils.hpp\<close> and \<^verbatim>\<open>HTTPUtils.cpp\<close>)\<close>

text \<open>
  \<^verbatim>\<open>parse_path\<close> cuts a path at its slashes, drops empty segments and percent-decodes the
  others into one string, \<open>storage\<close>; a segment is an offset and a length in it. The readers
  \<^verbatim>\<open>consume\<close>, \<^verbatim>\<open>consume_read\<close> and \<^verbatim>\<open>consume_read_ex\<close> advance an
  index over the segments.
\<close>

record ParsedPath =
  storage :: string
  ranges :: "(nat \<times> nat) list"

definition get_idx :: "ParsedPath \<Rightarrow> nat \<Rightarrow> string" where
  "get_idx p idx =
     (if idx \<ge> length (ranges p) then []
      else case ranges p ! idx of (offset, len) \<Rightarrow> take len (drop offset (storage p)))"

definition path_size :: "ParsedPath \<Rightarrow> nat" where
  "path_size p = length (ranges p)"

definition hex_val :: "char \<Rightarrow> int" where
  "hex_val c =
     (let n = (of_char c :: int)
      in if of_char CHR ''0'' \<le> n \<and> n \<le> of_char CHR ''9'' then n - of_char CHR ''0''
         else if of_char CHR ''a'' \<le> n \<and> n \<le> of_char CHR ''f'' then n - of_char CHR ''a'' + 10
         else if of_char CHR ''A'' \<le> n \<and> n \<le> of_char CHR ''F'' then n - of_char CHR ''A'' + 10
         else -1)"

text \<open>The result pairs the success flag with \<^verbatim>\<open>dst\<close>, which keeps what was appended before
  a malformed escape.\<close>

fun append_percent_decoded :: "string \<Rightarrow> string \<Rightarrow> bool \<times> string" where
  "append_percent_decoded [] dst = (True, dst)"
| "append_percent_decoded (c # src) dst =
     (if c \<noteq> CHR ''%'' then append_percent_decoded src (dst @ [c])
      else case src of
        h # l # rest \<Rightarrow>
          (let hi = hex_val h; lo = hex_val l
           in if hi < 0 \<or> lo < 0 then (False, dst)
              else append_percent_decoded rest (dst @ [char_of (nat (or (push_bit 4 hi) lo))]))
      | _ \<Rightarrow> (False, dst))"

text \<open>One non-empty segment is decoded to the end of \<open>storage\<close>.\<close>

definition append_segment :: "string \<Rightarrow> ParsedPath \<Rightarrow> ParsedPath option" where
  "append_segment seg out =
     (if seg = [] then Some out
      else
        let offset = length (storage out)
        in case append_percent_decoded seg (storage out) of (ok, st) \<Rightarrow>
           if \<not> ok then None
           else Some (out\<lparr>storage := st, ranges := ranges out @ [(offset, length st - offset)]\<rparr>))"

text \<open>The loop of \<^verbatim>\<open>parse_path\<close>; \<open>rest\<close> is \<^verbatim>\<open>raw\<close> from \<^verbatim>\<open>start\<close> on.\<close>

function path_loop :: "string \<Rightarrow> ParsedPath \<Rightarrow> ParsedPath option" where
  "path_loop rest out =
     (let slash = strchr rest (CHR ''/'');
          seg = (case slash of None \<Rightarrow> rest | Some i \<Rightarrow> take i rest)
      in case append_segment seg out of
           None \<Rightarrow> None
         | Some out \<Rightarrow>
             (case slash of None \<Rightarrow> Some out | Some i \<Rightarrow> path_loop (drop (i + 1) rest) out))"
  by pat_completeness auto
termination
  by (relation "measure (\<lambda>(rest, out). length rest)") (auto dest: strchr_less)

declare path_loop.simps [simp del]

definition parse_path :: "string \<Rightarrow> ParsedPath option" where
  "parse_path raw =
     (if raw = [] then None
      else
        let raw = (if last raw = CHR ''/'' then butlast raw else raw)
        in path_loop raw \<lparr>storage = [], ranges = []\<rparr>)"

definition parse_path_cstr :: "string option \<Rightarrow> ParsedPath option" where
  "parse_path_cstr raw = (case raw of None \<Rightarrow> None | Some s \<Rightarrow> parse_path s)"

subsection \<open>Reading the segments\<close>

text \<open>The readers return the success flag and the new index (and the output argument).\<close>

definition consume :: "ParsedPath \<Rightarrow> nat \<Rightarrow> string \<Rightarrow> bool \<times> nat" where
  "consume p idx literal =
     (if idx \<ge> path_size p \<or> get_idx p idx \<noteq> literal then (False, idx) else (True, idx + 1))"

text \<open>
  \<^verbatim>\<open>std::from_chars\<close> in base ten for an integral type with values \<open>lo..hi\<close>: an
  optional minus sign (only for a signed type), then digits. It returns whether \<^verbatim>\<open>ec\<close> is
  zero, the value of the output and the unread rest.
\<close>

definition from_chars :: "int \<Rightarrow> int \<Rightarrow> string \<Rightarrow> int \<Rightarrow> bool \<times> int \<times> string" where
  "from_chars lo hi s out =
     (let neg = lo < 0 \<and> s \<noteq> [] \<and> hd s = CHR ''-'';
          body = (if neg then tl s else s);
          digits = takeWhile is_digit body;
          value = (if neg then - int (dec_val digits) else int (dec_val digits))
      in if digits = [] then (False, out, s)
         else if value < lo \<or> hi < value then (False, out, dropWhile is_digit body)
         else (True, value, dropWhile is_digit body))"

definition consume_read_int :: "int \<Rightarrow> int \<Rightarrow> ParsedPath \<Rightarrow> nat \<Rightarrow> int \<Rightarrow> bool \<times> nat \<times> int" where
  "consume_read_int lo hi p idx out =
     (if idx \<ge> path_size p then (False, idx, out)
      else case from_chars lo hi (get_idx p idx) out of (ok, out, rest) \<Rightarrow>
        if \<not> ok \<or> rest \<noteq> [] then (False, idx, out) else (True, idx + 1, out))"

definition consume_read_string :: "ParsedPath \<Rightarrow> nat \<Rightarrow> string \<Rightarrow> bool \<times> nat \<times> string" where
  "consume_read_string p idx out =
     (if idx \<ge> path_size p then (False, idx, out) else (True, idx + 1, get_idx p idx))"

definition consume_read_ex_int :: "int \<Rightarrow> int \<Rightarrow> ParsedPath \<Rightarrow> nat \<Rightarrow> int \<Rightarrow> bool \<times> nat \<times> int" where
  "consume_read_ex_int lo hi p idx out =
     (if idx \<ge> path_size p then (False, idx, out)
      else case from_chars lo hi (get_idx p idx) 0 of (ok, value, rest) \<Rightarrow>
        if \<not> ok \<or> rest \<noteq> [] then (False, idx, out) else (True, idx + 1, value))"

definition consume_read_ex_string :: "ParsedPath \<Rightarrow> nat \<Rightarrow> string \<Rightarrow> bool \<times> nat \<times> string" where
  "consume_read_ex_string p idx out =
     (if idx \<ge> path_size p then (False, idx, out) else (True, idx + 1, get_idx p idx))"

text \<open>
  At a floating-point type \<open>'f\<close>: \<^verbatim>\<open>strtod\<close> reads a C string and gives the value and the number of
  characters it took; \<^verbatim>\<open>std::stod\<close> does the same or throws. The first reader copies the segment to a
  buffer of 64 bytes. Both write the output before they look for junk after the number.
\<close>

definition consume_read_float ::
  "(string \<Rightarrow> 'f \<times> nat) \<Rightarrow> ParsedPath \<Rightarrow> nat \<Rightarrow> 'f \<Rightarrow> bool \<times> nat \<times> 'f" where
  "consume_read_float strtod p idx out =
     (if idx \<ge> path_size p then (False, idx, out)
      else
        let seg = get_idx p idx
        in if length seg \<ge> 64 then (False, idx, out)
           else case strtod (cstr (seg @ [NUL])) of (out, n) \<Rightarrow>
             if n \<noteq> length seg then (False, idx, out) else (True, idx + 1, out))"

definition consume_read_ex_float ::
  "(string \<Rightarrow> ('f \<times> nat) option) \<Rightarrow> ParsedPath \<Rightarrow> nat \<Rightarrow> 'f \<Rightarrow> bool \<times> nat \<times> 'f" where
  "consume_read_ex_float stod p idx out =
     (if idx \<ge> path_size p then (False, idx, out)
      else
        let segment = get_idx p idx
        in case stod (cstr (segment @ [NUL])) of
             None \<Rightarrow> (False, idx, out)
           | Some (out, pos) \<Rightarrow> if pos \<noteq> length segment then (False, idx, out) else (True, idx + 1, out))"

text \<open>
  At \<^verbatim>\<open>std::string_view\<close> the output is the segment where it lies, a range of the storage; at a type without a
  reader \<^verbatim>\<open>consume_read_ex\<close> fails.
\<close>

definition consume_read_ex_view :: "ParsedPath \<Rightarrow> nat \<Rightarrow> nat \<times> nat \<Rightarrow> bool \<times> nat \<times> (nat \<times> nat)" where
  "consume_read_ex_view p idx out =
     (if idx \<ge> path_size p then (False, idx, out) else (True, idx + 1, ranges p ! idx))"

definition consume_read_ex_other :: "ParsedPath \<Rightarrow> nat \<Rightarrow> 'a \<Rightarrow> bool \<times> nat \<times> 'a" where
  "consume_read_ex_other p idx out = (False, idx, out)"

subsection \<open>The segments of a path\<close>

fun pct_decode :: "string \<Rightarrow> string option" where
  "pct_decode [] = Some []"
| "pct_decode (c # s) =
     (if c \<noteq> CHR ''%'' then map_option ((#) c) (pct_decode s)
      else case s of
        h # l # r \<Rightarrow>
          (if hex_val h < 0 \<or> hex_val l < 0 then None
           else map_option ((#) (char_of (nat (16 * hex_val h + hex_val l)))) (pct_decode r))
      | _ \<Rightarrow> None)"

function split_slash :: "string \<Rightarrow> string list" where
  "split_slash s =
     (case strchr s (CHR ''/'') of
        None \<Rightarrow> [s]
      | Some i \<Rightarrow> take i s # split_slash (drop (i + 1) s))"
  by pat_completeness auto
termination
  by (relation "measure length") (auto dest: strchr_less)

declare split_slash.simps [simp del]

fun decode_all :: "string list \<Rightarrow> string list option" where
  "decode_all [] = Some []"
| "decode_all (s # ss) =
     (case pct_decode s of None \<Rightarrow> None | Some d \<Rightarrow> map_option ((#) d) (decode_all ss))"

definition path_segments :: "string \<Rightarrow> string list option" where
  "path_segments raw = decode_all (filter (\<lambda>s. s \<noteq> []) (split_slash raw))"

text \<open>A parsed path that holds given segments one after the other.\<close>

fun ranges_from :: "nat \<Rightarrow> string list \<Rightarrow> (nat \<times> nat) list" where
  "ranges_from n [] = []"
| "ranges_from n (s # ss) = (n, length s) # ranges_from (n + length s) ss"

definition path_of :: "string list \<Rightarrow> ParsedPath" where
  "path_of segs = \<lparr>storage = concat segs, ranges = ranges_from 0 segs\<rparr>"

lemma length_ranges_from [simp]: "length (ranges_from n ss) = length ss"
  by (induction ss arbitrary: n) auto

lemma ranges_from_snoc:
  "ranges_from n (ss @ [s]) = ranges_from n ss @ [(n + length (concat ss), length s)]"
  by (induction ss arbitrary: n) (auto simp: add.assoc)

lemma nth_ranges_from:
  "i < length ss \<Longrightarrow> ranges_from n ss ! i = (n + length (concat (take i ss)), length (ss ! i))"
  by (induction ss arbitrary: n i) (auto simp: nth_Cons take_Cons split: nat.split)

lemma path_size_of [simp]: "path_size (path_of ss) = length ss"
  by (simp add: path_size_def path_of_def)

lemma get_idx_of: "get_idx (path_of ss) i = (if i < length ss then ss ! i else [])"
proof -
  have "take (length (ss ! i)) (drop (length (concat (take i ss))) (concat ss)) = ss ! i"
    if "i < length ss"
  proof -
    have "concat ss = concat (take i ss) @ ss ! i @ concat (drop (Suc i) ss)"
      using that by (subst id_take_nth_drop [of i ss]) auto
    then show ?thesis by simp
  qed
  then show ?thesis by (simp add: get_idx_def path_of_def nth_ranges_from)
qed

lemma hex_val_bounds: "hex_val c < 16" "-1 \<le> hex_val c"
  by (auto simp: hex_val_def Let_def)

lemma nibbles_or:
  assumes "0 \<le> h" "0 \<le> l" "l < 16"
  shows "or (push_bit 4 h) l = 16 * h + (l :: int)"
proof -
  have "take_bit 4 l = l" using assms by (simp add: take_bit_int_eq_self)
  then have "\<not> bit l n" if "4 \<le> n" for n
    using that by (metis bit_take_bit_iff not_le)
  then have "or (push_bit 4 h) l = push_bit 4 h + l"
    by (intro disjunctive_add_eq_or [symmetric] bit_eqI) (auto simp: bit_simps not_le)
  then show ?thesis by (simp add: push_bit_eq_mult)
qed

lemma append_percent_decoded_eq:
  "append_percent_decoded src dst =
    (case pct_decode src of Some d \<Rightarrow> (True, dst @ d) | None \<Rightarrow> (False, snd (append_percent_decoded src dst)))"
proof (induction src arbitrary: dst rule: pct_decode.induct)
  case (2 c s)
  show ?case
  proof (cases "c = CHR ''%''")
    case False
    with 2(1) [OF False, of "dst @ [c]"] show ?thesis by (auto split: option.splits)
  next
    case True
    show ?thesis
    proof (cases "\<exists>h l r. s = h # l # r \<and> \<not> (hex_val h < 0 \<or> hex_val l < 0)")
      case False
      then show ?thesis using True by (auto split: list.splits simp: Let_def)
    next
      case True2: True
      then obtain h l r where s: "s = h # l # r" "0 \<le> hex_val h" "0 \<le> hex_val l" by auto
      then have "or (push_bit 4 (hex_val h)) (hex_val l) = 16 * hex_val h + hex_val l"
        using hex_val_bounds by (intro nibbles_or) auto
      with s True 2(2) [of h "l # r" l r "dst @ [_]"] show ?thesis
        by (auto simp: Let_def not_less split: option.splits)
    qed
  qed
qed simp

lemma path_of_snoc:
  "(path_of ss)\<lparr>storage := concat ss @ d, ranges := ranges (path_of ss) @ [(length (concat ss), length d)]\<rparr> =
    path_of (ss @ [d])"
  by (simp add: path_of_def ranges_from_snoc)

lemma storage_path_of [simp]: "storage (path_of ss) = concat ss"
  by (simp add: path_of_def)

lemma append_segment_eq:
  "append_segment seg (path_of ss) =
    (if seg = [] then Some (path_of ss) else map_option (\<lambda>d. path_of (ss @ [d])) (pct_decode seg))"
proof (cases "pct_decode seg")
  case None
  then obtain st where "append_percent_decoded seg (concat ss) = (False, st)"
    using append_percent_decoded_eq [of seg "concat ss"] by auto
  with None show ?thesis by (auto simp: append_segment_def)
next
  case (Some d)
  then have "append_percent_decoded seg (concat ss) = (True, concat ss @ d)"
    using append_percent_decoded_eq [of seg "concat ss"] by simp
  with Some show ?thesis using path_of_snoc [of ss d] by (auto simp: append_segment_def Let_def)
qed

lemma path_loop_eq:
  "path_loop rest (path_of ss) = map_option (\<lambda>ds. path_of (ss @ ds)) (path_segments rest)"
proof (induction rest arbitrary: ss rule: split_slash.induct)
  case (1 s)
  show ?case
  proof (cases "strchr s (CHR ''/'')")
    case None
    then show ?thesis
      by (simp add: path_loop.simps [of s] split_slash.simps [of s] path_segments_def append_segment_eq
          split: option.split)
  next
    case (Some i)
    then show ?thesis
      using 1 [OF Some]
      by (simp add: path_loop.simps [of s] split_slash.simps [of s] path_segments_def append_segment_eq
          option.map_comp o_def split: option.split)
  qed
qed

lemma parse_path_eq:
  "parse_path raw =
    (if raw = [] then None
     else map_option path_of (path_segments (if last raw = CHR ''/'' then butlast raw else raw)))"
proof -
  have "\<lparr>storage = [], ranges = []\<rparr> = path_of []" by (simp add: path_of_def)
  then show ?thesis using path_loop_eq [of _ "[]"] by (simp add: parse_path_def Let_def)
qed

lemma split_slash_append: "CHR ''/'' \<notin> set s \<Longrightarrow> split_slash (s @ CHR ''/'' # t) = s # split_slash t"
  by (simp add: split_slash.simps [of "s @ _"] strchr_append)

lemma split_slash_single: "CHR ''/'' \<notin> set s \<Longrightarrow> split_slash s = [s]"
  by (simp add: split_slash.simps [of s] strchr_None [THEN iffD2])

text \<open>A trailing slash adds an empty segment, which is dropped anyway.\<close>

lemma split_slash_trailing: "filter (\<lambda>s. s \<noteq> []) (split_slash (s @ ''/'')) = filter (\<lambda>s. s \<noteq> []) (split_slash s)"
proof (induction s rule: split_slash.induct)
  case (1 s)
  show ?case
  proof (cases "strchr s (CHR ''/'')")
    case None
    then have n: "CHR ''/'' \<notin> set s" by (simp add: strchr_None)
    then show ?thesis using split_slash_append [OF n, of "[]"] split_slash_single [of "[]"]
      by (simp add: split_slash_single)
  next
    case (Some i)
    then have s: "s = take i s @ CHR ''/'' # drop (i + 1) s" "CHR ''/'' \<notin> set (take i s)"
      using id_take_nth_drop [of i s] by (auto simp: strchr_Some_iff)
    have "split_slash (s @ ''/'') = take i s # split_slash (drop (i + 1) s @ ''/'')"
      using split_slash_append [OF s(2), of "drop (i + 1) s @ ''/''"] s(1)
      by (metis append.assoc append_Cons)
    moreover have "split_slash s = take i s # split_slash (drop (i + 1) s)"
      using split_slash_append [OF s(2), of "drop (i + 1) s"] s(1) by metis
    ultimately show ?thesis using 1 [OF Some] by (simp only: filter.simps)
  qed
qed

lemma parse_path_segments: "raw \<noteq> [] \<Longrightarrow> parse_path raw = map_option path_of (path_segments raw)"
proof (cases "last raw = CHR ''/''")
  case True
  moreover assume "raw \<noteq> []"
  ultimately have "butlast raw @ ''/'' = raw" by (metis append_butlast_last_id)
  with True \<open>raw \<noteq> []\<close> show ?thesis
    using split_slash_trailing [of "butlast raw"] by (simp add: parse_path_eq path_segments_def)
qed (simp add: parse_path_eq)

subsection \<open>Bounds\<close>

lemma pct_decode_length: "pct_decode s = Some d \<Longrightarrow> length d \<le> length s"
proof (induction s arbitrary: d rule: pct_decode.induct)
  case (2 c s)
  show ?case
  proof (cases "c = CHR ''%''")
    case True
    with 2(3) obtain h l r e where "s = h # l # r" "\<not> (hex_val h < 0 \<or> hex_val l < 0)"
      "pct_decode r = Some e" "length d = Suc (length e)"
      by (auto split: list.splits if_splits)
    with 2(2) [of h "l # r" l r e] True show ?thesis by simp
  qed (use 2 in auto)
qed simp

lemma decode_all_length: "decode_all ss = Some ds \<Longrightarrow> length ds = length ss \<and> length (concat ds) \<le> length (concat ss)"
  by (induction ss arbitrary: ds) (auto split: option.splits dest: pct_decode_length intro: add_mono)

lemma concat_filter_nonempty: "concat (filter (\<lambda>s. s \<noteq> []) ss) = concat ss"
  by (induction ss) auto

lemma split_slash_length: "length (concat (split_slash s)) \<le> length s"
proof (induction s rule: split_slash.induct)
  case (1 s)
  show ?case
    using 1 by (auto simp: split_slash.simps [of s] split: option.split dest: strchr_less)
qed

lemma path_segments_length: "path_segments s = Some ds \<Longrightarrow> length (concat ds) \<le> length s"
  using decode_all_length [of "filter (\<lambda>s. s \<noteq> []) (split_slash s)" ds] split_slash_length [of s]
  by (simp add: path_segments_def concat_filter_nonempty)

subsection \<open>Percent encoding\<close>

definition unreserved :: "char \<Rightarrow> bool" where
  "unreserved c \<longleftrightarrow> c \<in> set ''ABCDEFGHIJKLMNOPQRSTUVWXYZabcdefghijklmnopqrstuvwxyz0123456789-._~''"

definition hex_upper :: "nat \<Rightarrow> char" where
  "hex_upper d = ''0123456789ABCDEF'' ! d"

definition pct_char :: "char \<Rightarrow> string" where
  "pct_char c = (if unreserved c then [c]
     else [CHR ''%'', hex_upper (of_char c div 16), hex_upper (of_char c mod 16)])"

definition pct_encode :: "string \<Rightarrow> string" where
  "pct_encode s = concat (map pct_char s)"

lemma hex_val_upper: "d < 16 \<Longrightarrow> hex_val (hex_upper d) = int d"
proof -
  assume "d < 16"
  then have "d \<in> {0..<16}" by simp
  moreover have "\<forall>d\<in>{0..<16}. hex_val (hex_upper d) = int d" by code_simp
  ultimately show ?thesis by blast
qed

lemma hex_upper_plain: "d < 16 \<Longrightarrow> hex_upper d \<noteq> CHR ''/'' \<and> hex_upper d \<noteq> NUL"
proof -
  assume "d < 16"
  then have "d \<in> {0..<16}" by simp
  moreover have "\<forall>d\<in>{0..<16}. hex_upper d \<noteq> CHR ''/'' \<and> hex_upper d \<noteq> NUL" by code_simp
  ultimately show ?thesis by blast
qed

lemma of_char_less: "(of_char c :: nat) < 256"
  by (cases c) (auto simp: )

lemma pct_decode_char: "pct_decode (pct_char c @ s) = map_option ((#) c) (pct_decode s)"
proof (cases "unreserved c")
  case True
  moreover have "\<not> unreserved (CHR ''%'')" by (simp add: unreserved_def)
  ultimately show ?thesis by (auto simp: pct_char_def)
next
  case False
  let ?n = "of_char c :: nat"
  have d: "?n div 16 < 16" "?n mod 16 < 16" using of_char_less [of c] by (auto simp: less_mult_imp_div_less)
  have "nat (16 * int (?n div 16) + int (?n mod 16)) = ?n"
    by (metis mult_div_mod_eq nat_int of_nat_add of_nat_mult of_nat_numeral)
  then show ?thesis
    using False d by (simp add: pct_char_def hex_val_upper)
qed

lemma pct_decode_encode [simp]: "pct_decode (pct_encode s) = Some s"
  using pct_decode_char [of _ "pct_encode _"] by (induction s) (auto simp: pct_encode_def)

definition path_text :: "string list \<Rightarrow> string" where
  "path_text segs = concat (map (\<lambda>s. CHR ''/'' # pct_encode s) segs)"

lemma pct_char_plain: "CHR ''/'' \<notin> set (pct_char c)" "NUL \<notin> set (pct_char c)" "pct_char c \<noteq> []"
proof -
  have d: "of_char c div 16 < (16::nat)" "of_char c mod 16 < (16::nat)"
    using of_char_less [of c] by (auto simp: less_mult_imp_div_less)
  have u: "\<not> unreserved (CHR ''/'')" "\<not> unreserved NUL" by (simp_all add: unreserved_def)
  show "CHR ''/'' \<notin> set (pct_char c)" "NUL \<notin> set (pct_char c)" "pct_char c \<noteq> []"
    using u hex_upper_plain [OF d(1)] hex_upper_plain [OF d(2)] by (auto simp: pct_char_def)
qed

lemma pct_encode_plain: "CHR ''/'' \<notin> set (pct_encode s)" "NUL \<notin> set (pct_encode s)"
  "pct_encode s = [] \<longleftrightarrow> s = []"
  using pct_char_plain by (auto simp: pct_encode_def)

lemma split_slash_Cons: "split_slash (CHR ''/'' # s) = [] # split_slash s"
  using split_slash_append [of "[]" s] by simp

lemma split_slash_path_text:
  "CHR ''/'' \<notin> set s \<Longrightarrow> split_slash (s @ path_text segs) = s # map pct_encode segs"
proof (induction segs arbitrary: s)
  case Nil
  then show ?case by (simp add: path_text_def split_slash_single)
next
  case (Cons t segs)
  have "s @ path_text (t # segs) = s @ CHR ''/'' # pct_encode t @ path_text segs"
    by (simp add: path_text_def)
  with Cons show ?case by (simp add: split_slash_append pct_encode_plain)
qed

lemma decode_all_encode: "[] \<notin> set segs \<Longrightarrow>
    decode_all (filter (\<lambda>s. s \<noteq> []) (map pct_encode segs)) = Some segs"
  by (induction segs) (auto simp: pct_encode_plain)

lemma parse_path_text:
  assumes "segs \<noteq> []" "[] \<notin> set segs"
  shows "parse_path (path_text segs) = Some (path_of segs)"
proof -
  have "path_text segs \<noteq> []" using assms(1) by (cases segs) (auto simp: path_text_def)
  then show ?thesis
    using assms(2) split_slash_path_text [of "[]" segs]
    by (simp add: parse_path_segments path_segments_def decode_all_encode)
qed

subsection \<open>The readers\<close>

lemma from_chars_nat:
  assumes "int n \<le> hi" "lo \<le> 0"
  shows "from_chars lo hi (nat_text n) out = (True, int n, [])"
proof -
  have "hd (nat_text n) \<noteq> CHR ''-''" using hd_nat_text [of n] digit_not(3) by metis
  then show ?thesis using assms by (simp add: from_chars_def Let_def)
qed

lemma from_chars_minus:
  assumes "lo \<le> - int n" "- int n \<le> hi" "lo < 0"
  shows "from_chars lo hi (CHR ''-'' # nat_text n) out = (True, - int n, [])"
  using assms by (simp add: from_chars_def Let_def)

lemma from_chars_range: "from_chars lo hi s out = (True, v, r) \<Longrightarrow> lo \<le> v \<and> v \<le> hi"
  by (auto simp: from_chars_def Let_def split: if_splits)

lemma from_chars_whole:
  assumes "from_chars lo hi s out = (True, v, [])"
  shows "\<exists>ds. ds \<noteq> [] \<and> (\<forall>c\<in>set ds. is_digit c) \<and>
    (s = ds \<and> v = int (dec_val ds) \<or> lo < 0 \<and> s = CHR ''-'' # ds \<and> v = - int (dec_val ds))"
proof (cases "lo < 0 \<and> s \<noteq> [] \<and> hd s = CHR ''-''")
  case True
  then obtain t where s: "s = CHR ''-'' # t" by (cases s) auto
  with True assms have "dropWhile is_digit t = []" "takeWhile is_digit t \<noteq> []"
    "v = - int (dec_val (takeWhile is_digit t))"
    by (auto simp: from_chars_def Let_def split: if_splits)
  moreover have "takeWhile is_digit t = t"
    using calculation(1) by (simp add: takeWhile_eq_all_conv dropWhile_eq_Nil_conv)
  ultimately show ?thesis using s True by (auto simp: dropWhile_eq_Nil_conv)
next
  case False
  with assms have "dropWhile is_digit s = []" "takeWhile is_digit s \<noteq> []"
    "v = int (dec_val (takeWhile is_digit s))"
    by (simp_all add: from_chars_def Let_def split: if_splits)
  moreover have "takeWhile is_digit s = s"
    using calculation(1) by (simp add: takeWhile_eq_all_conv dropWhile_eq_Nil_conv)
  ultimately show ?thesis by (auto simp: dropWhile_eq_Nil_conv)
qed

lemma read_failed:
  "consume p idx s = (False, i) \<Longrightarrow> i = idx"
  "consume_read_int lo hi p idx out = (False, i, out') \<Longrightarrow> i = idx"
  "consume_read_ex_int lo hi p idx out = (False, i, out') \<Longrightarrow> i = idx \<and> out' = out"
  by (auto simp: consume_def consume_read_int_def consume_read_ex_int_def split: if_splits prod.splits)

lemma read_succeeded:
  "consume p idx s = (True, i) \<Longrightarrow> idx < path_size p \<and> i = idx + 1 \<and> get_idx p idx = s"
  "consume_read_int lo hi p idx out = (True, i, out') \<Longrightarrow>
     idx < path_size p \<and> i = idx + 1 \<and> lo \<le> out' \<and> out' \<le> hi"
  by (auto simp: consume_def consume_read_int_def split: if_splits prod.splits dest: from_chars_range)

subsection \<open>Properties\<close>

text \<open>
  C20. The path parser refines the plain specification: it fails exactly when some segment has a
  malformed escape, and otherwise reading its index table gives the decoded non-empty
  segments in order, reading past the end the empty string, and the storage never
  outgrows the path.
\<close>

theorem parse_path_refines:
  "raw \<noteq> [] \<Longrightarrow>
     (case parse_path raw of
        None \<Rightarrow> path_segments raw = None
      | Some p \<Rightarrow> \<exists>segs. path_segments raw = Some segs \<and> path_size p = length segs \<and>
          (\<forall>i. get_idx p i = (if i < length segs then segs ! i else [])) \<and>
          length (storage p) \<le> length raw)"
  by (auto simp: parse_path_segments get_idx_of path_segments_length split: option.split)

theorem parse_path_refines_witness:
  "\<exists>p. parse_path ''/auth//a%20b'' = Some p \<and> path_size p = 2 \<and> get_idx p 1 = ''a b''"
proof -
  have s: "path_segments ''/auth//a%20b'' = Some [''auth'', ''a b'']" by code_simp
  with parse_path_refines [of "''/auth//a%20b''"] show ?thesis
    by (cases "parse_path ''/auth//a%20b''") auto
qed

text \<open>
  C21. Round trip: non-empty segments, each percent-encoded and preceded by a slash, are read back
  unchanged, slashes and NUL bytes inside them included.
\<close>

theorem path_round_trip:
  assumes "segs \<noteq> []" "[] \<notin> set segs"
  shows "\<exists>p. parse_path (path_text segs) = Some p \<and> path_size p = length segs \<and>
    (\<forall>i < length segs. get_idx p i = segs ! i)"
  using parse_path_text [OF assms] by (simp add: get_idx_of)

theorem path_round_trip_witness:
  "\<exists>p. parse_path (path_text [''a/b'', [NUL], ''login'']) = Some p \<and> path_size p = 3 \<and> get_idx p 0 = ''a/b''"
  using path_round_trip [of "[''a/b'', [NUL], ''login'']"] by auto

lemma from_chars_accepts:
  assumes "list_all is_digit ds" "ds \<noteq> []" "lo \<le> v" "v \<le> hi"
  shows "v = int (dec_val ds) \<Longrightarrow> from_chars lo hi ds out = (True, v, [])"
    "lo < 0 \<Longrightarrow> v = - int (dec_val ds) \<Longrightarrow> from_chars lo hi (CHR ''-'' # ds) out = (True, v, [])"
proof -
  have t: "takeWhile is_digit ds = ds" "dropWhile is_digit ds = []"
    using assms(1) takeWhile_digits [of ds "[]"] dropWhile_digits [of ds "[]"] by (simp_all add: list_all_iff)
  have "hd ds \<noteq> CHR ''-''" using assms(1,2) by (cases ds) auto
  then show "v = int (dec_val ds) \<Longrightarrow> from_chars lo hi ds out = (True, v, [])"
    using assms(2-4) by (simp add: from_chars_def t)
  show "lo < 0 \<Longrightarrow> v = - int (dec_val ds) \<Longrightarrow> from_chars lo hi (CHR ''-'' # ds) out = (True, v, [])"
    using assms(2-4) by (simp add: from_chars_def t)
qed

text \<open>
  C22. Numbers in a path are read exactly: \<^verbatim>\<open>consume_read\<close> at an integer type succeeds, and steps to the next
  segment, just when there is a segment left that is a decimal number, with a minus sign only
  for a signed type, whose value the type can hold; that value is the result. Junk, an overflow and an empty
  segment are refused.
\<close>

theorem consume_read_int_iff:
  "consume_read_int lo hi p idx out = (True, i, v) \<longleftrightarrow>
     idx < path_size p \<and> i = idx + 1 \<and> lo \<le> v \<and> v \<le> hi \<and>
     (\<exists>ds. ds \<noteq> [] \<and> list_all is_digit ds \<and>
        (get_idx p idx = ds \<and> v = int (dec_val ds) \<or> lo < 0 \<and> get_idx p idx = CHR ''-'' # ds \<and> v = - int (dec_val ds)))"
    (is "?read \<longleftrightarrow> ?number")
proof
  assume r: ?read
  then have f: "from_chars lo hi (get_idx p idx) out = (True, v, [])"
    by (auto simp: consume_read_int_def split: if_splits prod.splits)
  from from_chars_whole [OF f] read_succeeded(2) [OF r] show ?number by (auto simp: list_all_iff)
next
  assume n: ?number
  then have "from_chars lo hi (get_idx p idx) out = (True, v, [])"
    using from_chars_accepts by auto
  with n show ?read by (simp add: consume_read_int_def)
qed

end
