(* ===== verification/Cookies.thy ===== *)
theory Cookies
  imports Prelude
begin

section \<open>Cookie headers (\<^verbatim>\<open>HTTPUtils.cpp\<close>, the C interface)\<close>

text \<open>
  \<^verbatim>\<open>HTTPUtils_parse_cookies\<close> splits a \<^verbatim>\<open>Cookie\<close> header in place: it overwrites
  the \<open>=\<close> and \<open>;\<close> that end names and values with NUL and returns an array of pointers into the
  header. The header is the buffer of its bytes with the NUL, a pointer an index into it, and
  the array the list of its entries before the terminating pair of null pointers. A read
  outside the buffer makes the result \<open>None\<close>.
\<close>

type_synonym cookie_t = "nat \<times> nat"

definition is_ws :: "char \<Rightarrow> bool" where
  "is_ws c \<longleftrightarrow> c = CHR 0x20 \<or> c = CHR 0x09 \<or> c = CHR 0x0A \<or> c = CHR 0x0D"

text \<open>The C string at an index, and \<^verbatim>\<open>strchr\<close> from there as an index.\<close>

definition cstr_at :: "char list \<Rightarrow> nat \<Rightarrow> string" where
  "cstr_at buf p = cstr (drop p buf)"

definition strchr_at :: "char list \<Rightarrow> nat \<Rightarrow> char \<Rightarrow> nat option" where
  "strchr_at buf p c = map_option ((+) p) (strchr (cstr_at buf p) c)"

text \<open>The first pass counts the segments between semicolons.\<close>

function count_segments :: "string \<Rightarrow> nat" where
  "count_segments p =
     (case strchr p (CHR '';'') of None \<Rightarrow> 1 | Some sep \<Rightarrow> 1 + count_segments (drop (sep + 1) p))"
  by pat_completeness auto
termination
  by (relation "measure length") (auto simp: strchr_Some_iff)

declare count_segments.simps [simp del]

definition skip_ws :: "char list \<Rightarrow> nat \<Rightarrow> nat" where
  "skip_ws buf p = p + length (takeWhile is_ws (drop p buf))"

function parse_loop :: "char list \<Rightarrow> nat \<Rightarrow> nat \<Rightarrow> nat \<Rightarrow> cookie_t list \<Rightarrow>
    (char list \<times> cookie_t list) option" where
  "parse_loop buf p idx count cookies =
     (if \<not> p < length buf then None
      else if buf ! p = NUL \<or> \<not> idx < count then Some (buf, cookies)
      else
        let p = skip_ws buf p
        in if \<not> p < length buf then None
           else case strchr_at buf p (CHR ''='') of
             None \<Rightarrow> Some (buf, cookies)
           | Some eq \<Rightarrow>
               let buf = buf[eq := NUL]; val = eq + 1; cookies = cookies @ [(p, val)]
               in if \<not> val < length buf then None
                  else case strchr_at buf val (CHR '';'') of
                    Some semi \<Rightarrow> parse_loop (buf[semi := NUL]) (semi + 1) (idx + 1) count cookies
                  | None \<Rightarrow>
                      parse_loop buf (val + length (cstr_at buf val)) (idx + 1) count cookies)"
  by pat_completeness auto
termination
  by (relation "measure (\<lambda>(buf, p, idx, count, cookies). count - idx)") auto

declare parse_loop.simps [simp del]

text \<open>
  The outer option of the result is that of the bounds; the inner one is \<open>None\<close> for the null
  pointer returned without a header or without memory for the array (\<open>malloc_ok\<close>).
\<close>

definition HTTPUtils_parse_cookies ::
  "bool \<Rightarrow> char list option \<Rightarrow> (char list \<times> cookie_t list) option option" where
  "HTTPUtils_parse_cookies malloc_ok header =
     (case header of
        None \<Rightarrow> Some None
      | Some buf \<Rightarrow>
          let count = count_segments (cstr_at buf 0)
          in if \<not> malloc_ok then Some None
             else map_option Some (parse_loop buf 0 0 count []))"

text \<open>The array as the strings its pointers show.\<close>

definition cookie_view :: "char list \<Rightarrow> cookie_t list \<Rightarrow> (string \<times> string) list" where
  "cookie_view buf cookies = map (\<lambda>(name, val). (cstr_at buf name, cstr_at buf val)) cookies"

text \<open>
  \<^verbatim>\<open>HTTPUtils_get_cookie\<close>: a match with a non-zero \<open>idx\<close> decrements it and
  continues with the same entry.
\<close>

function get_cookie_loop :: "(string \<times> string) list \<Rightarrow> string \<Rightarrow> nat \<Rightarrow> string option" where
  "get_cookie_loop [] name idx = None"
| "get_cookie_loop ((n, v) # cookies) name idx =
     (if n = name then
        (if idx \<noteq> 0 then get_cookie_loop ((n, v) # cookies) name (idx - 1) else Some v)
      else get_cookie_loop cookies name idx)"
  by pat_completeness auto
termination
  by (relation "measures [\<lambda>(cs, name, idx). length cs, \<lambda>(cs, name, idx). idx]") auto

declare get_cookie_loop.simps(2) [simp del]

definition HTTPUtils_get_cookie :: "(string \<times> string) list option \<Rightarrow> string \<Rightarrow> nat \<Rightarrow> string option" where
  "HTTPUtils_get_cookie cookies name idx =
     (case cookies of None \<Rightarrow> None | Some cs \<Rightarrow> get_cookie_loop cs name idx)"

fun HTTPUtils_restore_cookies :: "char list \<Rightarrow> cookie_t list \<Rightarrow> char list" where
  "HTTPUtils_restore_cookies header [] = header"
| "HTTPUtils_restore_cookies header ((name, val) # cookies) =
     (let header = header[val - 1 := CHR ''=''];
          fin = val + length (cstr_at header val);
          header = (if cookies \<noteq> [] then header[fin := CHR '';''] else header)
      in HTTPUtils_restore_cookies header cookies)"

subsection \<open>What the parser finds\<close>

text \<open>The pairs of a header, without a buffer.\<close>

function cookie_pairs :: "string \<Rightarrow> (string \<times> string) list" where
  "cookie_pairs s =
     (let t = dropWhile is_ws s
      in case strchr t (CHR ''='') of
           None \<Rightarrow> []
         | Some i \<Rightarrow>
             let r = drop (i + 1) t
             in case strchr r (CHR '';'') of
                  None \<Rightarrow> [(take i t, r)]
                | Some j \<Rightarrow> (take i t, take j r) # cookie_pairs (drop (j + 1) r))"
  by pat_completeness auto
termination
proof (relation "measure length", goal_cases)
  case (2 s t i r j)
  then have "length t \<le> length s" "i < length t" "j < length r"
    by (auto simp: strchr_Some_iff length_dropWhile_le)
  with 2 show ?case by simp
qed simp

declare cookie_pairs.simps [simp del]

abbreviation EQ :: char where "EQ \<equiv> CHR ''=''"
abbreviation SEMI :: char where "SEMI \<equiv> CHR '';''"

subsection \<open>Induction over the segments of a header\<close>

text \<open>Leading blanks and a name as the parser delimits them.\<close>

definition segment :: "string \<Rightarrow> string \<Rightarrow> bool" where
  "segment ws n \<longleftrightarrow> (\<forall>c\<in>set ws. is_ws c) \<and> EQ \<notin> set n \<and> (n = [] \<or> \<not> is_ws (hd n))"

lemma segment_dropWhile [simp]: "segment ws n \<Longrightarrow> dropWhile is_ws (ws @ n @ EQ # s) = n @ EQ # s"
  by (cases n) (auto simp: segment_def is_ws_def)

lemma segment_takeWhile [simp]: "segment ws n \<Longrightarrow> takeWhile is_ws (ws @ n @ EQ # s) = ws"
  by (cases n) (auto simp: segment_def is_ws_def)

lemma header_induct [case_names none last more]:
  assumes none: "\<And>s. EQ \<notin> set (dropWhile is_ws s) \<Longrightarrow> P s"
    and last: "\<And>ws n v. segment ws n \<Longrightarrow> SEMI \<notin> set v \<Longrightarrow> P (ws @ n @ EQ # v)"
    and more: "\<And>ws n v r. segment ws n \<Longrightarrow> SEMI \<notin> set v \<Longrightarrow> P r \<Longrightarrow> P (ws @ n @ EQ # v @ SEMI # r)"
  shows "P s"
proof (induction s rule: length_induct)
  case (1 s)
  define t where "t = dropWhile is_ws s"
  have s: "s = takeWhile is_ws s @ t" by (simp add: t_def)
  show ?case
  proof (cases "EQ \<in> set t")
    case False
    then show ?thesis by (intro none) (simp add: t_def)
  next
    case True
    then obtain n u where t: "t = n @ EQ # u" "EQ \<notin> set n" by (metis split_list_first)
    have "n = [] \<or> \<not> is_ws (hd n)"
      using t(1) hd_dropWhile [of is_ws s] by (cases n) (auto simp: t_def)
    then have seg: "segment (takeWhile is_ws s) n"
      using t(2) by (auto simp: segment_def dest: set_takeWhileD)
    show ?thesis
    proof (cases "SEMI \<in> set u")
      case False
      with last [OF seg False] s t(1) show ?thesis by metis
    next
      case True
      then obtain v r where u: "u = v @ SEMI # r" "SEMI \<notin> set v" by (metis split_list_first)
      moreover have "length r < length s" using arg_cong [OF s, of length] t(1) u(1) by simp
      ultimately have "P (takeWhile is_ws s @ n @ EQ # v @ SEMI # r)" using 1 by (intro more seg) auto
      with s t(1) u(1) show ?thesis by metis
    qed
  qed
qed

lemma cookie_pairs_none [simp]: "EQ \<notin> set (dropWhile is_ws s) \<Longrightarrow> cookie_pairs s = []"
  by (simp add: cookie_pairs.simps [of s] flip: strchr_None)

lemma segment_strchr: "segment ws n \<Longrightarrow> strchr (n @ EQ # s) EQ = Some (length n)"
  by (simp add: segment_def strchr_append)

lemma cookie_pairs_last [simp]:
  "segment ws n \<Longrightarrow> SEMI \<notin> set v \<Longrightarrow> cookie_pairs (ws @ n @ EQ # v) = [(n, v)]"
  by (simp add: cookie_pairs.simps [of "ws @ _"] segment_strchr strchr_None [THEN iffD2])

lemma cookie_pairs_more [simp]:
  "segment ws n \<Longrightarrow> SEMI \<notin> set v \<Longrightarrow>
   cookie_pairs (ws @ n @ EQ # v @ SEMI # r) = (n, v) # cookie_pairs r"
  by (simp add: cookie_pairs.simps [of "ws @ _"] segment_strchr strchr_append)

lemma count_segments_eq: "count_segments s = Suc (count_list s SEMI)"
proof (induction s rule: count_segments.induct)
  case (1 p)
  show ?case
  proof (cases "strchr p SEMI")
    case None
    then have "SEMI \<notin> set p" by (simp add: strchr_None)
    then show ?thesis using None by (simp add: count_segments.simps [of p])
  next
    case (Some i)
    then have p: "p = take i p @ SEMI # drop (Suc i) p" "SEMI \<notin> set (take i p)"
      using id_take_nth_drop [of i p] by (auto simp: strchr_Some_iff)
    have "count_list p SEMI = Suc (count_list (drop (Suc i) p) SEMI)"
      using arg_cong [OF p(1), of "\<lambda>s. count_list s SEMI"] p(2) by (simp add: count_notin)
    then show ?thesis using 1 [OF Some] Some by (simp add: count_segments.simps [of p])
  qed
qed

subsection \<open>One step of the loop\<close>

lemma cstr_at_append [simp]: "cstr_at (pre @ s) (length pre) = cstr s"
  by (simp add: cstr_at_def)

lemma cstr_at_append_add [simp]: "cstr_at (pre @ s) (length pre + i) = cstr_at s i"
  by (simp add: cstr_at_def)

lemma parse_loop_end:
  "parse_loop (pre @ [NUL]) (length pre) idx count acc = Some (pre @ [NUL], acc)"
  by (simp add: parse_loop.simps)

lemma skip_ws_eq: "skip_ws (pre @ s) (length pre) = length pre + length (takeWhile is_ws s)"
  by (simp add: skip_ws_def)

lemma takeWhile_NUL: "takeWhile is_ws (s @ [NUL]) = takeWhile is_ws s"
  by (induction s) (auto simp: is_ws_def)

lemma parse_loop_none:
  assumes "EQ \<notin> set (dropWhile is_ws s)" "NUL \<notin> set s"
  shows "parse_loop (pre @ s @ [NUL]) (length pre) idx count acc = Some (pre @ s @ [NUL], acc)"
proof -
  let ?w = "takeWhile is_ws s"
  have "strchr_at (pre @ s @ [NUL]) (length pre + length ?w) EQ = None"
  proof -
    have "pre @ s @ [NUL] = (pre @ ?w) @ dropWhile is_ws s @ [NUL]" by simp
    then have "cstr_at (pre @ s @ [NUL]) (length (pre @ ?w)) = dropWhile is_ws s"
      using assms(2) by (simp only: cstr_at_append) (auto intro!: cstr_append_NUL dest: set_dropWhileD)
    then show ?thesis using assms(1) by (simp add: strchr_at_def strchr_None [THEN iffD2])
  qed
  then show ?thesis
    by (simp add: parse_loop.simps skip_ws_eq takeWhile_NUL less_Suc_eq_le length_takeWhile_le)
qed

lemma takeWhile_name:
  assumes "segment ws n"
  shows "takeWhile is_ws (ws @ n @ NUL # s) = ws" "takeWhile is_ws (ws @ n @ EQ # s) = ws"
  using assms by (cases n; auto simp: segment_def is_ws_def)+

text \<open>Reading up to the \<open>=\<close>: the name is cut off and the value starts behind it.\<close>

lemma parse_loop_name:
  assumes "segment ws n" "idx < count" "NUL \<notin> set (ws @ n @ s)"
  shows "parse_loop (pre @ ws @ n @ EQ # s @ [NUL]) (length pre) idx count acc =
    (let q = length (pre @ ws); val = q + length n + 1; acc = acc @ [(q, val)];
         buf = (pre @ ws @ n @ [NUL]) @ s @ [NUL]
     in case strchr s SEMI of
          Some j \<Rightarrow> parse_loop (buf[val + j := NUL]) (val + j + 1) (idx + 1) count acc
        | None \<Rightarrow> parse_loop buf (val + length s) (idx + 1) count acc)"
proof -
  let ?b = "pre @ ws @ n @ EQ # s @ [NUL]"
  let ?q = "length (pre @ ws)"
  have q: "skip_ws ?b (length pre) = ?q"
    using assms(1) by (simp add: skip_ws_eq takeWhile_name)
  have c: "cstr_at ?b ?q = n @ EQ # s"
    using assms(3) cstr_at_append [of "pre @ ws" "n @ EQ # s @ [NUL]"]
    by (simp add: cstr_append cstr_append_NUL)
  have eq: "strchr_at ?b ?q EQ = Some (?q + length n)"
    using assms(1) by (simp only: strchr_at_def c) (simp add: segment_strchr)
  have upd: "?b[?q + length n := NUL] = (pre @ ws @ n @ [NUL]) @ s @ [NUL]"
    by (simp add: list_update_append)
  have v: "cstr_at ((pre @ ws @ n @ [NUL]) @ s @ [NUL]) (?q + length n + 1) = s"
    using assms(3) cstr_at_append [of "pre @ ws @ n @ [NUL]" "s @ [NUL]"] by (simp add: cstr_append_NUL add.assoc)
  have semi: "strchr_at ((pre @ ws @ n @ [NUL]) @ s @ [NUL]) (?q + length n + 1) SEMI =
      map_option ((+) (?q + length n + 1)) (strchr s SEMI)"
    by (simp only: strchr_at_def v)
  have nn: "?b ! length pre \<noteq> NUL"
    using assms(3) by (cases ws; cases n) (auto simp: nth_append)
  have len: "length pre < length ?b" "?q < length ?b"
    "?q + length n + 1 < length ((pre @ ws @ n @ [NUL]) @ s @ [NUL])" by simp_all
  show ?thesis
    by (subst parse_loop.simps) (cases "strchr s SEMI", simp_all only: Let_def q eq upd v semi len nn
        assms(2) simp_thms if_False if_True option.case option.map)
qed

lemma parse_loop_last:
  assumes "segment ws n" "SEMI \<notin> set v" "idx < count" "NUL \<notin> set (ws @ n @ v)"
  shows "parse_loop (pre @ ws @ n @ EQ # v @ [NUL]) (length pre) idx count acc =
    Some (pre @ (ws @ n @ NUL # v) @ [NUL], acc @ [(length (pre @ ws), length (pre @ ws @ n) + 1)])"
proof -
  have "parse_loop (pre @ ws @ n @ EQ # v @ [NUL]) (length pre) idx count acc =
      parse_loop ((pre @ ws @ n @ NUL # v) @ [NUL]) (length (pre @ ws @ n @ NUL # v)) (idx + 1) count
        (acc @ [(length (pre @ ws), length (pre @ ws @ n) + 1)])"
    using assms(2) by (subst parse_loop_name [OF assms(1,3,4)]) (simp add: strchr_None [THEN iffD2] Let_def ac_simps)
  then show ?thesis by (simp only: parse_loop_end) simp
qed

lemma parse_loop_more:
  assumes "segment ws n" "SEMI \<notin> set v" "idx < count" "NUL \<notin> set (ws @ n @ v @ r)"
  shows "parse_loop (pre @ ws @ n @ EQ # v @ SEMI # r @ [NUL]) (length pre) idx count acc =
    parse_loop ((pre @ ws @ n @ NUL # v @ [NUL]) @ r @ [NUL]) (length (pre @ ws @ n @ NUL # v @ [NUL]))
      (idx + 1) count (acc @ [(length (pre @ ws), length (pre @ ws @ n) + 1)])"
proof -
  have "NUL \<notin> set (ws @ n @ (v @ SEMI # r))" using assms(4) by simp
  from parse_loop_name [OF assms(1,3) this, of pre acc] show ?thesis
    using assms(2) by (simp add: strchr_append Let_def list_update_append ac_simps)
qed

subsection \<open>The whole loop\<close>

text \<open>The header that comes back from \<^verbatim>\<open>HTTPUtils_restore_cookies\<close>.\<close>

function header_restored :: "string \<Rightarrow> string" where
  "header_restored s =
     (let t = dropWhile is_ws s
      in case strchr t (CHR ''='') of
           None \<Rightarrow> s
         | Some i \<Rightarrow>
             let r = drop (i + 1) t
             in case strchr r (CHR '';'') of
                  None \<Rightarrow> s
                | Some j \<Rightarrow>
                    let rest = drop (j + 1) r
                    in takeWhile is_ws s @ take (i + 1) t @ take j r @
                       (if cookie_pairs rest = [] then NUL else CHR '';'') # header_restored rest)"
  by pat_completeness auto
termination
proof (relation "measure length", goal_cases)
  case (2 s t i r j rest)
  then have "length t \<le> length s" "i < length t" "j < length r"
    by (auto simp: strchr_Some_iff length_dropWhile_le)
  with 2 show ?case by simp
qed simp

declare header_restored.simps [simp del]

lemma header_restored_none [simp]: "EQ \<notin> set (dropWhile is_ws s) \<Longrightarrow> header_restored s = s"
  by (simp add: header_restored.simps [of s] flip: strchr_None)

lemma header_restored_last [simp]:
  "segment ws n \<Longrightarrow> SEMI \<notin> set v \<Longrightarrow> header_restored (ws @ n @ EQ # v) = ws @ n @ EQ # v"
  by (simp add: header_restored.simps [of "ws @ _"] segment_strchr strchr_None [THEN iffD2])

lemma header_restored_more [simp]:
  "segment ws n \<Longrightarrow> SEMI \<notin> set v \<Longrightarrow>
   header_restored (ws @ n @ EQ # v @ SEMI # r) =
     ws @ n @ EQ # v @ (if cookie_pairs r = [] then NUL else SEMI) # header_restored r"
  by (simp add: header_restored.simps [of "ws @ _"] segment_strchr strchr_append)

text \<open>One entry of the array, wherever the buffer starts.\<close>

lemma view_entry:
  assumes "NUL \<notin> set (n @ v)" "length pre = p"
  shows "cookie_view (pre @ ws @ n @ NUL # v @ NUL # r)
      ((p + length ws, p + length ws + length n + 1) # es) =
    (n, v) # cookie_view (pre @ ws @ n @ NUL # v @ NUL # r) es"
  using assms cstr_at_append [of "pre @ ws" "n @ NUL # v @ NUL # r"]
    cstr_at_append [of "pre @ ws @ n @ [NUL]" "v @ NUL # r"]
  by (simp add: cookie_view_def cstr_append_NUL add.assoc)

lemma restore_entry:
  assumes "NUL \<notin> set v" "length pre = p"
  shows "HTTPUtils_restore_cookies (pre @ ws @ n @ NUL # v @ NUL # r)
      ((q, p + length ws + length n + 1) # es) =
    HTTPUtils_restore_cookies (pre @ ws @ n @ EQ # v @ (if es = [] then NUL else SEMI) # r) es"
proof -
  have "cstr_at (pre @ ws @ n @ EQ # v @ NUL # r) (length (pre @ ws @ n) + 1) = v"
    using assms cstr_at_append [of "pre @ ws @ n @ [EQ]" "v @ NUL # r"]
    by (simp add: cstr_append_NUL add.assoc)
  then show ?thesis
    using assms(2) by (auto simp: Let_def list_update_append add.assoc)
qed

definition loop_result :: "nat \<Rightarrow> string \<Rightarrow> string \<Rightarrow> cookie_t list \<Rightarrow> bool" where
  "loop_result p s s' es \<longleftrightarrow>
     length s' = length s \<and>
     (\<forall>pre. length pre = p \<longrightarrow> cookie_view (pre @ s' @ [NUL]) es = cookie_pairs s) \<and>
     (\<forall>pre. length pre = p \<longrightarrow>
        HTTPUtils_restore_cookies (pre @ s' @ [NUL]) es = pre @ header_restored s @ [NUL])"

lemma loop_result_last:
  assumes "segment ws n" "SEMI \<notin> set v" "NUL \<notin> set (n @ v)"
  shows "loop_result p (ws @ n @ EQ # v) (ws @ n @ NUL # v)
    [(p + length ws, p + length ws + length n + 1)]"
  using assms view_entry [of n v _ p ws "[]" "[]"] restore_entry [of v _ p ws n "[]" _ "[]"]
  by (simp add: loop_result_def cookie_view_def del: HTTPUtils_restore_cookies.simps(2))

lemma loop_result_more:
  assumes "segment ws n" "SEMI \<notin> set v" "NUL \<notin> set (n @ v)"
    and r: "loop_result (p + length ws + length n + length v + 2) r r' es"
  shows "loop_result p (ws @ n @ EQ # v @ SEMI # r) (ws @ n @ NUL # v @ NUL # r')
    ((p + length ws, p + length ws + length n + 1) # es)"
proof -
  have view: "cookie_view (pre @ ws @ n @ NUL # v @ NUL # r' @ [NUL]) es = cookie_pairs r"
    if "length pre = p" for pre
  proof -
    have "length (pre @ ws @ n @ NUL # v @ [NUL]) = p + length ws + length n + length v + 2"
      using that by simp
    with r have "cookie_view ((pre @ ws @ n @ NUL # v @ [NUL]) @ r' @ [NUL]) es = cookie_pairs r"
      unfolding loop_result_def by blast
    then show ?thesis by simp
  qed
  have rest: "HTTPUtils_restore_cookies (pre @ ws @ n @ EQ # v @ c # r' @ [NUL]) es =
      pre @ ws @ n @ EQ # v @ c # header_restored r @ [NUL]" if "length pre = p" for pre c
  proof -
    have "length (pre @ ws @ n @ EQ # v @ [c]) = p + length ws + length n + length v + 2"
      using that by simp
    with r have "HTTPUtils_restore_cookies ((pre @ ws @ n @ EQ # v @ [c]) @ r' @ [NUL]) es =
        (pre @ ws @ n @ EQ # v @ [c]) @ header_restored r @ [NUL]"
      unfolding loop_result_def by blast
    then show ?thesis by simp
  qed
  have "es = [] \<longleftrightarrow> cookie_pairs r = []"
    using view [of "replicate p NUL"] by (auto simp: cookie_view_def)
  then show ?thesis
    using assms(1-3) r view rest view_entry [of n v _ p ws "r' @ [NUL]" es]
      restore_entry [of v _ p ws n "r' @ [NUL]" _ es]
    by (simp add: loop_result_def del: HTTPUtils_restore_cookies.simps(2))
qed

lemma loop_result_none:
  assumes "EQ \<notin> set (dropWhile is_ws s)"
  shows "loop_result p s s []"
  using assms by (simp add: loop_result_def cookie_view_def)

lemma parse_loop_result:
  assumes "NUL \<notin> set s" "count_list s SEMI < count - idx"
  shows "\<exists>s' es. parse_loop (pre @ s @ [NUL]) (length pre) idx count acc =
      Some (pre @ s' @ [NUL], acc @ es) \<and> loop_result (length pre) s s' es"
  using assms
proof (induction s arbitrary: pre idx acc rule: header_induct)
  case (none s)
  then show ?case by (auto simp: parse_loop_none intro: loop_result_none)
next
  case (last ws n v)
  then have "idx < count" "NUL \<notin> set (ws @ n @ v)" by auto
  note parse_loop_last [OF last.hyps this]
  moreover have "loop_result (length pre) (ws @ n @ EQ # v) (ws @ n @ NUL # v)
      [(length pre + length ws, length pre + length ws + length n + 1)]"
    using last by (intro loop_result_last) auto
  ultimately show ?case
    by (intro exI [of _ "ws @ n @ NUL # v"] exI
        [of _ "[(length pre + length ws, length pre + length ws + length n + 1)]"]) (simp add: add.assoc)
next
  case (more ws n v r)
  then have i: "idx < count" "count_list r SEMI < count - (idx + 1)" "NUL \<notin> set r" by auto
  let ?pre = "pre @ ws @ n @ NUL # v @ [NUL]"
  from more.IH [OF i(3,2), of ?pre "acc @ [(length (pre @ ws), length (pre @ ws @ n) + 1)]"]
  obtain r' es where IH: "parse_loop (?pre @ r @ [NUL]) (length ?pre) (idx + 1) count
      (acc @ [(length (pre @ ws), length (pre @ ws @ n) + 1)]) =
      Some (?pre @ r' @ [NUL], (acc @ [(length (pre @ ws), length (pre @ ws @ n) + 1)]) @ es)"
    "loop_result (length ?pre) r r' es" by blast
  have "parse_loop (pre @ ws @ n @ EQ # v @ SEMI # r @ [NUL]) (length pre) idx count acc =
      Some (?pre @ r' @ [NUL], (acc @ [(length (pre @ ws), length (pre @ ws @ n) + 1)]) @ es)"
    using more.prems by (intro trans [OF parse_loop_more [OF more.hyps(1,2) i(1)] IH(1)]) auto
  moreover have "loop_result (length pre) (ws @ n @ EQ # v @ SEMI # r) (ws @ n @ NUL # v @ NUL # r')
      ((length pre + length ws, length pre + length ws + length n + 1) # es)"
    using more.prems IH(2) by (intro loop_result_more more.hyps) (auto simp: add.assoc)
  ultimately show ?case
    by (intro exI [of _ "ws @ n @ NUL # v @ NUL # r'"] exI
        [of _ "(length pre + length ws, length pre + length ws + length n + 1) # es"]) (simp add: add.assoc)
qed

lemma parse_cookies_result:
  assumes "NUL \<notin> set s"
  obtains s' cs where "HTTPUtils_parse_cookies True (Some (s @ [NUL])) = Some (Some (s' @ [NUL], cs))"
    "length s' = length s" "cookie_view (s' @ [NUL]) cs = cookie_pairs s"
    "HTTPUtils_restore_cookies (s' @ [NUL]) cs = header_restored s @ [NUL]"
proof -
  have "cstr_at (s @ [NUL]) 0 = s" using assms by (simp add: cstr_at_def cstr_append_NUL)
  moreover have "count_list s SEMI < count_segments s - 0" by (simp add: count_segments_eq)
  from parse_loop_result [OF assms this, of "[]" "[]"] obtain s' es where
    "parse_loop (s @ [NUL]) 0 0 (count_segments s) [] = Some (s' @ [NUL], es)" "loop_result 0 s s' es"
    by auto
  ultimately show ?thesis
    using that [of s' es] by (simp add: HTTPUtils_parse_cookies_def loop_result_def)
qed

lemma cookie_pairs_names: "(n, v) \<in> set (cookie_pairs s) \<Longrightarrow> EQ \<notin> set n"
proof (induction s rule: header_induct)
  case (last ws m u)
  then show ?case by (simp add: segment_def [of ws m])
next
  case (more ws m u r)
  then have "EQ \<notin> set m" by (simp add: segment_def)
  with more show ?case by auto
qed simp

lemma cookie_pairs_chars: "(n, v) \<in> set (cookie_pairs s) \<Longrightarrow> set n \<subseteq> set s"
  by (induction s rule: header_induct) auto

subsection \<open>Headers as a browser writes them\<close>

fun cookie_header :: "(string \<times> string) list \<Rightarrow> string" where
  "cookie_header [] = []"
| "cookie_header [(n, v)] = n @ ''='' @ v"
| "cookie_header ((n, v) # cs) = n @ ''='' @ v @ ''; '' @ cookie_header cs"

definition cookie_ok :: "string \<times> string \<Rightarrow> bool" where
  "cookie_ok c \<longleftrightarrow> fst c \<noteq> [] \<and> \<not> is_ws (hd (fst c)) \<and> EQ \<notin> set (fst c) \<and> SEMI \<notin> set (snd c) \<and>
     NUL \<notin> set (fst c) \<and> NUL \<notin> set (snd c)"

lemma cookie_ok_segment: "cookie_ok (n, v) \<Longrightarrow> segment [] n"
  by (simp add: cookie_ok_def segment_def)

lemma cookie_pairs_blank: "is_ws c \<Longrightarrow> cookie_pairs (c # s) = cookie_pairs s"
  by (simp add: cookie_pairs.simps [of "c # s"] cookie_pairs.simps [of s])

lemma header_restored_blank: "is_ws c \<Longrightarrow> header_restored (c # s) = c # header_restored s"
  by (simp add: header_restored.simps [of "c # s"] header_restored.simps [of s] Let_def split: option.split)

lemma cookie_pairs_header:
  "\<forall>c\<in>set cs. cookie_ok c \<Longrightarrow> cookie_pairs (cookie_header cs) = cs \<and>
    header_restored (cookie_header cs) = cookie_header cs"
proof (induction cs rule: cookie_header.induct)
  case (2 n v)
  then show ?case
    using cookie_pairs_last [OF cookie_ok_segment, of n v v] header_restored_last [OF cookie_ok_segment, of n v v]
    by (auto simp: cookie_ok_def)
next
  case (3 n v c cs)
  then have "cookie_ok (n, v)" "SEMI \<notin> set v" by (auto simp: cookie_ok_def)
  with 3 show ?case
    using cookie_pairs_more [OF cookie_ok_segment, of n v v "CHR '' '' # cookie_header (c # cs)"]
      header_restored_more [OF cookie_ok_segment, of n v v "CHR '' '' # cookie_header (c # cs)"]
    by (simp add: cookie_pairs_blank header_restored_blank is_ws_def)
qed simp

lemma cookie_header_trailing:
  "cs \<noteq> [] \<Longrightarrow> \<forall>c\<in>set cs. cookie_ok c \<Longrightarrow>
    cookie_pairs (cookie_header cs @ '';'') = cs \<and>
    header_restored (cookie_header cs @ '';'') = cookie_header cs @ [NUL]"
proof (induction cs rule: cookie_header.induct)
  case (2 n v)
  then show ?case
    using cookie_pairs_more [OF cookie_ok_segment, of n v v "[]"]
      header_restored_more [OF cookie_ok_segment, of n v v "[]"]
    by (auto simp: cookie_ok_def)
next
  case (3 n v c cs)
  then have "cookie_ok (n, v)" "SEMI \<notin> set v" by (auto simp: cookie_ok_def)
  with 3 show ?case
    using cookie_pairs_more [OF cookie_ok_segment, of n v v "CHR '' '' # cookie_header (c # cs) @ '';''"]
      header_restored_more [OF cookie_ok_segment, of n v v "CHR '' '' # cookie_header (c # cs) @ '';''"]
    by (simp add: cookie_pairs_blank header_restored_blank is_ws_def)
qed simp

lemma cookie_header_no_NUL: "\<forall>c\<in>set cs. cookie_ok c \<Longrightarrow> NUL \<notin> set (cookie_header cs)"
  by (induction cs rule: cookie_header.induct) (auto simp: cookie_ok_def)

subsection \<open>Looking a cookie up\<close>

lemma get_cookie_loop_eq: "get_cookie_loop cs name idx = map_of cs name"
proof (induction cs name idx rule: get_cookie_loop.induct)
  case (2 n v cookies name idx)
  then show ?case by (subst get_cookie_loop.simps(2)) auto
qed simp

lemma get_cookie_eq: "HTTPUtils_get_cookie cookies name idx = Option.bind cookies (\<lambda>cs. map_of cs name)"
  by (cases cookies) (simp_all add: HTTPUtils_get_cookie_def get_cookie_loop_eq)

text \<open>The values of the entries with a name, in order.\<close>

definition cookie_values :: "(string \<times> string) list \<Rightarrow> string \<Rightarrow> string list" where
  "cookie_values cs name = map snd (filter (\<lambda>c. fst c = name) cs)"

lemma map_of_cookie_values:
  "map_of cs name = (case cookie_values cs name of [] \<Rightarrow> None | v # _ \<Rightarrow> Some v)"
  by (induction cs) (auto simp: cookie_values_def)

lemma cookie_pairs_Nil: "cookie_pairs s = [] \<longleftrightarrow> EQ \<notin> set s"
proof (induction s rule: header_induct)
  case (none s)
  then have "EQ \<notin> set s" using set_takeWhileD [of EQ is_ws s] set_append [of "takeWhile is_ws s" "dropWhile is_ws s"]
    by (auto simp: is_ws_def)
  then show ?case using none by simp
qed auto

text \<open>What is left of a separator that is not put back: the first semicolon of a text becomes a NUL.\<close>

fun cut_semicolon :: "string \<Rightarrow> string" where
  "cut_semicolon [] = []"
| "cut_semicolon (c # s) = (if c = SEMI then NUL # s else c # cut_semicolon s)"

lemma cut_semicolon_simps [simp]:
  "SEMI \<notin> set v \<Longrightarrow> cut_semicolon v = v" "SEMI \<notin> set v \<Longrightarrow> cut_semicolon (v @ SEMI # r) = v @ NUL # r"
  by (induction v) auto

lemma last_EQ_unique: "a @ EQ # c = b @ EQ # d \<Longrightarrow> EQ \<notin> set c \<Longrightarrow> EQ \<notin> set d \<Longrightarrow> a = b \<and> c = d"
  by (induction a arbitrary: b; case_tac b) auto

text \<open>Restoring loses one byte at most: the semicolon after the last pair, when text without a pair follows.\<close>

lemma header_restored_cut:
  "(EQ \<notin> set s \<longrightarrow> header_restored s = s) \<and>
   (\<forall>a c. s = a @ EQ # c \<and> EQ \<notin> set c \<longrightarrow> header_restored s = a @ EQ # cut_semicolon c)"
proof (induction s rule: header_induct)
  case (none s)
  then have "EQ \<notin> set s" using set_takeWhileD [of EQ is_ws s] set_append [of "takeWhile is_ws s" "dropWhile is_ws s"]
    by (auto simp: is_ws_def)
  then show ?case using none by auto
next
  case (last ws n v)
  have "header_restored (ws @ n @ EQ # v) = a @ EQ # cut_semicolon c" if e: "ws @ n @ EQ # v = a @ EQ # c" "EQ \<notin> set c" for a c
  proof -
    have "set c \<subseteq> set v"
    proof (cases "EQ \<in> set v")
      case True
      then obtain x y where v: "v = x @ EQ # y" "EQ \<notin> set y" by (metis split_list_last)
      with last_EQ_unique [of "ws @ n @ EQ # x" y a c] e show ?thesis by auto
    qed (use last_EQ_unique [of "ws @ n" v a c] e in auto)
    then have "cut_semicolon c = c" using last by (intro cut_semicolon_simps(1)) auto
    then show ?thesis unfolding e(1) [symmetric] using header_restored_last [OF last] e(1) by simp
  qed
  then show ?case by auto
next
  case (more ws n v r)
  let ?s = "ws @ n @ EQ # v @ SEMI # r"
  have "header_restored ?s = a @ EQ # cut_semicolon c" if e: "?s = a @ EQ # c" "EQ \<notin> set c" for a c
  proof (cases "EQ \<in> set r")
    case True
    then obtain x y where r: "r = x @ EQ # y" "EQ \<notin> set y" by (metis split_list_last)
    have "a = ws @ n @ EQ # v @ SEMI # x" "c = y"
      using last_EQ_unique [of "ws @ n @ EQ # v @ SEMI # x" y a c] e r by auto
    moreover have "cookie_pairs r \<noteq> []" using True cookie_pairs_Nil by blast
    moreover have "header_restored r = x @ EQ # cut_semicolon y" using more.IH r by blast
    ultimately show ?thesis using more.hyps by simp
  next
    case False
    then have p: "cookie_pairs r = []" "header_restored r = r" using cookie_pairs_Nil more.IH by blast+
    show ?thesis
    proof (cases "EQ \<in> set v")
      case True
      then obtain x y where v: "v = x @ EQ # y" "EQ \<notin> set y" by (metis split_list_last)
      have "a = ws @ n @ EQ # x" "c = y @ SEMI # r"
        using last_EQ_unique [of "ws @ n @ EQ # x" "y @ SEMI # r" a c] e v False by auto
      moreover have "header_restored ?s = ws @ n @ EQ # v @ NUL # r" using header_restored_more [OF more.hyps(1,2), of r] p by simp
      ultimately show ?thesis using more.hyps(2) v by simp
    next
      case no: False
      have "a = ws @ n" "c = v @ SEMI # r" using last_EQ_unique [of "ws @ n" "v @ SEMI # r" a c] e no False by auto
      then show ?thesis using more.hyps p by simp
    qed
  qed
  then show ?case by auto
qed

subsection \<open>Properties\<close>

text \<open>
  C18. Parsing the \<^verbatim>\<open>Cookie\<close> header stays inside the buffer and finds, in order, exactly
  the pairs that \<open>cookie_pairs\<close> reads: every name up to its equals sign without the blanks
  before it, and every value up to the next semicolon. The buffer keeps its length, and
  \<^verbatim>\<open>HTTPUtils_restore_cookies\<close> gives the header back up to one byte: the first semicolon
  after the last equals sign, if there is one, stays a NUL.
\<close>

theorem parse_cookies_finds_pairs:
  assumes "NUL \<notin> set s"
  shows "\<exists>s' cs h. HTTPUtils_parse_cookies True (Some (s @ [NUL])) = Some (Some (s' @ [NUL], cs)) \<and>
    length s' = length s \<and> cookie_view (s' @ [NUL]) cs = cookie_pairs s \<and>
    HTTPUtils_restore_cookies (s' @ [NUL]) cs = h @ [NUL] \<and> (EQ \<notin> set s \<longrightarrow> h = s) \<and>
    (\<forall>a c. s = a @ EQ # c \<and> EQ \<notin> set c \<longrightarrow> h = a @ EQ # cut_semicolon c)"
  using parse_cookies_result [OF assms] header_restored_cut [of s] by metis

theorem parse_cookies_finds_pairs_witness:
  "\<exists>s' cs. HTTPUtils_parse_cookies True (Some (''auth=a; id=7;'' @ [NUL])) = Some (Some (s' @ [NUL], cs)) \<and>
    length s' = 13 \<and> cookie_view (s' @ [NUL]) cs = [(''auth'', ''a''), (''id'', ''7'')] \<and>
    HTTPUtils_restore_cookies (s' @ [NUL]) cs = ''auth=a; id=7'' @ [NUL, NUL]"
proof -
  have "NUL \<notin> set ''auth=a; id=7;''" by simp
  from parse_cookies_finds_pairs [OF this] obtain s' cs h where
    p: "HTTPUtils_parse_cookies True (Some (''auth=a; id=7;'' @ [NUL])) = Some (Some (s' @ [NUL], cs))"
      "length s' = length ''auth=a; id=7;''" "cookie_view (s' @ [NUL]) cs = cookie_pairs ''auth=a; id=7;''"
      "HTTPUtils_restore_cookies (s' @ [NUL]) cs = h @ [NUL]"
    and h: "\<forall>a c. ''auth=a; id=7;'' = a @ EQ # c \<and> EQ \<notin> set c \<longrightarrow> h = a @ EQ # cut_semicolon c"
    by blast
  from h [rule_format, of "''auth=a; id''" "''7;''"] have "h = ''auth=a; id=7'' @ [NUL]" by simp
  moreover have "cookie_pairs ''auth=a; id=7;'' = [(''auth'', ''a''), (''id'', ''7'')]" by code_simp
  ultimately show ?thesis using p by (intro exI [of _ s'] exI [of _ cs]) simp
qed

text \<open>
  C19. Round trip over the headers browsers send: writing cookies as \<^verbatim>\<open>n=v; n=v\<close>, parsing
  the header and looking a name up gives the value of the first cookie of that name,
  whatever index is asked for, and restoring gives the very header back.
\<close>

theorem cookie_round_trip:
  assumes "\<forall>c\<in>set cs. cookie_ok c"
  shows "\<exists>buf es. HTTPUtils_parse_cookies True (Some (cookie_header cs @ [NUL])) = Some (Some (buf, es)) \<and>
    HTTPUtils_get_cookie (Some (cookie_view buf es)) name idx = map_of cs name \<and>
    HTTPUtils_restore_cookies buf es = cookie_header cs @ [NUL]"
proof -
  from parse_cookies_result [OF cookie_header_no_NUL [OF assms]] obtain s' es where
    "HTTPUtils_parse_cookies True (Some (cookie_header cs @ [NUL])) = Some (Some (s' @ [NUL], es))"
    "cookie_view (s' @ [NUL]) es = cookie_pairs (cookie_header cs)"
    "HTTPUtils_restore_cookies (s' @ [NUL]) es = header_restored (cookie_header cs) @ [NUL]"
    by metis
  then show ?thesis
    using cookie_pairs_header [OF assms] by (auto simp: get_cookie_eq)
qed

theorem cookie_round_trip_witness:
  "\<exists>buf es. HTTPUtils_parse_cookies True
      (Some (cookie_header [(''auth'', ''t1''), (''id'', ''5''), (''auth'', ''t2'')] @ [NUL])) = Some (Some (buf, es)) \<and>
    HTTPUtils_get_cookie (Some (cookie_view buf es)) ''auth'' 1 = Some ''t1'' \<and>
    HTTPUtils_restore_cookies buf es = cookie_header [(''auth'', ''t1''), (''id'', ''5''), (''auth'', ''t2'')] @ [NUL]"
  using cookie_round_trip [of "[(''auth'', ''t1''), (''id'', ''5''), (''auth'', ''t2'')]" "''auth''" 1]
  by (simp add: cookie_ok_def is_ws_def)

end
