(* ===== verification/Httputils_tests.thy ===== *)
theory Httputils_tests
  imports Pathparse Cookies
begin

section \<open>The repository's own tests of \<^verbatim>\<open>HTTPUtils\<close>\<close>

text \<open>
  \<^verbatim>\<open>testsrc/httputils_pathparse_tests.cpp\<close> and \<^verbatim>\<open>testsrc/httputils_tests.cpp\<close> on the model: the path test
  passes, and the cookie test prints what it expects for its first header. For its second one, which ends in a
  semicolon, the restored header is not the original.
\<close>

text \<open>The error message of the test, or none; the client number and job reference it prints.\<close>

definition simple_element_parsing_test :: "(string, int \<times> string) sum option" where
  "simple_element_parsing_test =
     (case parse_path_cstr (Some ''client/8472/job/2026-09-18.0002/details'') of
        None \<Rightarrow> None
      | Some p \<Rightarrow>
          (case consume p 0 ''client'' of (ok, idx) \<Rightarrow>
           if \<not> ok then Some (Inl ''client not found'')
           else case consume_read_int (-2147483648) 2147483647 p idx 0 of (ok, idx, client_id) \<Rightarrow>
           if \<not> ok then Some (Inl ''client_id not parsed'')
           else case consume p idx ''job'' of (ok, idx) \<Rightarrow>
           if \<not> ok then Some (Inl ''job not found'')
           else case consume_read_string p idx [] of (ok, idx, job_ref) \<Rightarrow>
           if \<not> ok then Some (Inl ''job reference not found'')
           else case consume p idx ''details'' of (ok, idx) \<Rightarrow>
           if \<not> ok then Some (Inl ''details not found'')
           else Some (Inr (client_id, job_ref))))"

lemma simple_element_parsing_test_passes:
  "simple_element_parsing_test = Some (Inr (8472, ''2026-09-18.0002''))"
  by code_simp

text \<open>The cookies the test prints and the header after restoring.\<close>

definition cookie_test :: "string \<Rightarrow> ((string \<times> string) list \<times> char list) option" where
  "cookie_test hdr =
     (case HTTPUtils_parse_cookies True (Some (hdr @ [NUL])) of
        Some (Some (buf, cookies)) \<Rightarrow> Some (cookie_view buf cookies, HTTPUtils_restore_cookies buf cookies)
      | _ \<Rightarrow> None)"

lemma cookie_test_first:
  "cookie_test ''user=alice; session=xyz123; theme=dark'' =
     Some ([(''user'', ''alice''), (''session'', ''xyz123''), (''theme'', ''dark'')],
       ''user=alice; session=xyz123; theme=dark'' @ [NUL])"
  by code_simp

lemma cookie_test_second:
  "cookie_test ''auth=Bearer eyJKS; signed_in=false;'' =
     Some ([(''auth'', ''Bearer eyJKS''), (''signed_in'', ''false'')], ''auth=Bearer eyJKS; signed_in=false'' @ [NUL, NUL])"
  by code_simp

end
