(* ===== verification/Cpp.thy ===== *)
theory Cpp
  imports Prelude
begin

section \<open>What the C++ sources use of their language\<close>

text \<open>
  Exceptions as values, with the handlers of \<^verbatim>\<open>catch\<close> clauses as predicates on
  them, and the associative containers as maps whose \<^verbatim>\<open>try_emplace\<close> keeps the entry that
  is there. The locale \<open>emplacing\<close> is the contract of a state that only grows that way; the
  key stores and the cache of login codes both provide it.
\<close>

subsection \<open>Exceptions\<close>

text \<open>
  The standard exception classes the sources or their libraries throw, and \<open>Undefined\<close> for a
  step the language leaves undefined (reading through an end iterator, \<^verbatim>\<open>front()\<close> of an
  empty string): no handler catches that one.
\<close>

datatype exn = Runtime_error | Invalid_argument | Out_of_range | Bad_cast | Undefined

definition std_exception :: "exn \<Rightarrow> bool" where
  "std_exception e \<longleftrightarrow> e \<noteq> Undefined"

text \<open>The two clauses of the token functions: \<^verbatim>\<open>runtime_error\<close> and \<^verbatim>\<open>invalid_argument\<close>.\<close>

definition auth_caught :: "exn \<Rightarrow> bool" where
  "auth_caught e \<longleftrightarrow> e = Runtime_error \<or> e = Invalid_argument"

definition bindE :: "exn + 'a \<Rightarrow> ('a \<Rightarrow> exn + 'b) \<Rightarrow> exn + 'b" where
  "bindE m f = (case m of Inl e \<Rightarrow> Inl e | Inr a \<Rightarrow> f a)"

lemma bindE_simps [simp]: "bindE (Inl e) f = Inl e" "bindE (Inr a) f = f a"
  by (simp_all add: bindE_def)

lemma bindE_Inr_iff: "bindE m f = Inr b \<longleftrightarrow> (\<exists>a. m = Inr a \<and> f a = Inr b)"
  by (cases m) auto

lemma bindE_Inl_iff: "bindE m f = Inl e \<longleftrightarrow> m = Inl e \<or> (\<exists>a. m = Inr a \<and> f a = Inl e)"
  by (cases m) auto

subsection \<open>Containers\<close>

definition try_emplace :: "'k \<Rightarrow> 'v \<Rightarrow> ('k \<rightharpoonup> 'v) \<Rightarrow> bool \<times> ('k \<rightharpoonup> 'v)" where
  "try_emplace key v m = (case m key of Some _ \<Rightarrow> (False, m) | None \<Rightarrow> (True, m(key \<mapsto> v)))"

lemma try_emplace_map: "snd (try_emplace key v m) = [key \<mapsto> v] ++ m"
  by (auto simp: try_emplace_def map_add_def split: option.split)

lemma try_emplace_lookup:
  "snd (try_emplace key v m) x = (case m x of Some w \<Rightarrow> Some w | None \<Rightarrow> if x = key then Some v else None)"
  by (auto simp: try_emplace_def split: option.split)

text \<open>
  A state whose entries are looked up by key and that an operation extends by at most one entry,
  never replacing one: \<open>offer x\<close> is the entry the operation brings.
\<close>

locale emplacing =
  fixes lookup :: "'s \<Rightarrow> 'k \<rightharpoonup> 'v"
    and step :: "'x \<Rightarrow> 's \<Rightarrow> 's"
    and offer :: "'x \<Rightarrow> ('k \<times> 'v) option"
  assumes step_lookup: "lookup (step x s) = (case offer x of None \<Rightarrow> lookup s | Some (k, v) \<Rightarrow> [k \<mapsto> v] ++ lookup s)"
begin

lemma lookup_fold: "lookup (fold step xs s) = map_of (List.map_filter offer xs) ++ lookup s"
proof (induction xs arbitrary: s)
  case (Cons x xs)
  show ?case
    using Cons.IH by (auto simp: step_lookup map_filter_simps map_add_def fun_eq_iff split: option.splits)
qed (simp add: map_filter_simps)

lemma lookup_kept: "lookup s k = Some v \<Longrightarrow> lookup (fold step xs s) k = Some v"
  by (simp add: lookup_fold)

lemma lookup_origin:
  "lookup (fold step xs s) k = Some v \<Longrightarrow> lookup s k = Some v \<or> (\<exists>x\<in>set xs. offer x = Some (k, v))"
proof (induction xs arbitrary: s)
  case (Cons x xs)
  then have "lookup (step x s) k = Some v \<or> (\<exists>x\<in>set xs. offer x = Some (k, v))" by simp
  then show ?case by (auto simp: step_lookup map_add_def split: option.splits if_splits)
qed simp

end

end
