(* ===== verification/Jwks_store.thy ===== *)
theory Jwks_store
  imports Cpp
begin

section \<open>Key stores (\<^verbatim>\<open>src/JWKSVerifierStore.cpp\<close>, \<^verbatim>\<open>.hpp\<close>)\<close>

text \<open>
  A \<^verbatim>\<open>JWKSStore\<close> holds the token verifiers of one issuer by key id; the manager holds the
  stores by issuer name, loads them from JWKS documents, refetches a document when a key id
  is unknown, and verifies tokens. JSON values are those of picojson; what its parser leaves in
  the value is the parameter \<open>parse\<close>, the JWT library is a record of operations, and
  the files, curl and the clock are a record read at each call.
\<close>

subsection \<open>JSON values and the JWT library\<close>

text \<open>No source looks into a number, which stays a text.\<close>

datatype json = JNull | JBool bool | JNumber string | JString string | JArray "json list"
  | JObject "(string \<times> json) list"

type_synonym json_object = "(string \<times> json) list"

text \<open>\<^verbatim>\<open>value::get<std::string>\<close> checks the type; \<^verbatim>\<open>map::at\<close> checks the key.\<close>

fun get_string :: "json \<Rightarrow> exn + string" where
  "get_string (JString s) = Inr s"
| "get_string _ = Inl Runtime_error"

definition at :: "json_object \<Rightarrow> string \<Rightarrow> exn + json" where
  "at obj key = (case map_of obj key of None \<Rightarrow> Inl Out_of_range | Some v \<Rightarrow> Inr v)"

record ('alg, 'v, 'j) jwt_ops =
  create_public_key_from_rsa_components :: "string \<Rightarrow> string \<Rightarrow> exn + string"
  create_public_key_from_ec_components :: "string \<Rightarrow> string \<Rightarrow> string \<Rightarrow> exn + string"
  rs256 :: "string \<Rightarrow> exn + 'alg"
  es256 :: "string \<Rightarrow> exn + 'alg"
  default_verifier :: 'v
  allow_algorithm :: "'v \<Rightarrow> 'alg \<Rightarrow> 'v"
  leeway :: "'v \<Rightarrow> u64 \<Rightarrow> 'v"
  jwt_verify :: "'v \<Rightarrow> 'j \<Rightarrow> int \<Rightarrow> exn + unit"
  jwt_decode :: "string \<Rightarrow> exn + 'j"
  get_key_id :: "'j \<Rightarrow> exn + string"
  get_type :: "'j \<Rightarrow> exn + string"
  get_algorithm :: "'j \<Rightarrow> exn + string"
  get_issuer :: "'j \<Rightarrow> exn + string"
  has_payload_claim :: "'j \<Rightarrow> string \<Rightarrow> bool"
  get_audience :: "'j \<Rightarrow> exn + string list"
  get_issued_at :: "'j \<Rightarrow> exn + int"
  get_expires_at :: "'j \<Rightarrow> exn + int"
  get_payload_json :: "'j \<Rightarrow> json_object"
  get_header_json :: "'j \<Rightarrow> json_object"

subsection \<open>One store\<close>

text \<open>Times are nanoseconds since the epoch, the ticks of \<^verbatim>\<open>system_clock\<close>.\<close>

record 'v JWKSStore =
  src_url :: string
  backing_file :: string
  last_fetch_time :: int
  verifiers :: "string \<rightharpoonup> 'v"

definition new_store :: "'v JWKSStore" where
  "new_store = \<lparr>src_url = [], backing_file = [], last_fetch_time = 0, verifiers = Map.empty\<rparr>"

definition rsa_algorithm :: "('alg, 'v, 'j) jwt_ops \<Rightarrow> json_object \<Rightarrow> exn + 'alg" where
  "rsa_algorithm J key =
     bindE (bindE (at key ''n'') get_string) (\<lambda>n.
     bindE (bindE (at key ''e'') get_string) (\<lambda>e.
     bindE (create_public_key_from_rsa_components J n e) (\<lambda>pubkey.
     rs256 J pubkey)))"

text \<open>\<open>None\<close> is the early return for a curve other than P-256.\<close>

definition ec_algorithm :: "('alg, 'v, 'j) jwt_ops \<Rightarrow> json_object \<Rightarrow> exn + 'alg option" where
  "ec_algorithm J key =
     bindE (bindE (at key ''crv'') get_string) (\<lambda>crv.
     bindE (bindE (at key ''x'') get_string) (\<lambda>x.
     bindE (bindE (at key ''y'') get_string) (\<lambda>y.
     if crv \<noteq> ''P-256'' then Inr None
     else bindE (create_public_key_from_ec_components J crv x y) (\<lambda>pubkey.
          bindE (es256 J pubkey) (\<lambda>alg. Inr (Some alg))))))"

text \<open>The verifier of an algorithm, with the leeway the source writes as a product.\<close>

definition verifier_leeway :: u64 where
  "verifier_leeway = 8 * 365 * 24 * 60 * 60"

definition make_verifier :: "('alg, 'v, 'j) jwt_ops \<Rightarrow> 'alg \<Rightarrow> 'v" where
  "make_verifier J alg = leeway J (allow_algorithm J (default_verifier J) alg) verifier_leeway"

definition add_key_from_json_object ::
  "('alg, 'v, 'j) jwt_ops \<Rightarrow> json_object \<Rightarrow> 'v JWKSStore \<Rightarrow> bool \<times> 'v JWKSStore" where
  "add_key_from_json_object J key store =
     (case (map_of key ''kid'', map_of key ''kty'') of
        (Some (JString kid), Some (JString kty)) \<Rightarrow>
          (case (if kty = ''RSA'' then bindE (rsa_algorithm J key) (\<lambda>alg. Inr (Some alg))
                 else if kty = ''EC'' then ec_algorithm J key
                 else Inr None) of
             Inl ex \<Rightarrow> (False, store)
           | Inr None \<Rightarrow> (False, store)
           | Inr (Some alg) \<Rightarrow>
               (case try_emplace kid (make_verifier J alg) (verifiers store) of
                  (inserted, vs) \<Rightarrow> (inserted, store\<lparr>verifiers := vs\<rparr>)))
      | _ \<Rightarrow> (False, store))"

fun add_keys :: "('alg, 'v, 'j) jwt_ops \<Rightarrow> json list \<Rightarrow> 'v JWKSStore \<Rightarrow> (exn + unit) \<times> 'v JWKSStore" where
  "add_keys J [] store = (Inr (), store)"
| "add_keys J (JObject obj # ary) store = add_keys J ary (snd (add_key_from_json_object J obj store))"
| "add_keys J (_ # ary) store = (Inl Runtime_error, store)"

text \<open>
  The result tells whether the returned pointer is non-null. Reading \<^verbatim>\<open>find("keys")->second\<close>
  of an object without that member dereferences the end iterator.
\<close>

definition keys_of_document :: "json \<Rightarrow> exn + json list option" where
  "keys_of_document val =
     (case val of
        JObject obj \<Rightarrow>
          (case map_of obj ''keys'' of
             None \<Rightarrow> Inl Undefined
           | Some (JArray ary) \<Rightarrow> Inr (Some ary)
           | Some _ \<Rightarrow> Inr None)
      | _ \<Rightarrow> Inr None)"

definition add_jwks_verifiers_from_string ::
  "('alg, 'v, 'j) jwt_ops \<Rightarrow> (string \<Rightarrow> json) \<Rightarrow> string \<Rightarrow> 'v JWKSStore \<Rightarrow> (exn + bool) \<times> 'v JWKSStore" where
  "add_jwks_verifiers_from_string J parse jwks_string store =
     (case keys_of_document (parse jwks_string) of
        Inl e \<Rightarrow> (Inl e, store)
      | Inr None \<Rightarrow> (Inr False, store)
      | Inr (Some ary) \<Rightarrow>
          (case add_keys J ary store of
             (Inl e, store) \<Rightarrow> (Inl e, store)
           | (Inr _, store) \<Rightarrow> (Inr True, store)))"

subsection \<open>Fetching a document\<close>

text \<open>
  \<open>open_file\<close> is \<open>None\<close> when the file cannot be opened, \<open>Some None\<close> when reading it
  fails; \<open>curl_perform\<close> gives curl's result code, the chunks it hands to the write callback and
  the HTTP status. \<open>now\<close> and \<open>later_now\<close> are the readings of the clock before and after
  that.
\<close>

record jwks_env =
  now :: int
  later_now :: int
  open_file :: "string \<Rightarrow> string option option"
  st_mtime :: "string \<Rightarrow> int option"
  curl_easy_init :: bool
  curl_perform :: "string \<Rightarrow> int \<times> string list \<times> int"

text \<open>\<^verbatim>\<open>size * nmemb\<close> bytes are appended, at the width of \<^verbatim>\<open>size_t\<close>.\<close>

definition curl_write_callback :: "string \<Rightarrow> u64 \<Rightarrow> u64 \<Rightarrow> string \<Rightarrow> u64 \<times> string" where
  "curl_write_callback contents sz nmemb str =
     (let total_size = sz * nmemb in (total_size, str @ take (unat total_size) contents))"

definition fetch_jwks_json :: "jwks_env \<Rightarrow> string \<Rightarrow> int \<Rightarrow> exn + string \<times> int" where
  "fetch_jwks_json env url last_write_time =
     (if url = [] then Inl Undefined
      else if hd url = CHR ''.'' \<or> hd url = CHR ''/'' then
        (case open_file env url of
           None \<Rightarrow> Inl Runtime_error
         | Some None \<Rightarrow> Inl Runtime_error
         | Some (Some fileContents) \<Rightarrow>
             Inr (fileContents, case st_mtime env url of None \<Rightarrow> last_write_time | Some t \<Rightarrow> t))
      else if \<not> curl_easy_init env then Inl Runtime_error
      else case curl_perform env url of (res, chunks, http_code) \<Rightarrow>
        let response_data =
          fold (\<lambda>chunk str. snd (curl_write_callback chunk 1 (of_nat (length chunk)) str)) chunks []
        in if res \<noteq> 0 then Inl Runtime_error
           else if http_code \<noteq> 200 then Inl Runtime_error
           else Inr (response_data, last_write_time))"

text \<open>
  \<^verbatim>\<open>find_verifier\<close>: the store after the call, also when an exception leaves it, and the files
  written. \<^verbatim>\<open>duration_cast<hours>\<close> rounds towards zero.
\<close>

definition nanoseconds :: int where
  "nanoseconds = 1000000000"

definition hours_since :: "int \<Rightarrow> int" where
  "hours_since d = (if 0 \<le> d then d div (3600 * nanoseconds) else - (- d div (3600 * nanoseconds)))"

definition find_verifier ::
  "('alg, 'v, 'j) jwt_ops \<Rightarrow> (string \<Rightarrow> json) \<Rightarrow> jwks_env \<Rightarrow> string \<Rightarrow> 'v JWKSStore \<Rightarrow>
   (exn + 'v option) \<times> 'v JWKSStore \<times> (string \<times> string) list" where
  "find_verifier J parse env kid store =
     (case verifiers store kid of
        Some verifier \<Rightarrow> (Inr (Some verifier), store, [])
      | None \<Rightarrow>
          if hours_since (now env - last_fetch_time store) \<ge> 24 then
            (case fetch_jwks_json env (src_url store) 0 of
               Inl e \<Rightarrow> (Inl e, store, [])
             | Inr (jwks_json_str, last_write_time) \<Rightarrow>
                 let saved = (if backing_file store \<noteq> [] then [(backing_file store, jwks_json_str)] else [])
                 in case add_jwks_verifiers_from_string J parse jwks_json_str store of
                      (Inl e, store) \<Rightarrow> (Inl e, store, saved)
                    | (Inr _, store) \<Rightarrow>
                        let store = store\<lparr>last_fetch_time := last_write_time * nanoseconds\<rparr>
                        in (Inr (verifiers store kid), store, saved))
          else (Inr (verifiers store kid), store, []))"

subsection \<open>The manager\<close>

type_synonym 'v stores = "string \<rightharpoonup> 'v JWKSStore"

definition init_store :: "string \<Rightarrow> string \<Rightarrow> 'v stores \<Rightarrow> 'v JWKSStore \<times> 'v stores" where
  "init_store issuer url stores =
     (case stores issuer of
        None \<Rightarrow> let store = new_store\<lparr>src_url := url\<rparr> in (store, stores(issuer \<mapsto> store))
      | Some store \<Rightarrow> (store, stores))"

definition get_or_create_store :: "string \<Rightarrow> 'v stores \<Rightarrow> 'v JWKSStore \<times> 'v stores" where
  "get_or_create_store issuer stores =
     (case stores issuer of
        None \<Rightarrow> (new_store, snd (try_emplace issuer new_store stores))
      | Some store \<Rightarrow> (store, stores))"

definition find_store :: "string \<Rightarrow> 'v stores \<Rightarrow> 'v JWKSStore option" where
  "find_store store_name stores = stores store_name"

definition update_store :: "'v JWKSStore \<Rightarrow> int" where
  "update_store store = (if src_url store = [] then -1 else 0)"

definition get_verifier :: "string \<Rightarrow> string \<Rightarrow> 'v stores \<Rightarrow> 'v option" where
  "get_verifier issuer kid stores =
     (case stores issuer of None \<Rightarrow> None | Some store \<Rightarrow> verifiers store kid)"

text \<open>
  \<^verbatim>\<open>JWKSStoreManager::add_jwks_verifiers_from_string\<close>; the result is the returned pointer, as
  the issuer whose store it points to.
\<close>

definition manager_add_jwks ::
  "('alg, 'v, 'j) jwt_ops \<Rightarrow> (string \<Rightarrow> json) \<Rightarrow> int \<Rightarrow> string \<Rightarrow> string \<Rightarrow> string \<Rightarrow> 'v stores \<Rightarrow>
   (exn + string option) \<times> 'v stores" where
  "manager_add_jwks J parse time issuer source_url jwks_json stores =
     (case keys_of_document (parse jwks_json) of
        Inl e \<Rightarrow> (Inl e, stores)
      | Inr None \<Rightarrow> (Inr None, stores)
      | Inr (Some ary) \<Rightarrow>
          let store = (case find_store issuer stores of
                         None \<Rightarrow> new_store\<lparr>src_url := source_url, last_fetch_time := time\<rparr>
                       | Some store \<Rightarrow> store)
          in case add_keys J ary store of
               (Inl e, store) \<Rightarrow> (Inl e, stores(issuer \<mapsto> store))
             | (Inr _, store) \<Rightarrow> (Inr (Some issuer), stores(issuer \<mapsto> store)))"

definition verify_jwt ::
  "('alg, 'v, 'j) jwt_ops \<Rightarrow> (string \<Rightarrow> json) \<Rightarrow> jwks_env \<Rightarrow> string \<Rightarrow> string \<Rightarrow> 'v stores \<Rightarrow>
   (exn + bool) \<times> 'v stores \<times> (string \<times> string) list" where
  "verify_jwt J parse env issuer jwt_str stores =
     (case find_store issuer stores of
        None \<Rightarrow> (Inr False, stores, [])
      | Some store \<Rightarrow>
     (case jwt_decode J jwt_str of
        Inl e \<Rightarrow> (Inl e, stores, [])
      | Inr jwt \<Rightarrow>
     (case get_key_id J jwt of
        Inl e \<Rightarrow> (Inl e, stores, [])
      | Inr kid \<Rightarrow>
     (case find_verifier J parse env kid store of
        (Inl e, store, saved) \<Rightarrow> (Inl e, stores(issuer \<mapsto> store), saved)
      | (Inr None, store, saved) \<Rightarrow> (Inr False, stores(issuer \<mapsto> store), saved)
      | (Inr (Some token_verifier), store, saved) \<Rightarrow>
          (case jwt_verify J token_verifier jwt (later_now env) of
             Inr _ \<Rightarrow> (Inr True, stores(issuer \<mapsto> store), saved)
           | Inl e \<Rightarrow>
               (if std_exception e then Inr False else Inl e, stores(issuer \<mapsto> store), saved))))))"

text \<open>\<^verbatim>\<open>get_jwk\<close> throws when the text does not parse, and skips entries without a key id.\<close>

fun find_jwk :: "json list \<Rightarrow> string \<Rightarrow> json_object" where
  "find_jwk [] key_id = []"
| "find_jwk (JObject key # keys) key_id =
     (case (map_of key ''kid'', map_of key ''kty'') of
        (Some (JString kid), Some (JString kty)) \<Rightarrow> if kid = key_id then key else find_jwk keys key_id
      | _ \<Rightarrow> find_jwk keys key_id)"
| "find_jwk (_ # keys) key_id = find_jwk keys key_id"

definition get_jwk :: "(string \<Rightarrow> string \<times> json) \<Rightarrow> string \<Rightarrow> string \<Rightarrow> exn + json_object" where
  "get_jwk parse jwks_json key_id =
     (case parse jwks_json of (err, v) \<Rightarrow>
      if err \<noteq> [] then Inl Runtime_error
      else case v of
        JObject obj \<Rightarrow>
          (case map_of obj ''keys'' of
             Some (JArray keys) \<Rightarrow> Inr (find_jwk keys key_id)
           | _ \<Rightarrow> Inl Runtime_error)
      | _ \<Rightarrow> Inl Runtime_error)"

subsection \<open>What adding keys does\<close>

text \<open>The entry a JWK stands for, when it is complete and of a supported kind.\<close>

definition key_entry :: "('alg, 'v, 'j) jwt_ops \<Rightarrow> json_object \<Rightarrow> (string \<times> 'v) option" where
  "key_entry J key =
     (case (map_of key ''kid'', map_of key ''kty'') of
        (Some (JString kid), Some (JString kty)) \<Rightarrow>
          if kty = ''RSA'' then
            (case rsa_algorithm J key of Inr alg \<Rightarrow> Some (kid, make_verifier J alg) | Inl _ \<Rightarrow> None)
          else if kty = ''EC'' then
            (case ec_algorithm J key of Inr (Some alg) \<Rightarrow> Some (kid, make_verifier J alg) | _ \<Rightarrow> None)
          else None
      | _ \<Rightarrow> None)"

lemma add_key_eq:
  "add_key_from_json_object J key store =
     (case key_entry J key of
        None \<Rightarrow> (False, store)
      | Some (kid, v) \<Rightarrow> apsnd (\<lambda>vs. store\<lparr>verifiers := vs\<rparr>) (try_emplace kid v (verifiers store)))"
  by (auto simp: add_key_from_json_object_def key_entry_def bindE_def split_def apsnd_def map_prod_def
      split: option.split json.split sum.split)

lemma add_key_fields [simp]:
  "src_url (snd (add_key_from_json_object J key store)) = src_url store"
  "backing_file (snd (add_key_from_json_object J key store)) = backing_file store"
  "last_fetch_time (snd (add_key_from_json_object J key store)) = last_fetch_time store"
  by (auto simp: add_key_eq split: option.split)

interpretation keys: emplacing verifiers "\<lambda>key store. snd (add_key_from_json_object J key store)" "key_entry J"
  by unfold_locales (auto simp: add_key_eq try_emplace_map split: option.split)

fun objects :: "json list \<Rightarrow> json_object list" where
  "objects (JObject obj # ary) = obj # objects ary"
| "objects _ = []"

lemma add_keys_store: "snd (add_keys J ary store) = fold (\<lambda>key st. snd (add_key_from_json_object J key st)) (objects ary) store"
  by (induction J ary store rule: add_keys.induct) auto

lemma add_keys_result: "fst (add_keys J ary store) = (if length (objects ary) = length ary then Inr () else Inl Runtime_error)"
  by (induction J ary store rule: add_keys.induct) auto

lemma add_keys_verifiers:
  "verifiers (snd (add_keys J ary store)) = map_of (List.map_filter (key_entry J) (objects ary)) ++ verifiers store"
  by (simp add: add_keys_store keys.lookup_fold)

lemma add_keys_fields [simp]:
  "src_url (snd (add_keys J ary store)) = src_url store"
  "backing_file (snd (add_keys J ary store)) = backing_file store"
  "last_fetch_time (snd (add_keys J ary store)) = last_fetch_time store"
  by (induction J ary store rule: add_keys.induct) auto

text \<open>The entries of a whole document; a document that is not understood has none.\<close>

definition document_entries :: "('alg, 'v, 'j) jwt_ops \<Rightarrow> json \<Rightarrow> (string \<times> 'v) list" where
  "document_entries J val =
     (case keys_of_document val of
        Inr (Some ary) \<Rightarrow> List.map_filter (key_entry J) (objects ary)
      | _ \<Rightarrow> [])"

lemma add_jwks_store:
  "snd (add_jwks_verifiers_from_string J parse s store) =
     (case keys_of_document (parse s) of Inr (Some ary) \<Rightarrow> snd (add_keys J ary store) | _ \<Rightarrow> store)"
  by (simp add: add_jwks_verifiers_from_string_def split: sum.split option.split prod.split)

lemma add_jwks_verifiers:
  "verifiers (snd (add_jwks_verifiers_from_string J parse s store)) =
     map_of (document_entries J (parse s)) ++ verifiers store"
  by (auto simp: add_jwks_store document_entries_def add_keys_verifiers split: sum.split option.split)

lemma add_jwks_fields [simp]:
  "src_url (snd (add_jwks_verifiers_from_string J parse s store)) = src_url store"
  "backing_file (snd (add_jwks_verifiers_from_string J parse s store)) = backing_file store"
  "last_fetch_time (snd (add_jwks_verifiers_from_string J parse s store)) = last_fetch_time store"
  by (auto simp: add_jwks_store split: sum.split option.split)

subsection \<open>Looking a verifier up\<close>

lemma hours_since_24: "24 \<le> hours_since d \<longleftrightarrow> 86400 * nanoseconds \<le> d"
  by (auto simp: hours_since_def nanoseconds_def)

definition stale :: "jwks_env \<Rightarrow> 'v JWKSStore \<Rightarrow> bool" where
  "stale env store \<longleftrightarrow> 86400 * nanoseconds \<le> now env - last_fetch_time store"

lemma find_verifier_known:
  "verifiers store kid = Some v \<Longrightarrow> find_verifier J parse env kid store = (Inr (Some v), store, [])"
  by (simp add: find_verifier_def)

lemma find_verifier_too_soon:
  "verifiers store kid = None \<Longrightarrow> \<not> stale env store \<Longrightarrow>
   find_verifier J parse env kid store = (Inr None, store, [])"
  by (simp add: find_verifier_def stale_def hours_since_24)

text \<open>The entries a refetch brings.\<close>

definition fetched :: "('alg, 'v, 'j) jwt_ops \<Rightarrow> (string \<Rightarrow> json) \<Rightarrow> jwks_env \<Rightarrow> 'v JWKSStore \<Rightarrow> (string \<times> 'v) list" where
  "fetched J parse env store =
     (case fetch_jwks_json env (src_url store) 0 of
        Inl e \<Rightarrow> [] | Inr (s, t) \<Rightarrow> document_entries J (parse s))"

lemma find_verifier_fetch:
  assumes "verifiers store kid = None" "stale env store" "fetch_jwks_json env (src_url store) 0 = Inr (s, t)"
  shows "find_verifier J parse env kid store =
    (let store' = snd (add_jwks_verifiers_from_string J parse s store);
         saved = (if backing_file store \<noteq> [] then [(backing_file store, s)] else [])
     in case fst (add_jwks_verifiers_from_string J parse s store) of
          Inl e \<Rightarrow> (Inl e, store', saved)
        | Inr _ \<Rightarrow> (Inr (verifiers store' kid), store'\<lparr>last_fetch_time := t * nanoseconds\<rparr>, saved))"
  using assms by (simp add: find_verifier_def stale_def hours_since_24 Let_def split_def split: sum.split)

lemma find_verifier_failed:
  "verifiers store kid = None \<Longrightarrow> stale env store \<Longrightarrow> fetch_jwks_json env (src_url store) 0 = Inl e \<Longrightarrow>
   find_verifier J parse env kid store = (Inl e, store, [])"
  by (simp add: find_verifier_def stale_def hours_since_24)

lemma find_verifier_store:
  assumes "find_verifier J parse env kid store = (r, store', saved)"
  shows "verifiers store' =
      (if verifiers store kid = None \<and> stale env store then map_of (fetched J parse env store) ++ verifiers store
       else verifiers store) \<and>
    src_url store' = src_url store \<and> backing_file store' = backing_file store \<and>
    (\<forall>res. r = Inr res \<longrightarrow> res = verifiers store' kid)"
proof (cases "verifiers store kid")
  case (Some v)
  then show ?thesis using assms by (auto simp: find_verifier_known)
next
  case None
  consider "\<not> stale env store" | e where "stale env store" "fetch_jwks_json env (src_url store) 0 = Inl e"
    | s t where "stale env store" "fetch_jwks_json env (src_url store) 0 = Inr (s, t)"
    by (cases "fetch_jwks_json env (src_url store) 0") auto
  then show ?thesis
  proof cases
    case 1
    then show ?thesis using assms None by (auto simp: find_verifier_too_soon)
  next
    case 2
    then show ?thesis using assms None by (auto simp: find_verifier_failed fetched_def)
  next
    case (3 s t)
    then show ?thesis
      using assms None
      by (auto simp: find_verifier_fetch [OF None 3] fetched_def Let_def add_jwks_verifiers split: sum.splits)
  qed
qed

lemma find_verifier_kept:
  assumes "find_verifier J parse env kid store = (r, store', saved)" "verifiers store k = Some v"
  shows "verifiers store' k = Some v"
  using find_verifier_store [OF assms(1)] assms(2) by auto

subsection \<open>The manager's states\<close>

lemma add_keys_new: "verifiers (snd (add_keys J ary store)) kid = Some v \<Longrightarrow>
    verifiers store kid = Some v \<or> (\<exists>key. key_entry J key = Some (kid, v))"
  using keys.lookup_origin [of J "objects ary" store kid v] by (auto simp: add_keys_store)

lemma find_verifier_new:
  assumes "find_verifier J parse env kid store = (r, store', saved)" "verifiers store' k = Some v"
  shows "verifiers store k = Some v \<or> (\<exists>key. key_entry J key = Some (k, v))"
proof -
  have "map_of (fetched J parse env store) k = Some v \<longrightarrow> (\<exists>key. key_entry J key = Some (k, v))"
    by (auto simp: fetched_def document_entries_def dest!: map_of_SomeD split: sum.splits option.splits)
      (auto simp: map_filter_def split: option.splits)
  then show ?thesis
    using find_verifier_store [OF assms(1)] assms(2) by (auto split: if_splits)
qed

lemma verify_jwt_known:
  assumes "stores issuer = Some store" "jwt_decode J s = Inr jwt" "get_key_id J jwt = Inr kid"
    and "find_verifier J parse env kid store = (r, store', saved)"
  shows "verify_jwt J parse env issuer s stores =
    (case r of
       Inl e \<Rightarrow> (Inl e, stores(issuer \<mapsto> store'), saved)
     | Inr None \<Rightarrow> (Inr False, stores(issuer \<mapsto> store'), saved)
     | Inr (Some v) \<Rightarrow>
         (case jwt_verify J v jwt (later_now env) of
            Inr _ \<Rightarrow> Inr True
          | Inl e \<Rightarrow> if std_exception e then Inr False else Inl e,
          stores(issuer \<mapsto> store'), saved))"
  using assms by (auto simp: verify_jwt_def find_store_def split: sum.split option.split)

lemma verify_jwt_store:
  assumes "verify_jwt J parse env issuer s stores = (r, stores', saved)"
  shows "stores' = stores \<and> r \<noteq> Inr True \<or>
    (\<exists>store jwt kid r' store'. stores issuer = Some store \<and> jwt_decode J s = Inr jwt \<and>
       get_key_id J jwt = Inr kid \<and> find_verifier J parse env kid store = (r', store', saved) \<and>
       stores' = stores(issuer \<mapsto> store') \<and>
       (r = Inr True \<longrightarrow> (\<exists>v. r' = Inr (Some v) \<and> jwt_verify J v jwt (later_now env) = Inr ())))"
proof (cases "\<exists>store jwt kid. stores issuer = Some store \<and> jwt_decode J s = Inr jwt \<and> get_key_id J jwt = Inr kid")
  case True
  then obtain store jwt kid where k: "stores issuer = Some store" "jwt_decode J s = Inr jwt"
    "get_key_id J jwt = Inr kid" by auto
  obtain r' store' saved' where f: "find_verifier J parse env kid store = (r', store', saved')"
    by (metis prod_cases3)
  have "(if std_exception e then Inr False else Inl e) \<noteq> (Inr True :: exn + bool)" for e by simp
  then show ?thesis
    using assms k f by (auto simp: verify_jwt_known [where stores = stores and issuer = issuer, OF k f] split: sum.splits option.splits)
next
  case False
  then show ?thesis
    using assms by (auto simp: verify_jwt_def find_store_def split: sum.splits option.splits)
qed

inductive manager_step :: "('alg, 'v, 'j) jwt_ops \<Rightarrow> (string \<Rightarrow> json) \<Rightarrow> 'v stores \<Rightarrow> 'v stores \<Rightarrow> bool"
  for J parse where
  init: "manager_step J parse stores (snd (init_store issuer url stores))"
| create: "manager_step J parse stores (snd (get_or_create_store issuer stores))"
| load: "manager_step J parse stores (snd (manager_add_jwks J parse time issuer url jwks stores))"
| verify: "manager_step J parse stores (fst (snd (verify_jwt J parse env issuer jwt stores)))"

inductive manager_reaches :: "('alg, 'v, 'j) jwt_ops \<Rightarrow> (string \<Rightarrow> json) \<Rightarrow> 'v stores \<Rightarrow> 'v stores \<Rightarrow> bool"
  for J parse stores where
  start: "manager_reaches J parse stores stores"
| step: "manager_reaches J parse stores s1 \<Longrightarrow> manager_step J parse s1 s2 \<Longrightarrow> manager_reaches J parse stores s2"

lemma init_store_get [simp]: "get_verifier i kid (snd (init_store issuer url stores)) = get_verifier i kid stores"
  by (auto simp: init_store_def get_verifier_def new_store_def Let_def split: option.split)

lemma create_store_get [simp]: "get_verifier i kid (snd (get_or_create_store issuer stores)) = get_verifier i kid stores"
  by (auto simp: get_or_create_store_def get_verifier_def try_emplace_def new_store_def split: option.split)

lemma manager_add_jwks_stores:
  "snd (manager_add_jwks J parse time issuer url jwks stores) =
     (case keys_of_document (parse jwks) of
        Inr (Some ary) \<Rightarrow>
          stores(issuer \<mapsto> snd (add_keys J ary
            (case stores issuer of
               None \<Rightarrow> new_store\<lparr>src_url := url, last_fetch_time := time\<rparr>
             | Some store \<Rightarrow> store)))
      | _ \<Rightarrow> stores)"
  by (simp add: manager_add_jwks_def find_store_def Let_def split: sum.split option.split prod.split)

lemma manager_add_jwks_get:
  "get_verifier i kid (snd (manager_add_jwks J parse time issuer url jwks stores)) =
     (case get_verifier i kid stores of
        Some v \<Rightarrow> Some v
      | None \<Rightarrow> if i = issuer then map_of (document_entries J (parse jwks)) kid else None)"
  by (auto simp: manager_add_jwks_stores get_verifier_def add_keys_verifiers document_entries_def new_store_def
      map_add_def split: sum.split option.split)

lemma step_kept:
  assumes "manager_step J parse stores stores'" "get_verifier i kid stores = Some v"
  shows "get_verifier i kid stores' = Some v"
  using assms(1)
proof (cases rule: manager_step.cases)
  case (verify env issuer jwt)
  obtain r stores1 saved where v: "verify_jwt J parse env issuer jwt stores = (r, stores1, saved)"
    by (metis prod_cases3)
  then show ?thesis
    using verify verify_jwt_store [OF v] assms(2) find_verifier_kept [of J parse env]
    by (auto simp: get_verifier_def split: option.splits if_splits)
qed (use assms(2) in \<open>auto simp: manager_add_jwks_get\<close>)

lemma step_new:
  assumes "manager_step J parse stores stores'" "get_verifier i kid stores' = Some v"
  shows "get_verifier i kid stores = Some v \<or> (\<exists>key. key_entry J key = Some (kid, v))"
  using assms(1)
proof (cases rule: manager_step.cases)
  case (load time issuer url jwks)
  have "\<exists>key. key_entry J key = Some (kid, v)" if "map_of (document_entries J (parse jwks)) kid = Some v"
    using that by (auto simp: document_entries_def map_filter_def dest!: map_of_SomeD split: sum.splits option.splits) blast
  then show ?thesis using load assms(2) by (auto simp: manager_add_jwks_get split: option.splits if_splits)
next
  case (verify env issuer jwt)
  obtain r stores1 saved where v: "verify_jwt J parse env issuer jwt stores = (r, stores1, saved)"
    by (metis prod_cases3)
  from verify_jwt_store [OF v] consider "stores1 = stores"
    | store kid' r' store' where "stores issuer = Some store" "stores1 = stores(issuer \<mapsto> store')"
      "find_verifier J parse env kid' store = (r', store', saved)"
    by blast
  then show ?thesis
  proof cases
    case (2 store kid' r' store')
    then show ?thesis
      using find_verifier_new [OF 2(3), of kid v] assms(2) verify(1) v
      by (auto simp: get_verifier_def split: if_splits)
  qed (use assms(2) verify(1) v in simp)
qed (use assms in \<open>auto\<close>)

lemma reaches_kept:
  "manager_reaches J parse s0 s1 \<Longrightarrow> get_verifier i kid s0 = Some v \<Longrightarrow> get_verifier i kid s1 = Some v"
  by (induction rule: manager_reaches.induct) (auto intro: step_kept)

lemma reaches_new:
  "manager_reaches J parse s0 s1 \<Longrightarrow> get_verifier i kid s1 = Some v \<Longrightarrow>
   get_verifier i kid s0 = Some v \<or> (\<exists>key. key_entry J key = Some (kid, v))"
  by (induction arbitrary: rule: manager_reaches.induct) (auto dest: step_new)

lemma verify_jwt_accepted:
  assumes "verify_jwt J parse env issuer s stores = (Inr True, stores', saved)"
  obtains jwt kid v where "jwt_decode J s = Inr jwt" "get_key_id J jwt = Inr kid"
    "get_verifier issuer kid stores' = Some v" "jwt_verify J v jwt (later_now env) = Inr ()"
proof -
  from verify_jwt_store [OF assms] obtain store jwt kid store' v where
    "jwt_decode J s = Inr jwt" "get_key_id J jwt = Inr kid" "stores' = stores(issuer \<mapsto> store')"
    "find_verifier J parse env kid store = (Inr (Some v), store', saved)" "jwt_verify J v jwt (later_now env) = Inr ()"
    by auto
  moreover from find_verifier_store [OF calculation(4)] have "get_verifier issuer kid stores' = Some v"
    using calculation(3) by (simp add: get_verifier_def)
  ultimately show ?thesis using that by blast
qed

lemma verify_jwt_step: "manager_step J parse stores stores'"
  if "verify_jwt J parse env issuer s stores = (r, stores', saved)"
  using manager_step.verify [of J parse stores env issuer s] that by simp

subsection \<open>Properties\<close>

text \<open>
  An instance of the JWT library for the examples: keys and tokens are texts, a token names its
  key by its first character and is accepted by the key it equals from the second on. A line break is
  no token character.
\<close>

definition toy_jwt :: "(string, string, string) jwt_ops" where
  "toy_jwt = \<lparr>create_public_key_from_rsa_components = (\<lambda>n e. Inr (n @ e)),
     create_public_key_from_ec_components = (\<lambda>crv x y. Inr (x @ y)), rs256 = Inr, es256 = Inr,
     default_verifier = [], allow_algorithm = (@), leeway = (\<lambda>v _. v),
     jwt_verify = (\<lambda>v j _. if tl j = v then Inr () else Inl Runtime_error),
     jwt_decode = (\<lambda>s. if s = [] \<or> CHR 0x0A \<in> set s then Inl Invalid_argument else Inr s), get_key_id = (\<lambda>j. Inr [hd j]),
     get_type = (\<lambda>j. Inr ''JWT''), get_algorithm = (\<lambda>j. Inr ''RS256''), get_issuer = (\<lambda>j. Inr ''i''),
     has_payload_claim = (\<lambda>_ _. False), get_audience = (\<lambda>_. Inl Out_of_range),
     get_issued_at = (\<lambda>_. Inr 0), get_expires_at = (\<lambda>_. Inr 0),
     get_payload_json = (\<lambda>j. [(''email'', JString j), (''name'', JString j)]), get_header_json = (\<lambda>_. [])\<rparr>"

definition toy_key :: json_object where
  "toy_key = [(''kid'', JString ''a''), (''kty'', JString ''RSA''), (''n'', JString ''x''), (''e'', JString ''y'')]"

definition toy_document :: json where
  "toy_document = JObject [(''keys'', JArray [JObject toy_key])]"

definition toy_env :: jwks_env where
  "toy_env = \<lparr>now = 90000 * nanoseconds, later_now = 90000 * nanoseconds + 1, open_file = (\<lambda>_. None), st_mtime = (\<lambda>_. None), curl_easy_init = True,
     curl_perform = (\<lambda>_. (0, [''{}''], 200))\<rparr>"

lemma toy_key_entry: "key_entry toy_jwt toy_key = Some (''a'', ''xy'')"
  by (simp add: key_entry_def toy_key_def rsa_algorithm_def at_def toy_jwt_def make_verifier_def)

lemma toy_loaded:
  "snd (manager_add_jwks toy_jwt (\<lambda>_. toy_document) 5 ''m'' ''https://h'' ''{}'' Map.empty) =
     [''m'' \<mapsto> \<lparr>src_url = ''https://h'', backing_file = [], last_fetch_time = 5, verifiers = [''a'' \<mapsto> ''xy'']\<rparr>]"
  using toy_key_entry
  by (simp add: manager_add_jwks_stores keys_of_document_def toy_document_def new_store_def add_key_eq try_emplace_def)

lemma toy_reached:
  "manager_reaches toy_jwt (\<lambda>_. toy_document) Map.empty
     [''m'' \<mapsto> \<lparr>src_url = ''https://h'', backing_file = [], last_fetch_time = 5, verifiers = [''a'' \<mapsto> ''xy'']\<rparr>]"
  using manager_reaches.step [OF manager_reaches.start manager_step.load
      [of toy_jwt "\<lambda>_. toy_document" Map.empty 5 "''m''" "''https://h''" "''{}''"]]
  by (simp add: toy_loaded)

text \<open>
  Loading a JWKS document adds, to the store of the issuer alone, the verifiers of exactly
  its complete RSA and P-256 keys up to the first entry that is no object, and never replaces
  a verifier: a key id keeps the first one it got.
\<close>

theorem manager_add_jwks_first_wins:
  "get_verifier i kid (snd (manager_add_jwks J parse time issuer url jwks stores)) =
     (case get_verifier i kid stores of
        Some v \<Rightarrow> Some v
      | None \<Rightarrow> if i = issuer then map_of (document_entries J (parse jwks)) kid else None)"
  by (rule manager_add_jwks_get)

text \<open>
  C11. Keys are pinned: over any sequence of creating stores, loading documents and verifying
  tokens (which may refetch documents), a key id of an issuer keeps its verifier.
\<close>

theorem keys_pinned:
  assumes "manager_reaches J parse s0 s1" "get_verifier issuer kid s0 = Some v"
  shows "get_verifier issuer kid s1 = Some v"
  using assms by (rule reaches_kept)

theorem keys_pinned_witness:
  "get_verifier ''m'' ''a'' (fst (snd (verify_jwt toy_jwt (\<lambda>_. toy_document) toy_env ''m'' ''bxy''
     [''m'' \<mapsto> \<lparr>src_url = ''https://h'', backing_file = [], last_fetch_time = 5, verifiers = [''a'' \<mapsto> ''xy'']\<rparr>]))) =
   Some ''xy''"
  by (rule keys_pinned [OF manager_reaches.step [OF manager_reaches.start manager_step.verify]])
    (simp add: get_verifier_def)

text \<open>
  C10. What an accepted token proves: starting from an empty manager, \<^verbatim>\<open>verify_jwt\<close> returns
  true only if the token decodes, names a key id, and the verifier built from the material of
  a complete JWK of that very id accepts it now.
\<close>

theorem accepted_token_has_key:
  assumes "manager_reaches J parse Map.empty stores"
    and "verify_jwt J parse env issuer token stores = (Inr True, stores', saved)"
  shows "\<exists>jwt kid key v. jwt_decode J token = Inr jwt \<and> get_key_id J jwt = Inr kid \<and>
    key_entry J key = Some (kid, v) \<and> jwt_verify J v jwt (later_now env) = Inr ()"
proof -
  from verify_jwt_accepted [OF assms(2)] obtain jwt kid v where
    v: "jwt_decode J token = Inr jwt" "get_key_id J jwt = Inr kid" "jwt_verify J v jwt (later_now env) = Inr ()"
      "get_verifier issuer kid stores' = Some v"
    by blast
  moreover from reaches_new [OF manager_reaches.step [OF assms(1) verify_jwt_step [OF assms(2)]] v(4)]
  have "\<exists>key. key_entry J key = Some (kid, v)" by (simp add: get_verifier_def)
  ultimately show ?thesis by blast
qed

theorem accepted_token_has_key_witness:
  "\<exists>jwt kid key v. jwt_decode toy_jwt ''axy'' = Inr jwt \<and> get_key_id toy_jwt jwt = Inr kid \<and>
    key_entry toy_jwt key = Some (kid, v) \<and> jwt_verify toy_jwt v jwt (later_now toy_env) = Inr ()"
proof -
  have "verify_jwt toy_jwt (\<lambda>_. toy_document) toy_env ''m'' ''axy''
      [''m'' \<mapsto> \<lparr>src_url = ''https://h'', backing_file = [], last_fetch_time = 5, verifiers = [''a'' \<mapsto> ''xy'']\<rparr>] =
    (Inr True, [''m'' \<mapsto> \<lparr>src_url = ''https://h'', backing_file = [], last_fetch_time = 5,
       verifiers = [''a'' \<mapsto> ''xy'']\<rparr>], [])"
    by (simp add: verify_jwt_def find_store_def toy_jwt_def find_verifier_def)
  then show ?thesis by (rule accepted_token_has_key [OF toy_reached])
qed

text \<open>
  A known key id, or an unknown one within 24 hours of the last fetch, is answered from the
  store: nothing is fetched or written and the store is unchanged.
\<close>

theorem find_verifier_no_fetch:
  assumes "verifiers store kid \<noteq> None \<or> now env - last_fetch_time store < 24 * 60 * 60 * nanoseconds"
  shows "find_verifier J parse env kid store = (Inr (verifiers store kid), store, [])"
  using assms find_verifier_known [of store kid] find_verifier_too_soon [of store kid env J parse]
  by (cases "verifiers store kid") (auto simp: stale_def)

theorem find_verifier_no_fetch_witness:
  "find_verifier toy_jwt (\<lambda>_. toy_document) (toy_env\<lparr>curl_easy_init := False\<rparr>) ''zz''
     (new_store\<lparr>last_fetch_time := 80000 * nanoseconds\<rparr>) =
   (Inr None, new_store\<lparr>last_fetch_time := 80000 * nanoseconds\<rparr>, [])"
  using find_verifier_no_fetch [of "new_store\<lparr>last_fetch_time := 80000 * nanoseconds\<rparr>" "''zz''"
      "toy_env\<lparr>curl_easy_init := False\<rparr>" toy_jwt "\<lambda>_. toy_document"]
  by (simp add: new_store_def toy_env_def nanoseconds_def)

text \<open>
  C32. The 24-hour limit does not hold for documents fetched over HTTP: a refetch leaves the
  time of the last fetch at the epoch, so the next unknown key id goes to the network again
  at once (seen here by curl failing to start, which makes the lookup throw).
\<close>

theorem http_refetch_not_limited:
  assumes "find_verifier J parse env kid store = (Inr None, store', saved)"
    and "24 * 60 * 60 * nanoseconds \<le> now env - last_fetch_time store"
    and "hd (src_url store) \<notin> {CHR ''.'', CHR ''/''}"
    and "24 * 60 * 60 * nanoseconds \<le> now env'" "\<not> curl_easy_init env'"
  shows "last_fetch_time store' = 0 \<and> find_verifier J parse env' kid store' = (Inl Runtime_error, store', [])"
proof -
  have unknown: "verifiers store' kid = None" "src_url store' = src_url store"
    using find_verifier_store [OF assms(1)] by metis+
  have none: "verifiers store kid = None" and stale: "stale env store"
    using assms(1,2) find_verifier_known [of store kid _ J parse env]
    by (cases "verifiers store kid"; simp add: stale_def)+
  obtain s t where f: "fetch_jwks_json env (src_url store) 0 = Inr (s, t)"
    using assms(1) find_verifier_failed [OF none stale, of _ J parse]
    by (cases "fetch_jwks_json env (src_url store) 0") auto
  then have u: "src_url store \<noteq> []" "t = 0"
    using assms(3) by (auto simp: fetch_jwks_json_def Let_def split: if_splits prod.splits)
  then have "last_fetch_time store' = 0"
    using assms(1) by (auto simp: find_verifier_fetch [OF none stale f] Let_def split: sum.splits)
  moreover from this have "stale env' store'" using assms(4) by (simp add: stale_def)
  moreover have "fetch_jwks_json env' (src_url store') 0 = Inl Runtime_error"
    using assms(3,5) u unknown(2) by (simp add: fetch_jwks_json_def)
  ultimately show ?thesis using find_verifier_failed unknown(1) by blast
qed

theorem http_refetch_not_limited_witness:
  "\<exists>store' saved. find_verifier toy_jwt (\<lambda>_. toy_document) toy_env ''zz'' (new_store\<lparr>src_url := ''https://h''\<rparr>) =
      (Inr None, store', saved) \<and> last_fetch_time store' = 0 \<and>
    find_verifier toy_jwt (\<lambda>_. toy_document) (toy_env\<lparr>curl_easy_init := False\<rparr>) ''zz'' store' =
      (Inl Runtime_error, store', [])"
proof -
  let ?s = "\<lparr>src_url = ''https://h'', backing_file = [], last_fetch_time = 0, verifiers = [''a'' \<mapsto> ''xy'']\<rparr>"
  have "find_verifier toy_jwt (\<lambda>_. toy_document) toy_env ''zz'' (new_store\<lparr>src_url := ''https://h''\<rparr>) = (Inr None, ?s, [])"
    using toy_key_entry
    by (simp add: find_verifier_def new_store_def hours_since_24 toy_env_def nanoseconds_def fetch_jwks_json_def
        curl_write_callback_def add_jwks_verifiers_from_string_def keys_of_document_def toy_document_def
        add_key_eq try_emplace_def)
  moreover from http_refetch_not_limited [OF this, of "toy_env\<lparr>curl_easy_init := False\<rparr>"] have
    "last_fetch_time ?s = 0 \<and> find_verifier toy_jwt (\<lambda>_. toy_document) (toy_env\<lparr>curl_easy_init := False\<rparr>) ''zz'' ?s =
      (Inl Runtime_error, ?s, [])"
    by (simp add: new_store_def toy_env_def nanoseconds_def)
  ultimately show ?thesis by blast
qed

end
