(* ===== verification/Jwks_book.thy ===== *)
theory Jwks_book
  imports Jwks_store
begin

section \<open>The key stores as a book of keys\<close>

text \<open>
  What the manager of \<^verbatim>\<open>JWKSVerifierStore.cpp\<close> promises, without files, addresses and fetch times: a book
  gives some key ids of an issuer a verifier, it learns one complete JWK at a time and forgets nothing, and the
  verdict on a token is read off the book. Every operation of the manager is shown to follow it.
\<close>

subsection \<open>The book\<close>

type_synonym 'v key_book = "string \<Rightarrow> string \<rightharpoonup> 'v"

definition book_of :: "'v stores \<Rightarrow> 'v key_book" where
  "book_of stores = (\<lambda>issuer kid. get_verifier issuer kid stores)"

inductive learns :: "('alg, 'v, 'j) jwt_ops \<Rightarrow> 'v key_book \<Rightarrow> 'v key_book \<Rightarrow> bool" for J b where
  same: "learns J b b"
| learn: "learns J b b1 \<Longrightarrow> key_entry J key = Some (kid, v) \<Longrightarrow> b1 issuer kid = None \<Longrightarrow>
    learns J b (b1(issuer := (b1 issuer)(kid \<mapsto> v)))"

definition verdict :: "('alg, 'v, 'j) jwt_ops \<Rightarrow> int \<Rightarrow> 'v key_book \<Rightarrow> string \<Rightarrow> string \<Rightarrow> bool" where
  "verdict J time b issuer s =
     (case jwt_decode J s of
        Inl e \<Rightarrow> False
      | Inr jwt \<Rightarrow>
          (case get_key_id J jwt of
             Inl e \<Rightarrow> False
           | Inr kid \<Rightarrow> (case b issuer kid of None \<Rightarrow> False | Some v \<Rightarrow> jwt_verify J v jwt time = Inr ())))"

lemma learns_trans: "learns J b1 b2 \<Longrightarrow> learns J b2 b3 \<Longrightarrow> learns J b1 b3"
  by (rotate_tac, induction rule: learns.induct) (auto intro: learns.learn)

lemma learns_keeps: "learns J b b' \<Longrightarrow> b issuer kid = Some v \<Longrightarrow> b' issuer kid = Some v"
  by (induction rule: learns.induct) auto

lemma learns_entries:
  assumes "\<And>kid v. (kid, v) \<in> set es \<Longrightarrow> \<exists>key. key_entry J key = Some (kid, v)"
  shows "learns J b (b(issuer := map_of es ++ b issuer))"
  using assms
proof (induction es rule: rev_induct)
  case Nil
  show ?case by (simp add: learns.same)
next
  case (snoc e es)
  obtain kid v where e: "e = (kid, v)" by fastforce
  let ?b = "b(issuer := map_of es ++ b issuer)" and ?b' = "b(issuer := map_of (es @ [e]) ++ b issuer)"
  have ih: "learns J b ?b" using snoc.prems by (intro snoc.IH) simp
  show ?case
  proof (cases "?b issuer kid = None")
    case True
    then have "?b' = ?b(issuer := (?b issuer)(kid \<mapsto> v))"
      by (auto simp: e fun_eq_iff map_add_def split: option.splits)
    moreover obtain key where "key_entry J key = Some (kid, v)" using snoc.prems e by auto
    ultimately show ?thesis using learns.learn [OF ih _ True] by metis
  next
    case False
    then have "?b' = ?b" by (auto simp: e fun_eq_iff map_add_def split: option.splits)
    with ih show ?thesis by (simp only:)
  qed
qed

subsection \<open>The manager follows the book\<close>

lemma book_of_update [simp]: "book_of (stores(issuer \<mapsto> store)) = (book_of stores)(issuer := verifiers store)"
  by (rule ext)+ (simp add: book_of_def get_verifier_def)

lemma book_of_empty [simp]: "book_of Map.empty = (\<lambda>_. Map.empty)"
  by (rule ext)+ (simp add: book_of_def get_verifier_def)

lemma book_of_store: "stores issuer = Some store \<Longrightarrow> book_of stores issuer = verifiers store"
  by (rule ext) (simp add: book_of_def get_verifier_def)

lemma book_of_no_store: "stores issuer = None \<Longrightarrow> book_of stores issuer = Map.empty"
  by (rule ext) (simp add: book_of_def get_verifier_def)

lemma document_entries_key:
  "(kid, v) \<in> set (document_entries J doc) \<Longrightarrow> \<exists>key. key_entry J key = Some (kid, v)"
  by (auto simp: document_entries_def map_filter_def split: sum.splits option.splits)

lemma fetched_key: "(kid, v) \<in> set (fetched J parse env store) \<Longrightarrow> \<exists>key. key_entry J key = Some (kid, v)"
  using document_entries_key by (fastforce simp: fetched_def split: sum.splits)

lemma find_verifier_learns:
  assumes "find_verifier J parse env kid store = (r, store', saved)" "stores issuer = Some store"
  shows "learns J (book_of stores) (book_of (stores(issuer \<mapsto> store')))"
proof (cases "verifiers store kid = None \<and> stale env store")
  case True
  with find_verifier_store [OF assms(1)] have "verifiers store' = map_of (fetched J parse env store) ++ book_of stores issuer"
    using book_of_store [of stores issuer, OF assms(2)] by simp
  then show ?thesis using learns_entries [of "fetched J parse env store" J "book_of stores" issuer] fetched_key by fastforce
next
  case False
  with find_verifier_store [OF assms(1)] have "verifiers store' = book_of stores issuer"
    using book_of_store [of stores issuer, OF assms(2)] by auto
  then show ?thesis by (simp add: learns.same)
qed

text \<open>What verification does to the stores: nothing, or what looking up the token's key does.\<close>

lemma verify_jwt_lookup:
  assumes "verify_jwt J parse env issuer s stores = (r, stores', saved)"
  obtains (unknown) "stores' = stores" "r = Inr False" "stores issuer = None"
  | (unread) e where "stores' = stores" "r = Inl e"
  | (looked_up) store jwt kid r' store' where "stores issuer = Some store" "jwt_decode J s = Inr jwt"
      "get_key_id J jwt = Inr kid" "find_verifier J parse env kid store = (r', store', saved)"
      "stores' = stores(issuer \<mapsto> store')"
      "\<And>b. r = Inr b \<Longrightarrow> b \<longleftrightarrow> (\<exists>v. r' = Inr (Some v) \<and> jwt_verify J v jwt (later_now env) = Inr ())"
proof (cases "\<exists>store jwt kid. stores issuer = Some store \<and> jwt_decode J s = Inr jwt \<and> get_key_id J jwt = Inr kid")
  case True
  then obtain store jwt kid where k: "stores issuer = Some store" "jwt_decode J s = Inr jwt" "get_key_id J jwt = Inr kid"
    by auto
  obtain r' store' saved' where f: "find_verifier J parse env kid store = (r', store', saved')" by (metis prod_cases3)
  note v = assms [unfolded verify_jwt_known [where stores = stores and issuer = issuer, OF k f]]
  have "saved' = saved \<and> stores' = stores(issuer \<mapsto> store')" using v by (simp split: sum.splits option.splits)
  moreover have "b \<longleftrightarrow> (\<exists>v. r' = Inr (Some v) \<and> jwt_verify J v jwt (later_now env) = Inr ())" if "r = Inr b" for b
    using v that by (simp split: sum.splits option.splits if_splits)
  ultimately show ?thesis using k f looked_up by blast
next
  case False
  then have "stores' = stores \<and> (r = Inr False \<and> stores issuer = None \<or> (\<exists>e. r = Inl e))"
    using assms by (auto simp: verify_jwt_def find_store_def split: sum.splits option.splits)
  then show ?thesis by (elim conjE disjE exE) (rule unknown unread; assumption)+
qed

lemma verify_jwt_learns:
  assumes "verify_jwt J parse env issuer s stores = (r, stores', saved)"
  shows "learns J (book_of stores) (book_of stores')"
  using assms
proof (cases rule: verify_jwt_lookup)
  case (looked_up store jwt kid r' store')
  from find_verifier_learns [where stores = stores and issuer = issuer, OF looked_up(4,1)] show ?thesis unfolding looked_up(5) .
qed (simp_all add: learns.same)

lemma verify_jwt_verdict:
  assumes "verify_jwt J parse env issuer s stores = (Inr b, stores', saved)"
  shows "b \<longleftrightarrow> verdict J (later_now env) (book_of stores') issuer s"
  using assms
proof (cases rule: verify_jwt_lookup)
  case (looked_up store jwt kid r' store')
  show ?thesis
  proof (cases r')
    case (Inl e)
    then show ?thesis using assms looked_up(1-4) by (simp add: verify_jwt_def find_store_def)
  next
    case (Inr res)
    with find_verifier_store [OF looked_up(4)] have "res = verifiers store' kid" by simp
    with Inr looked_up(2,3,5,6) show ?thesis by (auto simp: verdict_def split: option.split)
  qed
qed (auto simp: verdict_def book_of_no_store split: sum.split)

inductive_cases manager_stepE: "manager_step J parse stores stores'"

lemma step_learns: "manager_step J parse stores stores' \<Longrightarrow> learns J (book_of stores) (book_of stores')"
proof (elim manager_stepE, goal_cases)
  case (3 time issuer url jwks)
  have "book_of stores' = (book_of stores)(issuer := map_of (document_entries J (parse jwks)) ++ book_of stores issuer)"
    by (rule ext)+ (auto simp: 3 book_of_def manager_add_jwks_get map_add_def split: option.split)
  then show ?case using learns_entries [of "document_entries J (parse jwks)"] document_entries_key by fastforce
next
  case (4 env issuer jwt)
  then show ?case by (metis verify_jwt_learns prod.collapse)
qed (simp_all add: book_of_def learns.same)

lemma reaches_learns: "manager_reaches J parse s0 s1 \<Longrightarrow> learns J (book_of s0) (book_of s1)"
  by (induction rule: manager_reaches.induct) (auto intro: learns.same learns_trans step_learns)

subsection \<open>Properties\<close>

text \<open>
  C9. The manager refines the book: whatever operations it has been through since it was empty, its
  stores are a book that learned every entry from a complete JWK of that key id and forgot none; verifying a
  token lets the book learn, by a refetch, and when it returns, the result is the verdict of the new
  book on the token, both ways.
\<close>

theorem manager_refines_key_book:
  assumes "manager_reaches J parse Map.empty stores"
    and "verify_jwt J parse env issuer s stores = (r, stores', saved)"
  shows "learns J (\<lambda>_. Map.empty) (book_of stores) \<and> learns J (book_of stores) (book_of stores') \<and>
    (\<forall>b. r = Inr b \<longrightarrow> (b \<longleftrightarrow> verdict J (later_now env) (book_of stores') issuer s))"
proof -
  from reaches_learns [OF assms(1)] have "learns J (\<lambda>_. Map.empty) (book_of stores)" by simp
  moreover have "b \<longleftrightarrow> verdict J (later_now env) (book_of stores') issuer s" if "r = Inr b" for b
    using verify_jwt_verdict assms(2) that by simp
  ultimately show ?thesis using verify_jwt_learns [OF assms(2)] by blast
qed

theorem manager_refines_key_book_witness:
  "\<exists>stores'. learns toy_jwt (\<lambda>_. Map.empty) (book_of stores') \<and>
    verdict toy_jwt (later_now toy_env) (book_of stores') ''m'' ''axy'' \<and> \<not> verdict toy_jwt (later_now toy_env) (book_of stores') ''m'' ''axz''"
proof -
  let ?store = "\<lparr>src_url = ''https://h'', backing_file = [], last_fetch_time = 5, verifiers = [''a'' \<mapsto> ''xy'']\<rparr>"
  have f: "find_verifier toy_jwt (\<lambda>_. toy_document) toy_env ''a'' ?store = (Inr (Some ''xy''), ?store, [])"
    by (simp add: find_verifier_known)
  have "verify_jwt toy_jwt (\<lambda>_. toy_document) toy_env ''m'' ''axy'' [''m'' \<mapsto> ?store] = (Inr True, [''m'' \<mapsto> ?store], [])"
    "verify_jwt toy_jwt (\<lambda>_. toy_document) toy_env ''m'' ''axz'' [''m'' \<mapsto> ?store] = (Inr False, [''m'' \<mapsto> ?store], [])"
    using f by (simp_all add: verify_jwt_def find_store_def toy_jwt_def std_exception_def)
  from this [THEN manager_refines_key_book [OF toy_reached]] show ?thesis by blast
qed

end
