(* ===== verification/Jwksverifier_tests.thy ===== *)
theory Jwksverifier_tests
  imports Jwks_book
begin

section \<open>The repository's own test of the key stores\<close>

text \<open>
  \<^verbatim>\<open>testsrc/jwksverifier_tests.cpp\<close> on the model: it loads a document for the issuer \<^verbatim>\<open>microsoft\<close> and then asks
  for a key of the issuer its token names.
\<close>

definition test_jwt :: string where
  "test_jwt =
     ''eyJhbGciOiJFUzI1NiIsImtpZCI6IiIsInR5cCI6IkpXVCJ9.eyJlbWFpbCI6ImNvbXB1dGVyLnVzZXJAZXhhbXBsZS5jb20iLCJ'' @
     ''leHAiOjE3NDQ5NjQ3MzQsImlhdCI6MTc0NDg3ODMzNCwiaXNzIjoiaHR0cHM6Ly9leGFtcGxlLmNvbSIsImp0aSI6IlVSbVBTN2J'' @
     ''LaUFzOUZSS2JRdnNmd01PY0VFVEpPb2dTIiwibmFtZSI6IkNvbXB1dGVyIFVzZXIiLCJzY29wZSI6Im9wZW5pZCBwcm9maWxlIGV'' @
     ''tYWlsIiwic3ViIjoiY29tcHV0ZXIudXNlckBleGFtcGxlLmNvbSIsIndlYnNpdGUiOiJodHRwczovL2V4YW1wbGUuY29tLyJ9.ah'' @
     ''iXY5-KzSfAiqNeQ80DYL0q_NqEXUYeAl3qWhMgrpLrUbS90YSWBkxcbm2Qiw5iTcBuWkOXF1rnkuls9F4fLw''"

text \<open>
  The exit status. The claims that are only printed are read in the order of the source; what the
  verification throws is printed when it is a \<^verbatim>\<open>std::exception\<close>.
\<close>

definition jwksverifier_tests_main ::
  "('alg, 'v, 'j) jwt_ops \<Rightarrow> (string \<Rightarrow> json) \<Rightarrow> jwks_env \<Rightarrow> exn + int" where
  "jwksverifier_tests_main J parse env =
     bindE (fetch_jwks_json env ''./testdata/ec256-private.jwks.json'' 0) (\<lambda>(jwks_json, _).
       case manager_add_jwks J parse (now env) ''microsoft'' ''./testdata/ec256-private.jwks.json'' jwks_json Map.empty of
         (Inl e, stores) \<Rightarrow> Inl e
       | (Inr _, stores) \<Rightarrow>
           bindE (jwt_decode J test_jwt) (\<lambda>decoded_jwt.
           bindE (get_issuer J decoded_jwt) (\<lambda>issuer.
           bindE (get_key_id J decoded_jwt) (\<lambda>kid.
           bindE (get_issued_at J decoded_jwt) (\<lambda>issued_at.
           case get_verifier issuer ''947a627d87183f94388b39d71db6601679995a1f'' stores of
             None \<Rightarrow> Inr 127
           | Some verifier \<Rightarrow>
               (case jwt_verify J verifier decoded_jwt (later_now env) of
                  Inl e \<Rightarrow> if std_exception e then Inr 0 else Inl e
                | Inr _ \<Rightarrow> Inr 0))))))"

lemma loaded_for_issuer:
  "manager_add_jwks J parse time issuer url jwks Map.empty = (r, stores) \<Longrightarrow> i \<noteq> issuer \<Longrightarrow> get_verifier i kid stores = None"
  using manager_add_jwks_get [of i kid J parse time issuer url jwks Map.empty] by (simp add: get_verifier_def)

text \<open>So the test never verifies its token, unless \<^verbatim>\<open>microsoft\<close> is the issuer the token names.\<close>

lemma test_finds_no_verifier:
  assumes "jwksverifier_tests_main J parse env = Inr n" "jwt_decode J test_jwt = Inr jwt" "get_issuer J jwt = Inr issuer"
    and "issuer \<noteq> ''microsoft''"
  shows "n = 127"
proof -
  obtain jwks t where f: "fetch_jwks_json env ''./testdata/ec256-private.jwks.json'' 0 = Inr (jwks, t)"
    using assms(1) by (auto simp: jwksverifier_tests_main_def bindE_Inr_iff)
  obtain r stores where m: "manager_add_jwks J parse (now env) ''microsoft'' ''./testdata/ec256-private.jwks.json'' jwks Map.empty =
      (r, stores)"
    by fastforce
  show ?thesis
    using assms(1-3) f m loaded_for_issuer [OF m assms(4)]
    by (cases r) (auto simp: jwksverifier_tests_main_def bindE_Inr_iff)
qed

end
