(* ===== verification/Libgreen.thy ===== *)
theory Libgreen
  imports Prelude
begin

section \<open>The support library the program is linked with\<close>

text \<open>
  The sources call \<^verbatim>\<open>libgreen\<close> (\<^verbatim>\<open>dynstring.h\<close>, \<^verbatim>\<open>querystring.h\<close>,
  \<^verbatim>\<open>simplemap.h\<close>, \<^verbatim>\<open>mimedecoder.h\<close>), which is not part of the repository. Each
  of its interfaces is a record of operations that the definitions of the client components take
  as an argument. What a client relies on is a predicate on that record, the hypothesis
  of the theorems that need it, and each predicate comes with a concrete record that satisfies it.
\<close>

subsection \<open>Growing strings (\<^verbatim>\<open>dynstring.h\<close>)\<close>

text \<open>
  \<open>ds_bytes\<close> reads the first \<^verbatim>\<open>pos\<close> bytes of \<^verbatim>\<open>buf\<close>. The operations that may
  fail to allocate return their result code first. \<open>ds_detached\<close> is the dynstring that
  \<^verbatim>\<open>dynstring_detachcstring\<close> leaves, and \<open>ds_allocated\<close> whether its \<^verbatim>\<open>buf\<close> is non-null.
\<close>

record 'd dynstring_ops =
  ds_default :: 'd
  ds_initialise :: "nat \<Rightarrow> int \<times> 'd"
  ds_appendchar :: "'d \<Rightarrow> char \<Rightarrow> 'd"
  ds_appendstring :: "'d \<Rightarrow> char list \<Rightarrow> 'd"
  ds_appendstringz :: "'d \<Rightarrow> string list \<Rightarrow> int \<times> 'd"
  ds_empty :: "'d \<Rightarrow> 'd"
  ds_bytes :: "'d \<Rightarrow> char list"
  ds_detachcstring :: "'d \<Rightarrow> string"
  ds_getcstring :: "'d \<Rightarrow> string"
  ds_initialisezero :: 'd
  ds_detached :: "'d \<Rightarrow> 'd"
  ds_allocated :: "'d \<Rightarrow> bool"
  ds_htmlspecial_encode_appendz :: "'d \<Rightarrow> string \<Rightarrow> 'd"
  ds_url_encode_appendz :: "'d \<Rightarrow> string \<Rightarrow> 'd"

text \<open>
  The documented effect of the operations while memory lasts: appending appends, the C strings
  are the content up to its first NUL, and 0 is the code of success. What the two encoders append
  is left to the functions \<open>html\<close> and \<open>url\<close>.
\<close>

definition dynstring_laws :: "'d dynstring_ops \<Rightarrow> bool" where
  "dynstring_laws D \<longleftrightarrow>
     ds_bytes D (ds_default D) = [] \<and>
     (\<forall>n. fst (ds_initialise D n) = 0 \<and> ds_bytes D (snd (ds_initialise D n)) = []) \<and>
     (\<forall>d c. ds_bytes D (ds_appendchar D d c) = ds_bytes D d @ [c]) \<and>
     (\<forall>d s. ds_bytes D (ds_appendstring D d s) = ds_bytes D d @ s) \<and>
     (\<forall>d ss. fst (ds_appendstringz D d ss) = 0 \<and>
        ds_bytes D (snd (ds_appendstringz D d ss)) = ds_bytes D d @ concat ss) \<and>
     (\<forall>d. ds_bytes D (ds_empty D d) = []) \<and>
     (\<forall>d. ds_detachcstring D d = cstr (ds_bytes D d)) \<and>
     (\<forall>d. ds_getcstring D d = cstr (ds_bytes D d)) \<and>
     \<not> ds_allocated D (ds_initialisezero D) \<and> (\<forall>d. \<not> ds_allocated D (ds_detached D d))"

lemma dynstring_lawsD:
  assumes "dynstring_laws D"
  shows "ds_bytes D (ds_default D) = []"
    "fst (ds_initialise D n) = 0" "ds_bytes D (snd (ds_initialise D n)) = []"
    "ds_bytes D (ds_appendchar D d c) = ds_bytes D d @ [c]"
    "ds_bytes D (ds_appendstring D d s) = ds_bytes D d @ s"
    "fst (ds_appendstringz D d ss) = 0"
    "ds_bytes D (snd (ds_appendstringz D d ss)) = ds_bytes D d @ concat ss"
    "ds_bytes D (ds_empty D d) = []"
    "ds_detachcstring D d = cstr (ds_bytes D d)"
    "ds_getcstring D d = cstr (ds_bytes D d)"
    "\<not> ds_allocated D (ds_initialisezero D)" "\<not> ds_allocated D (ds_detached D d)"
  using assms by (simp_all add: dynstring_laws_def)

definition encoder_laws :: "'d dynstring_ops \<Rightarrow> (string \<Rightarrow> string) \<Rightarrow> (string \<Rightarrow> string) \<Rightarrow> bool" where
  "encoder_laws D html url \<longleftrightarrow>
     (\<forall>d s. ds_bytes D (ds_htmlspecial_encode_appendz D d s) = ds_bytes D d @ html s) \<and>
     (\<forall>d s. ds_bytes D (ds_url_encode_appendz D d s) = ds_bytes D d @ url s)"

lemma encoder_lawsD:
  assumes "encoder_laws D html url"
  shows "ds_bytes D (ds_htmlspecial_encode_appendz D d s) = ds_bytes D d @ html s"
    "ds_bytes D (ds_url_encode_appendz D d s) = ds_bytes D d @ url s"
  using assms by (simp_all add: encoder_laws_def)

text \<open>
  The plain instance, over any pair of encoders: a buffer that may be absent. In the examples the one
  encoder changes nothing and the other drops line breaks.
\<close>

definition buffer_text :: "string option \<Rightarrow> string" where
  "buffer_text d = (case d of None \<Rightarrow> [] | Some s \<Rightarrow> s)"

definition list_dynstring_enc :: "(string \<Rightarrow> string) \<Rightarrow> (string \<Rightarrow> string) \<Rightarrow> string option dynstring_ops" where
  "list_dynstring_enc html url = \<lparr>ds_default = None, ds_initialise = (\<lambda>_. (0, Some [])),
     ds_appendchar = (\<lambda>d c. Some (buffer_text d @ [c])), ds_appendstring = (\<lambda>d s. Some (buffer_text d @ s)),
     ds_appendstringz = (\<lambda>d ss. (0, Some (buffer_text d @ concat ss))),
     ds_empty = (\<lambda>_. Some []), ds_bytes = buffer_text, ds_detachcstring = (\<lambda>d. cstr (buffer_text d)),
     ds_getcstring = (\<lambda>d. cstr (buffer_text d)), ds_initialisezero = None, ds_detached = (\<lambda>_. None),
     ds_allocated = (\<lambda>d. d \<noteq> None),
     ds_htmlspecial_encode_appendz = (\<lambda>d s. Some (buffer_text d @ html s)),
     ds_url_encode_appendz = (\<lambda>d s. Some (buffer_text d @ url s))\<rparr>"

definition list_dynstring :: "string option dynstring_ops" where
  "list_dynstring = list_dynstring_enc (\<lambda>s. s) (filter (\<lambda>c. c \<noteq> LF))"

lemma list_dynstring_enc_laws [simp, intro]:
  "dynstring_laws (list_dynstring_enc html url)" "encoder_laws (list_dynstring_enc html url) html url"
  by (simp_all add: dynstring_laws_def encoder_laws_def list_dynstring_enc_def buffer_text_def)

lemma list_dynstring_laws [simp, intro]: "dynstring_laws list_dynstring"
  by (simp add: list_dynstring_def)

subsection \<open>Query strings (\<^verbatim>\<open>querystring.h\<close>)\<close>

record 'q querystring_ops =
  querystring_decode_inplace :: "string option \<Rightarrow> 'q option"
  querystring_getbykey :: "'q option \<Rightarrow> string \<Rightarrow> string option"

end
