(* ===== verification/Quotedstringparser.thy ===== *)
theory Quotedstringparser
  imports Libgreen
begin

section \<open>Quoted strings (\<^verbatim>\<open>src/quotedstringparser.c\<close>)\<close>

text \<open>
  \<^verbatim>\<open>qsp_append_to_dynstring\<close> copies bytes of a buffer until a delimiter outside double
  quotes. The buffer is the list of bytes the caller owns, the terminating NUL included; the
  result is \<open>None\<close> where the code would read beyond it.
\<close>

datatype qsp_state = OUTSIDE_QUOTES | IN_QUOTES | ESCAPE

fun matches :: "char \<Rightarrow> string \<Rightarrow> bool" where
  "matches input [] = False"
| "matches input (m # ms) = (if m = input then True else matches input ms)"

abbreviation QUOTE :: char where "QUOTE \<equiv> CHR 0x22"
abbreviation BACKSLASH :: char where "BACKSLASH \<equiv> CHR 0x5C"

text \<open>\<open>qsp_loop D delim buf left st d count\<close>: \<open>buf\<close> starts at \<^verbatim>\<open>rover\<close>, \<open>left\<close> is
  \<^verbatim>\<open>len - count\<close>.\<close>

fun qsp_loop :: "'d dynstring_ops \<Rightarrow> string \<Rightarrow> char list \<Rightarrow> nat \<Rightarrow> qsp_state \<Rightarrow> 'd \<Rightarrow> nat \<Rightarrow>
    ('d \<times> nat) option" where
  "qsp_loop D delim buf 0 st d count = Some (d, count)"
| "qsp_loop D delim [] (Suc left) st d count = None"
| "qsp_loop D delim (c # buf) (Suc left) st d count =
     (if c = QUOTE then
        (if st = IN_QUOTES then qsp_loop D delim buf left OUTSIDE_QUOTES d (count + 1)
         else qsp_loop D delim buf left IN_QUOTES d (count + 1))
      else if st = IN_QUOTES then
        (if c = BACKSLASH then qsp_loop D delim buf left ESCAPE d (count + 1)
         else qsp_loop D delim buf left IN_QUOTES (ds_appendchar D d c) (count + 1))
      else if st = ESCAPE then
        qsp_loop D delim buf left IN_QUOTES (ds_appendchar D d c) (count + 1)
      else if matches c delim \<or> c = NUL then Some (d, count)
      else qsp_loop D delim buf left st (ds_appendchar D d c) (count + 1))"

definition qsp_append_to_dynstring ::
  "'d dynstring_ops \<Rightarrow> 'd \<Rightarrow> char list \<Rightarrow> nat \<Rightarrow> string \<Rightarrow> ('d \<times> nat) option" where
  "qsp_append_to_dynstring D dynstring buf len delim =
     qsp_loop D delim buf len OUTSIDE_QUOTES dynstring 0"

subsection \<open>What is copied: a scanner without the string being built\<close>

text \<open>\<open>qsp_scan delim st s\<close> is the copied text and the rest of \<open>s\<close> from the delimiter on.\<close>

fun qsp_scan :: "string \<Rightarrow> qsp_state \<Rightarrow> string \<Rightarrow> string \<times> string" where
  "qsp_scan delim st [] = ([], [])"
| "qsp_scan delim OUTSIDE_QUOTES (c # s) =
     (if c = QUOTE then qsp_scan delim IN_QUOTES s
      else if c \<in> set delim then ([], c # s)
      else apfst ((#) c) (qsp_scan delim OUTSIDE_QUOTES s))"
| "qsp_scan delim IN_QUOTES (c # s) =
     (if c = QUOTE then qsp_scan delim OUTSIDE_QUOTES s
      else if c = BACKSLASH then qsp_scan delim ESCAPE s
      else apfst ((#) c) (qsp_scan delim IN_QUOTES s))"
| "qsp_scan delim ESCAPE (c # s) =
     (if c = QUOTE then qsp_scan delim IN_QUOTES s
      else apfst ((#) c) (qsp_scan delim IN_QUOTES s))"

lemma matches_iff [simp]: "matches c ms \<longleftrightarrow> c \<in> set ms"
  by (induction ms) auto

lemma qsp_scan_suffix: "suffix (snd (qsp_scan delim st s)) s"
  by (induction delim st s rule: qsp_scan.induct) (auto intro: suffix_ConsI)

lemma length_qsp_scan: "length (snd (qsp_scan delim st s)) \<le> length s"
  by (rule suffix_length_le [OF qsp_scan_suffix])

lemma qsp_loop_scan:
  assumes "dynstring_laws D"
  shows "NUL \<notin> set s \<Longrightarrow> \<exists>d'. qsp_loop D delim (s @ b) (length s) st d count =
     Some (d', count + (length s - length (snd (qsp_scan delim st s)))) \<and>
     ds_bytes D d' = ds_bytes D d @ fst (qsp_scan delim st s)"
proof (induction s arbitrary: st d count)
  case (Cons c s)
  from Cons.prems have n: "c \<noteq> NUL" "NUL \<notin> set s" by auto
  have IH: "\<exists>d'. qsp_loop D delim (s @ b) (length s) st d (Suc count) =
      Some (d', count + (Suc (length s) - length (snd (qsp_scan delim st s)))) \<and>
      ds_bytes D d' = ds_bytes D d @ fst (qsp_scan delim st s)" for st d
    using Cons.IH [OF n(2), of st d "Suc count"] length_qsp_scan [of delim st s]
    by (simp add: Suc_diff_le)
  show ?case
    using n(1) IH [of IN_QUOTES d] IH [of OUTSIDE_QUOTES d] IH [of ESCAPE d]
      IH [of IN_QUOTES "ds_appendchar D d c"] IH [of OUTSIDE_QUOTES "ds_appendchar D d c"]
    by (cases st) (simp_all add: dynstring_lawsD [OF assms])
qed simp

lemma qsp_append_scan:
  assumes "dynstring_laws D" "NUL \<notin> set s"
  obtains d' where
    "qsp_append_to_dynstring D d (s @ [NUL]) (length s) delim =
       Some (d', length s - length (snd (qsp_scan delim OUTSIDE_QUOTES s)))"
    "ds_bytes D d' = ds_bytes D d @ fst (qsp_scan delim OUTSIDE_QUOTES s)"
  using qsp_loop_scan [OF assms, of delim "[NUL]" OUTSIDE_QUOTES d 0]
  by (auto simp: qsp_append_to_dynstring_def)

lemma drop_qsp_scan:
  "drop (length s - length (snd (qsp_scan delim st s))) s = snd (qsp_scan delim st s)"
  by (rule drop_suffix [OF qsp_scan_suffix])

subsection \<open>Plain and quoted text\<close>

lemma length_qsp_copy: "length (fst (qsp_scan delim st s)) + length (snd (qsp_scan delim st s)) \<le> length s"
  by (induction delim st s rule: qsp_scan.induct) auto

lemma qsp_scan_stop:
  "snd (qsp_scan delim st s) = c # t \<Longrightarrow> c \<in> set delim"
  by (induction delim st s rule: qsp_scan.induct) (auto split: if_splits)

lemma qsp_scan_plain:
  assumes "\<forall>c\<in>set s. c \<noteq> QUOTE \<and> c \<notin> set delim"
  shows "qsp_scan delim OUTSIDE_QUOTES (s @ t) = apfst ((@) s) (qsp_scan delim OUTSIDE_QUOTES t)"
  using assms by (induction s) (auto simp: apfst_def map_prod_def split: prod.splits)

lemma qsp_scan_end: "t = [] \<or> (hd t \<in> set delim \<and> hd t \<noteq> QUOTE) \<Longrightarrow>
    qsp_scan delim OUTSIDE_QUOTES t = ([], t)"
  by (cases t) auto

text \<open>The quoted form of a text: backslashes doubled, double quotes around it.\<close>

definition qsp_escape :: "string \<Rightarrow> string" where
  "qsp_escape s = concat (map (\<lambda>c. if c = BACKSLASH then [BACKSLASH, BACKSLASH] else [c]) s)"

definition qsp_quote :: "string \<Rightarrow> string" where
  "qsp_quote s = QUOTE # qsp_escape s @ [QUOTE]"

lemma qsp_scan_escape:
  assumes "QUOTE \<notin> set s"
  shows "qsp_scan delim IN_QUOTES (qsp_escape s @ t) = apfst ((@) s) (qsp_scan delim IN_QUOTES t)"
  using assms
  by (induction s) (auto simp: qsp_escape_def apfst_def map_prod_def split: prod.splits)

lemma qsp_scan_quote:
  assumes "QUOTE \<notin> set s"
  shows "qsp_scan delim OUTSIDE_QUOTES (qsp_quote s @ t) =
    apfst ((@) s) (qsp_scan delim OUTSIDE_QUOTES t)"
  by (simp add: qsp_quote_def qsp_scan_escape [OF assms])

text \<open>An escaped double quote is consumed but not copied.\<close>

lemma qsp_scan_escaped_quote:
  "qsp_scan delim IN_QUOTES (BACKSLASH # QUOTE # s) = qsp_scan delim IN_QUOTES s"
  by simp

end
