(* ===== verification/Contentdisposition.thy ===== *)
theory Contentdisposition
  imports Quotedstringparser
begin

section \<open>Attributes of a header value (\<^verbatim>\<open>src/contentdisposition.c\<close>)\<close>

text \<open>
  \<^verbatim>\<open>find_attribute_value\<close> walks the attributes of a header such as
  \<^verbatim>\<open>form-data; name="a"; filename="b"\<close>. The header is a C string, \<open>pos\<close> its tail from
  the pointer \<^verbatim>\<open>pos\<close> on. The outer option is \<open>None\<close> if a read leaves the header, the
  inner one if the attribute is not found.
\<close>

definition my_isspace :: "char \<Rightarrow> bool" where
  "my_isspace input = matches input [CHR 0x09, CHR 0x20, CHR 0x0D, CHR 0x0A]"

definition read_field :: "'d dynstring_ops \<Rightarrow> 'd \<Rightarrow> string \<Rightarrow> string \<Rightarrow> ('d \<times> string) option" where
  "read_field D fld pos delim =
     (case qsp_append_to_dynstring D fld (pos @ [NUL]) (length pos) delim of
        None \<Rightarrow> None
      | Some (fld, consumed) \<Rightarrow> Some (fld, drop consumed pos))"

lemma length_read_field: "read_field D fld pos delim = Some (fld', pos') \<Longrightarrow> length pos' \<le> length pos"
  by (auto simp: read_field_def split: option.splits)

function find_attribute_loop ::
  "'d dynstring_ops \<Rightarrow> string \<Rightarrow> 'd \<Rightarrow> 'd \<Rightarrow> string \<Rightarrow> string option option" where
  "find_attribute_loop D attrib fld_name fld_value pos =
     (case read_field D (ds_empty D fld_name) (dropWhile my_isspace pos) '';='' of
        None \<Rightarrow> None
      | Some (fld_name, pos) \<Rightarrow>
     (case (if pos \<noteq> [] \<and> hd pos = CHR ''=''
            then read_field D (ds_empty D fld_value) (tl pos) '';''
            else Some (ds_empty D fld_value, pos)) of
        None \<Rightarrow> None
      | Some (fld_value, pos) \<Rightarrow>
          if strncmp0 (length (ds_bytes D fld_name)) attrib (ds_bytes D fld_name)
          then Some (Some (ds_detachcstring D fld_value))
          else if pos = [] then Some None
          else find_attribute_loop D attrib fld_name fld_value (tl pos)))"
  by pat_completeness auto

termination
proof (relation "measure (\<lambda>(D, attrib, n, v, pos). length pos)", goal_cases)
  case (2 D attrib n v pos x n1 pos1 x' v1 pos2)
  have "length pos1 \<le> length pos"
    using 2 length_read_field [of D "ds_empty D n" "dropWhile my_isspace pos" "'';=''" n1 pos1]
      length_dropWhile_le [of my_isspace pos] by simp
  moreover have "length pos2 \<le> length pos1"
    using 2 length_read_field [of D "ds_empty D v" "tl pos1" "'';''" v1 pos2]
    by (auto split: if_splits)
  ultimately show ?case using 2 by (cases pos2) auto
qed simp

declare find_attribute_loop.simps [simp del]

definition find_attribute_value :: "'d dynstring_ops \<Rightarrow> string \<Rightarrow> string \<Rightarrow> string option option" where
  "find_attribute_value D hdr attrib =
     find_attribute_loop D attrib (snd (ds_initialise D 128)) (snd (ds_initialise D 128)) hdr"

definition keyvalueheader_getbyname :: "'d dynstring_ops \<Rightarrow> string \<Rightarrow> string \<Rightarrow> string option option" where
  "keyvalueheader_getbyname D hdr name = find_attribute_value D hdr name"

definition contentdisposition_getname :: "'d dynstring_ops \<Rightarrow> string \<Rightarrow> string option option" where
  "contentdisposition_getname D hdr = find_attribute_value D hdr ''name''"

definition contentdisposition_getfilename :: "'d dynstring_ops \<Rightarrow> string \<Rightarrow> string option option" where
  "contentdisposition_getfilename D hdr = find_attribute_value D hdr ''filename''"

text \<open>
  The older search, which nothing calls any more: a text that follows a semicolon and white space.
\<close>

function find_str_after_semicolon :: "string \<Rightarrow> string \<Rightarrow> string option" where
  "find_str_after_semicolon buf match =
     (case strchr buf (CHR '';'') of
        None \<Rightarrow> None
      | Some i \<Rightarrow>
          let buf_pos = dropWhile my_isspace (drop (i + 1) buf)
          in if strncmp0 (length match) match buf_pos then Some (drop (length match) buf_pos)
             else find_str_after_semicolon buf_pos match)"
  by pat_completeness auto

termination
proof (relation "measure (\<lambda>(buf, match). length buf)", goal_cases)
  case (2 buf match i pos)
  then show ?case using strchr_less(1) [of buf "CHR '';''" i] length_dropWhile_le [of my_isspace "drop (i + 1) buf"] by auto
qed simp

declare find_str_after_semicolon.simps [simp del]

lemma find_str_first:
  "CHR '';'' \<notin> set a \<Longrightarrow> \<forall>c\<in>set ws. my_isspace c \<Longrightarrow> match \<noteq> [] \<Longrightarrow> \<not> my_isspace (hd match) \<Longrightarrow>
    find_str_after_semicolon (a @ CHR '';'' # ws @ match @ rest) match = Some rest"
  by (cases match) (simp_all add: find_str_after_semicolon.simps strchr_append dropWhile_append strncmp0_def)

definition getstringafterattributename :: "'d dynstring_ops \<Rightarrow> string \<Rightarrow> string \<Rightarrow> string option option" where
  "getstringafterattributename D hdr attrib =
     (case find_str_after_semicolon hdr attrib of
        None \<Rightarrow> Some None
      | Some field_value \<Rightarrow>
          (case read_field D (snd (ds_initialise D 128)) field_value '';'' of
             None \<Rightarrow> None
           | Some (fld, _) \<Rightarrow> Some (Some (cstr (ds_bytes D (ds_appendchar D fld NUL))))))"

subsection \<open>The attribute the search finds\<close>

text \<open>One attribute: its name, its value (empty without \<open>=\<close>) and the text from its end on.\<close>

definition next_attr :: "string \<Rightarrow> string \<times> string \<times> string" where
  "next_attr s =
     (case qsp_scan '';='' OUTSIDE_QUOTES (dropWhile my_isspace s) of
        (name, r) \<Rightarrow>
          (name, if r \<noteq> [] \<and> hd r = CHR ''='' then qsp_scan '';'' OUTSIDE_QUOTES (tl r) else ([], r)))"

lemma suffix_next_attr:
  assumes "next_attr s = (name, val, r)"
  shows "suffix r s"
proof -
  define t where "t = dropWhile my_isspace s"
  define r1 where "r1 = snd (qsp_scan '';='' OUTSIDE_QUOTES t)"
  have "suffix r r1"
  proof (cases "r1 \<noteq> [] \<and> hd r1 = CHR ''=''")
    case True
    then have "r = snd (qsp_scan '';'' OUTSIDE_QUOTES (tl r1))"
      using assms by (auto simp: next_attr_def r1_def t_def split_def)
    moreover have "suffix (tl r1) r1" by (rule suffix_tl)
    ultimately show ?thesis using qsp_scan_suffix by (metis suffix_order.trans)
  next
    case False
    then show ?thesis using assms by (auto simp: next_attr_def r1_def t_def split_def)
  qed
  also have "suffix r1 t" unfolding r1_def by (rule qsp_scan_suffix)
  also have "suffix t s" unfolding t_def by (rule suffix_dropWhile)
  finally show ?thesis .
qed

function find_attr :: "string \<Rightarrow> string \<Rightarrow> string option" where
  "find_attr attrib s =
     (case next_attr s of (name, val, r) \<Rightarrow>
        if prefix name attrib then Some val
        else if r = [] then None
        else find_attr attrib (tl r))"
  by pat_completeness auto
termination
proof (relation "measure (\<lambda>(attrib, s). length s)", goal_cases)
  case (2 attrib s name p val r)
  then have "next_attr s = (name, val, r)" by simp
  from suffix_length_le [OF suffix_next_attr [OF this]] 2 show ?case by (cases r) auto
qed simp

declare find_attr.simps [simp del]

lemma strncmp0_prefix: "strncmp0 (length a) b a \<longleftrightarrow> prefix a b"
  by (auto simp: strncmp0_def prefix_def) (metis append_take_drop_id)

lemma read_field_scan:
  assumes "dynstring_laws D" "NUL \<notin> set s" "ds_bytes D d = []"
  obtains d' where "read_field D d s delim = Some (d', snd (qsp_scan delim OUTSIDE_QUOTES s))"
    "ds_bytes D d' = fst (qsp_scan delim OUTSIDE_QUOTES s)"
proof -
  from qsp_append_scan [OF assms(1,2), of d delim] obtain d' where
    "qsp_append_to_dynstring D d (s @ [NUL]) (length s) delim =
       Some (d', length s - length (snd (qsp_scan delim OUTSIDE_QUOTES s)))"
    "ds_bytes D d' = ds_bytes D d @ fst (qsp_scan delim OUTSIDE_QUOTES s)" by blast
  then show ?thesis
    using that assms(3) by (simp add: read_field_def drop_qsp_scan)
qed

lemma no_NUL_suffix: "suffix r s \<Longrightarrow> NUL \<notin> set s \<Longrightarrow> NUL \<notin> set r"
  using set_mono_suffix by blast

lemma no_NUL_scan: "NUL \<notin> set s \<Longrightarrow> NUL \<notin> set (fst (qsp_scan delim st s))"
  by (induction delim st s rule: qsp_scan.induct) auto

lemma find_attribute_loop_eq:
  assumes "dynstring_laws D"
  shows "NUL \<notin> set s \<Longrightarrow> find_attribute_loop D attrib n v s = Some (find_attr attrib s)"
proof (induction attrib s arbitrary: n v rule: find_attr.induct)
  case (1 attrib s)
  note L = dynstring_lawsD [OF assms]
  let ?t = "dropWhile my_isspace s"
  have t: "NUL \<notin> set ?t" using 1(2) by (auto dest: set_dropWhileD)
  obtain n1 where n1: "read_field D (ds_empty D n) ?t '';='' = Some (n1, snd (qsp_scan '';='' OUTSIDE_QUOTES ?t))"
    "ds_bytes D n1 = fst (qsp_scan '';='' OUTSIDE_QUOTES ?t)"
    using read_field_scan [OF assms t] L(8) by metis
  obtain name val r where na: "next_attr s = (name, val, r)" by (cases "next_attr s")
  define r1 where "r1 = snd (qsp_scan '';='' OUTSIDE_QUOTES ?t)"
  have r1: "NUL \<notin> set (tl r1)" "NUL \<notin> set r1"
    unfolding r1_def using t qsp_scan_suffix by (meson no_NUL_suffix suffix_tl suffix_order.trans)+
  have name: "name = ds_bytes D n1" using na n1(2) by (auto simp: next_attr_def split_def)
  obtain v1 where v1: "(if r1 \<noteq> [] \<and> hd r1 = CHR ''='' then read_field D (ds_empty D v) (tl r1) '';''
      else Some (ds_empty D v, r1)) = Some (v1, r)" "ds_bytes D v1 = val"
  proof (cases "r1 \<noteq> [] \<and> hd r1 = CHR ''=''")
    case True
    then show ?thesis using read_field_scan [OF assms r1(1), of "ds_empty D v" "'';''"] L(8) na that
      by (auto simp: next_attr_def split_def r1_def)
  next
    case False
    then show ?thesis using L(8) na that by (auto simp: next_attr_def split_def r1_def)
  qed
  have "NUL \<notin> set val"
    using na no_NUL_scan [OF r1(1), of "'';''" OUTSIDE_QUOTES]
    by (auto simp: next_attr_def split_def r1_def split: if_splits)
  then have det: "ds_detachcstring D v1 = val" by (simp add: L v1(2) cstr_id)
  have "NUL \<notin> set (tl r)"
    using suffix_next_attr [OF na] 1(2) by (meson no_NUL_suffix suffix_tl suffix_order.trans)
  then show ?case
    using 1(1) [OF na [symmetric] refl] n1(1) v1(1) name det
    by (simp add: find_attribute_loop.simps [of D attrib n v s] find_attr.simps [of attrib s] na
        strncmp0_prefix flip: r1_def)
qed

subsection \<open>Headers written as a kind and quoted attributes\<close>

definition token :: "string \<Rightarrow> bool" where
  "token s \<longleftrightarrow> s \<noteq> [] \<and> (\<forall>c\<in>set s. c \<noteq> QUOTE \<and> c \<notin> set '';='' \<and> \<not> my_isspace c \<and> c \<noteq> NUL)"

definition attr_text :: "string \<times> string \<Rightarrow> string" where
  "attr_text f = fst f @ ''='' @ qsp_quote (snd f)"

definition header_text :: "string \<Rightarrow> (string \<times> string) list \<Rightarrow> string" where
  "header_text kind attrs = kind @ concat (map (\<lambda>f. ''; '' @ attr_text f) attrs)"

definition plain_field :: "string \<times> string \<Rightarrow> bool" where
  "plain_field f \<longleftrightarrow> token (fst f) \<and> QUOTE \<notin> set (snd f) \<and> NUL \<notin> set (snd f)"

definition ends_field :: "string \<Rightarrow> bool" where
  "ends_field t \<longleftrightarrow> t = [] \<or> hd t = CHR '';''"

lemma token_dropWhile [simp]: "token s \<Longrightarrow> dropWhile my_isspace (s @ t) = s @ t"
  by (cases s) (auto simp: token_def)

lemma next_attr_space [simp]: "next_attr (CHR '' '' # s) = next_attr s"
  by (simp add: next_attr_def my_isspace_def)

lemma token_scan:
  assumes "token n" "set delim \<subseteq> set '';=''"
  shows "qsp_scan delim OUTSIDE_QUOTES (n @ t) = apfst ((@) n) (qsp_scan delim OUTSIDE_QUOTES t)"
  using assms by (intro qsp_scan_plain) (auto simp: token_def)

lemma ends_field_scan:
  "ends_field t \<Longrightarrow> CHR '';'' \<in> set delim \<Longrightarrow> qsp_scan delim OUTSIDE_QUOTES t = ([], t)"
  by (rule qsp_scan_end) (auto simp: ends_field_def)

lemma next_attr_field:
  assumes "plain_field (n, v)" "ends_field t"
  shows "next_attr (n @ CHR ''='' # qsp_quote v @ t) = (n, v, t)"
  using assms
  by (simp add: next_attr_def plain_field_def token_scan qsp_scan_quote ends_field_scan)

lemma next_attr_kind:
  assumes "token kind" "ends_field t"
  shows "next_attr (kind @ t) = (kind, [], t)"
  using assms(2) by (simp add: next_attr_def token_scan assms(1) ends_field_scan)
    (auto simp: ends_field_def)

lemma find_attr_field:
  assumes "plain_field f" "ends_field t"
  shows "find_attr attrib (attr_text f @ t) =
    (if prefix (fst f) attrib then Some (snd f) else if t = [] then None else find_attr attrib (tl t))"
  using assms by (cases f) (simp add: find_attr.simps attr_text_def next_attr_field)

lemma find_attr_space [simp]: "find_attr attrib (CHR '' '' # s) = find_attr attrib s"
  by (simp add: find_attr.simps [of attrib "_ # _"] find_attr.simps [of attrib s])

lemma find_attr_fields:
  assumes "\<forall>f\<in>set attrs. plain_field f \<and> (prefix (fst f) attrib \<longrightarrow> fst f = attrib)"
    and "ends_field t"
  shows "(let r = concat (map (\<lambda>f. ''; '' @ attr_text f) attrs) @ t
          in if r = [] then None else find_attr attrib (tl r)) =
    (case map_of attrs attrib of
       Some v \<Rightarrow> Some v
     | None \<Rightarrow> if t = [] then None else find_attr attrib (tl t))"
  using assms
proof (induction attrs)
  case (Cons f attrs)
  let ?r = "concat (map (\<lambda>f. ''; '' @ attr_text f) attrs) @ t"
  have "ends_field ?r" using Cons.prems(2) by (cases attrs) (auto simp: ends_field_def)
  with Cons show ?case by (cases f) (auto simp: find_attr_field Let_def)
qed simp

lemma find_attr_header:
  assumes "token kind" "\<not> prefix kind attrib"
    and "\<forall>f\<in>set attrs. plain_field f \<and> (prefix (fst f) attrib \<longrightarrow> fst f = attrib)"
    and "ends_field t"
  shows "find_attr attrib (header_text kind attrs @ t) =
    (case map_of attrs attrib of
       Some v \<Rightarrow> Some v
     | None \<Rightarrow> if t = [] then None else find_attr attrib (tl t))"
proof -
  let ?r = "concat (map (\<lambda>f. ''; '' @ attr_text f) attrs) @ t"
  have "ends_field ?r" using assms(4) by (cases attrs) (auto simp: ends_field_def)
  from next_attr_kind [OF assms(1) this] assms(2)
  have "find_attr attrib (kind @ ?r) = (let r = ?r in if r = [] then None else find_attr attrib (tl r))"
    by (simp add: find_attr.simps [of attrib "kind @ _"] Let_def)
  then show ?thesis using find_attr_fields [OF assms(3,4)] by (simp add: header_text_def)
qed

lemma find_attr_empty: "find_attr attrib [] = Some []"
  by (simp add: find_attr.simps next_attr_def)

lemma header_no_NUL:
  assumes "token kind" "\<forall>f\<in>set attrs. plain_field f"
  shows "NUL \<notin> set (header_text kind attrs)"
proof -
  have "NUL \<notin> set n" if "token n" for n using that by (auto simp: token_def)
  moreover have "NUL \<notin> set (qsp_quote v)" if "NUL \<notin> set v" for v
    using that by (auto simp: qsp_quote_def qsp_escape_def)
  ultimately show ?thesis
    using assms by (auto simp: header_text_def attr_text_def plain_field_def)
qed

lemma find_attr_prefix:
  assumes "token kind" "\<not> prefix kind attrib" "plain_field (n, v)" "prefix n attrib" "ends_field t"
  shows "find_attr attrib (header_text kind [(n, v)] @ t) = Some v"
proof -
  have e: "ends_field (''; '' @ attr_text (n, v) @ t)" by (simp add: ends_field_def)
  show ?thesis
    using next_attr_kind [OF assms(1) e] assms find_attr_field [OF assms(3,5), of attrib]
    by (simp add: header_text_def find_attr.simps [of attrib "kind @ _"])
qed

subsection \<open>Properties\<close>

text \<open>
  C27. The search for an attribute in a header of a kind and quoted attributes, the shape of
  \<^verbatim>\<open>Content-Disposition: form-data; name="a"; filename="b"\<close>, returns the unquoted value of
  the first attribute of that name and nothing when there is none, provided no other
  attribute name (nor the kind) is a prefix of the one searched for, which is how
  \<^verbatim>\<open>find_attribute_value\<close> compares.
\<close>

theorem getbyname_finds_attribute:
  assumes "dynstring_laws D" "token kind" "\<not> prefix kind attrib"
    and "\<forall>f\<in>set attrs. plain_field f \<and> (prefix (fst f) attrib \<longrightarrow> fst f = attrib)"
  shows "keyvalueheader_getbyname D (header_text kind attrs) attrib = Some (map_of attrs attrib)"
  using assms header_no_NUL [OF assms(2), of attrs] find_attr_header [OF assms(2-4), of "[]"]
  by (simp add: keyvalueheader_getbyname_def find_attribute_value_def find_attribute_loop_eq
      dynstring_lawsD ends_field_def split: option.split)

theorem getbyname_finds_attribute_witness:
  "keyvalueheader_getbyname list_dynstring
     (header_text ''form-data'' [(''name'', ''a;b''), (''filename'', ''x=1'')]) ''filename'' = Some (Some ''x=1'')"
  using getbyname_finds_attribute [OF list_dynstring_laws, of "''form-data''" "''filename''"
      "[(''name'', ''a;b''), (''filename'', ''x=1'')]"]
  by (simp add: token_def plain_field_def my_isspace_def prefix_def)

end
