(* ===== verification/Qsp_inplace.thy ===== *)
theory Qsp_inplace
  imports Quotedstringparser
begin

section \<open>Splitting quoted strings in place (\<^verbatim>\<open>src/quotedstringparser.c\<close>)\<close>

text \<open>
  \<^verbatim>\<open>qsp_callbacker\<close>, \<^verbatim>\<open>qsp_inplace\<close> and \<^verbatim>\<open>qsp_inplace_commandline\<close> cut a buffer into
  fields by writing NULs into it. The buffer is the list of the bytes the caller owns; pointers are
  indices, and \<open>None\<close> is a read beyond the buffer.
\<close>

subsection \<open>Searching a buffer\<close>

text \<open>\<^verbatim>\<open>strchr\<close>: the outer option is the read beyond the buffer, the inner one the null pointer.\<close>

fun scan_chr :: "char list \<Rightarrow> char \<Rightarrow> nat option option" where
  "scan_chr [] c = None"
| "scan_chr (x # xs) c =
     (if x = c then Some (Some 0)
      else if x = NUL then Some None
      else map_option (map_option Suc) (scan_chr xs c))"

definition strchr_at :: "char list \<Rightarrow> nat \<Rightarrow> char \<Rightarrow> nat option option" where
  "strchr_at buf i c = map_option (map_option ((+) i)) (scan_chr (drop i buf) c)"

lemma scan_chr_Some: "scan_chr xs c = Some (Some j) \<Longrightarrow> j < length xs \<and> xs ! j = c"
  by (induction xs arbitrary: j) (auto split: if_splits)

lemma strchr_at_Some: "strchr_at buf i c = Some (Some j) \<Longrightarrow> i \<le> j \<and> j < length buf \<and> buf ! j = c"
  using scan_chr_Some [of "drop i buf" c "j - i"] by (cases "i < length buf") (auto simp: strchr_at_def)

lemma scan_chr_terminated: "NUL \<in> set xs \<Longrightarrow> scan_chr xs c \<noteq> None"
  by (induction xs) auto

lemma strchr_at_terminated: "NUL \<in> set (drop i buf) \<Longrightarrow> strchr_at buf i c \<noteq> None"
  using scan_chr_terminated [of "drop i buf" c] by (simp add: strchr_at_def)

text \<open>The closing quote: the next one that no backslash precedes.\<close>

function closing_quote :: "char list \<Rightarrow> nat \<Rightarrow> nat option option" where
  "closing_quote buf temp =
     (case strchr_at buf temp QUOTE of
        None \<Rightarrow> None
      | Some None \<Rightarrow> Some None
      | Some (Some j) \<Rightarrow> if buf ! (j - 1) \<noteq> BACKSLASH then Some (Some j) else closing_quote buf (j + 1))"
  by pat_completeness auto
termination
  by (relation "measure (\<lambda>(buf, temp). length buf - temp)") (auto dest!: strchr_at_Some)

declare closing_quote.simps [simp del]

subsection \<open>With a callback\<close>

text \<open>
  \<open>cb idx field\<close> tells whether the callback asks to stop. A round gives the buffer, the next
  \<^verbatim>\<open>rover\<close>, the field handed over and \<^verbatim>\<open>keep_going\<close>. In the search for the closing quote
  \<^verbatim>\<open>rover\<close> moves along, and it is \<^verbatim>\<open>rover\<close> that an unterminated field is read from.
\<close>

function callbacker_quote :: "char list \<Rightarrow> nat \<Rightarrow> (nat \<times> nat option) option" where
  "callbacker_quote buf rover =
     (case strchr_at buf (rover + 1) QUOTE of
        None \<Rightarrow> None
      | Some None \<Rightarrow> Some (rover + 1, None)
      | Some (Some temp) \<Rightarrow>
          if buf ! (temp - 1) = BACKSLASH then callbacker_quote buf temp else Some (rover + 1, Some temp))"
  by pat_completeness auto
termination
  by (relation "measure (\<lambda>(buf, rover). length buf - rover)") (auto dest!: strchr_at_Some)

declare callbacker_quote.simps [simp del]

definition cstr_from :: "char list \<Rightarrow> nat \<Rightarrow> string" where
  "cstr_from buf i = cstr (drop i buf)"

definition callbacker_round ::
  "(nat \<Rightarrow> string \<Rightarrow> bool) \<Rightarrow> char list \<Rightarrow> nat \<Rightarrow> nat \<Rightarrow> (char list \<times> nat \<times> string option \<times> bool) option" where
  "callbacker_round cb buf rover count =
     (if rover \<ge> length buf then None
      else if buf ! rover = QUOTE then
        (case callbacker_quote buf rover of
           None \<Rightarrow> None
         | Some (_, Some temp) \<Rightarrow>
             let buf = buf[temp := NUL]; field = cstr_from buf (rover + 1)
             in if temp + 1 \<ge> length buf then None
                else Some (buf, if buf ! (temp + 1) = CHR '','' then temp + 2 else temp + 1,
                           Some field, \<not> cb count field)
         | Some (rover, None) \<Rightarrow> Some (buf, rover, Some (cstr_from buf rover), False))
      else if buf ! rover = CHR '' '' then Some (buf, rover + 1, None, True)
      else
        (case strchr_at buf rover (CHR '','') of
           None \<Rightarrow> None
         | Some (Some temp) \<Rightarrow>
             let buf = buf[temp := NUL]; field = cstr_from buf rover
             in Some (buf, temp + 1, Some field, \<not> cb count field)
         | Some None \<Rightarrow> Some (buf, rover, Some (cstr_from buf rover), False)))"

lemma callbacker_quote_bound:
  "callbacker_quote buf rover = Some (r, t) \<Longrightarrow> rover < r \<and> (\<forall>temp. t = Some temp \<longrightarrow> rover < temp \<and> temp < length buf)"
proof (induction buf rover arbitrary: r t rule: callbacker_quote.induct)
  case (1 buf rover)
  show ?case
  proof (cases "\<exists>temp. strchr_at buf (rover + 1) QUOTE = Some (Some temp) \<and> buf ! (temp - 1) = BACKSLASH")
    case True
    then obtain temp where t: "strchr_at buf (rover + 1) QUOTE = Some (Some temp)" "buf ! (temp - 1) = BACKSLASH" by blast
    with "1.prems" have "callbacker_quote buf temp = Some (r, t)" by (subst (asm) callbacker_quote.simps) simp
    with "1.IH" t have "temp < r \<and> (\<forall>u. t = Some u \<longrightarrow> temp < u \<and> u < length buf)" by blast
    with strchr_at_Some [OF t(1)] show ?thesis by auto
  next
    case False
    with "1.prems" show ?thesis
      by (subst (asm) callbacker_quote.simps) (auto split: option.splits if_splits dest!: strchr_at_Some)
  qed
qed

lemma callbacker_round_progress:
  "callbacker_round cb buf rover count = Some (buf', rover', f, True) \<Longrightarrow>
    length buf' = length buf \<and> rover < rover' \<and> rover < length buf"
  by (auto simp: callbacker_round_def Let_def split: if_splits option.splits prod.splits
      dest!: strchr_at_Some callbacker_quote_bound)

function callbacker_loop ::
  "(nat \<Rightarrow> string \<Rightarrow> bool) \<Rightarrow> char list \<Rightarrow> nat \<Rightarrow> string list \<Rightarrow> (string list \<times> char list) option" where
  "callbacker_loop cb buf rover got =
     (case callbacker_round cb buf rover (length got) of
        None \<Rightarrow> None
      | Some (buf', rover', field, keep_going) \<Rightarrow>
          let got = got @ (case field of None \<Rightarrow> [] | Some f \<Rightarrow> [f])
          in if rover' \<ge> length buf' then None
             else if buf' ! rover' \<noteq> NUL \<and> keep_going then callbacker_loop cb buf' rover' got
             else Some (got, buf'))"
  by pat_completeness auto
termination
  by (relation "measure (\<lambda>(cb, buf, rover, got). length buf - rover)") (auto dest!: callbacker_round_progress)

declare callbacker_loop.simps [simp del]

text \<open>The fields the callback was given, in order; their number is the result.\<close>

definition qsp_callbacker :: "(nat \<Rightarrow> string \<Rightarrow> bool) \<Rightarrow> char list \<Rightarrow> (string list \<times> char list) option" where
  "qsp_callbacker cb input = callbacker_loop cb input 0 []"

subsection \<open>Into pointers\<close>

text \<open>A round gives the buffer, \<^verbatim>\<open>rover\<close> and the pointer stored, if any. Every round that stores counts.\<close>

definition next_comma :: "char list \<Rightarrow> nat \<Rightarrow> (char list \<times> nat) option" where
  "next_comma buf rover =
     (case strchr_at buf rover (CHR '','') of
        None \<Rightarrow> None
      | Some (Some temp) \<Rightarrow> Some (buf[temp := NUL], temp + 1)
      | Some None \<Rightarrow> Some (buf, rover + 1))"

definition inplace_round :: "char list \<Rightarrow> nat \<Rightarrow> (char list \<times> nat \<times> nat option) option" where
  "inplace_round buf rover =
     (if rover \<ge> length buf then None
      else if buf ! rover = QUOTE then
        let buf = buf[rover := NUL]; rover = rover + 1
        in (case closing_quote buf rover of
              None \<Rightarrow> None
            | Some (Some temp) \<Rightarrow> Some (buf[temp := NUL], temp + 1, Some rover)
            | Some None \<Rightarrow> Some (buf, rover + 1, Some rover))
      else if buf ! rover = CHR '' '' then Some (buf, rover + 1, None)
      else if buf ! rover = CHR '','' then Some (buf, rover + 1, None)
      else
        (case strchr_at buf rover QUOTE of
           None \<Rightarrow> None
         | Some None \<Rightarrow> map_option (\<lambda>(b, r). (b, r, Some rover)) (next_comma buf rover)
         | Some (Some temp) \<Rightarrow>
             (case strchr_at buf rover (CHR '','') of
                None \<Rightarrow> None
              | Some temp2 \<Rightarrow>
                  if temp2 \<noteq> None \<and> the temp2 < temp then map_option (\<lambda>(b, r). (b, r, Some rover)) (next_comma buf rover)
                  else Some (buf, temp, Some rover))))"

lemma closing_quote_bound:
  "closing_quote buf temp = Some (Some j) \<Longrightarrow> temp \<le> j \<and> j < length buf"
proof (induction buf temp rule: closing_quote.induct)
  case (1 buf temp)
  show ?case
  proof (cases "\<exists>k. strchr_at buf temp QUOTE = Some (Some k) \<and> buf ! (k - 1) = BACKSLASH")
    case True
    then obtain k where k: "strchr_at buf temp QUOTE = Some (Some k)" "buf ! (k - 1) = BACKSLASH" by blast
    with "1.prems" have "closing_quote buf (k + 1) = Some (Some j)" by (subst (asm) closing_quote.simps) simp
    with "1.IH" k have "k + 1 \<le> j \<and> j < length buf" by blast
    with strchr_at_Some [OF k(1)] show ?thesis by auto
  next
    case False
    with "1.prems" show ?thesis
      by (subst (asm) closing_quote.simps) (auto split: option.splits if_splits dest!: strchr_at_Some)
  qed
qed

lemma next_comma_progress: "next_comma buf rover = Some (buf', rover') \<Longrightarrow> length buf' = length buf \<and> rover < rover'"
  by (auto simp: next_comma_def split: option.splits dest!: strchr_at_Some)

lemma inplace_round_progress:
  assumes "inplace_round buf rover = Some (buf', rover', f)"
  shows "length buf' = length buf \<and> rover < rover' \<and> rover < length buf"
proof -
  have "rover < temp" if "strchr_at buf rover QUOTE = Some (Some temp)" "buf ! rover \<noteq> QUOTE" for temp
    using strchr_at_Some [OF that(1)] that(2) by (metis le_neq_implies_less)
  then show ?thesis using assms
    by (auto simp: inplace_round_def Let_def split: if_splits option.splits
        dest!: closing_quote_bound next_comma_progress)
qed

function inplace_loop :: "nat \<Rightarrow> char list \<Rightarrow> nat \<Rightarrow> nat list \<Rightarrow> (nat list \<times> char list) option" where
  "inplace_loop limit buf rover ptrs =
     (case inplace_round buf rover of
        None \<Rightarrow> None
      | Some (buf', rover', ptr) \<Rightarrow>
          let ptrs = ptrs @ (case ptr of None \<Rightarrow> [] | Some p \<Rightarrow> [p])
          in if length ptrs > limit \<or> rover' \<ge> length buf' then None
             else if buf' ! rover' \<noteq> NUL \<and> length ptrs < limit then inplace_loop limit buf' rover' ptrs
             else Some (ptrs, buf'))"
  by pat_completeness auto
termination
  by (relation "measure (\<lambda>(limit, buf, rover, ptrs). length buf - rover)") (auto dest!: inplace_round_progress)

declare inplace_loop.simps [simp del]

text \<open>The pointers stored through the variable arguments, and the buffer they point into.\<close>

definition qsp_inplace :: "char list \<Rightarrow> nat \<Rightarrow> (nat list \<times> char list) option" where
  "qsp_inplace input limit = inplace_loop limit input 0 []"

subsection \<open>As a command line\<close>

text \<open>The last component is the \<^verbatim>\<open>break\<close> out of the loop.\<close>

definition next_space :: "char list \<Rightarrow> nat \<Rightarrow> (char list \<times> nat \<times> nat option \<times> bool) option" where
  "next_space buf rover =
     (case strchr_at buf rover (CHR '' '') of
        None \<Rightarrow> None
      | Some (Some temp) \<Rightarrow> Some (buf[temp := NUL], temp + 1, Some rover, False)
      | Some None \<Rightarrow> Some (buf, rover, Some rover, True))"

definition commandline_round :: "char list \<Rightarrow> nat \<Rightarrow> (char list \<times> nat \<times> nat option \<times> bool) option" where
  "commandline_round buf rover =
     (if rover \<ge> length buf then None
      else if buf ! rover = QUOTE then
        let buf = buf[rover := NUL]; rover = rover + 1
        in (case closing_quote buf rover of
              None \<Rightarrow> None
            | Some (Some temp) \<Rightarrow> Some (buf[temp := NUL], temp + 1, Some rover, False)
            | Some None \<Rightarrow> Some (buf, rover, Some rover, True))
      else if buf ! rover = CHR '' '' then Some (buf, rover + 1, None, False)
      else
        (case strchr_at buf rover QUOTE of
           None \<Rightarrow> None
         | Some None \<Rightarrow> next_space buf rover
         | Some (Some temp) \<Rightarrow>
             (case strchr_at buf rover (CHR '' '') of
                None \<Rightarrow> None
              | Some temp2 \<Rightarrow>
                  if temp2 \<noteq> None \<and> the temp2 < temp then next_space buf rover
                  else Some (buf, temp, Some rover, False))))"

lemma next_space_progress: "next_space buf rover = Some (buf', rover', f, False) \<Longrightarrow> length buf' = length buf \<and> rover < rover'"
  by (auto simp: next_space_def split: option.splits dest!: strchr_at_Some)

lemma commandline_round_progress:
  assumes "commandline_round buf rover = Some (buf', rover', f, False)"
  shows "length buf' = length buf \<and> rover < rover' \<and> rover < length buf"
proof -
  have "rover < temp" if "strchr_at buf rover QUOTE = Some (Some temp)" "buf ! rover \<noteq> QUOTE" for temp
    using strchr_at_Some [OF that(1)] that(2) by (metis le_neq_implies_less)
  then show ?thesis using assms
    by (auto simp: commandline_round_def Let_def split: if_splits option.splits
        dest!: closing_quote_bound next_space_progress)
qed

function commandline_loop :: "nat \<Rightarrow> char list \<Rightarrow> nat \<Rightarrow> nat list \<Rightarrow> (nat list \<times> char list) option" where
  "commandline_loop limit buf rover ptrs =
     (case commandline_round buf rover of
        None \<Rightarrow> None
      | Some (buf', rover', ptr, stop) \<Rightarrow>
          let ptrs = ptrs @ (case ptr of None \<Rightarrow> [] | Some p \<Rightarrow> [p])
          in if length ptrs > limit then None
             else if stop then Some (ptrs, buf')
             else if rover' \<ge> length buf' then None
             else if buf' ! rover' \<noteq> NUL \<and> length ptrs < limit then commandline_loop limit buf' rover' ptrs
             else Some (ptrs, buf'))"
  by pat_completeness auto
termination
  by (relation "measure (\<lambda>(limit, buf, rover, ptrs). length buf - rover)") (auto dest!: commandline_round_progress)

declare commandline_loop.simps [simp del]

definition qsp_inplace_commandline :: "char list \<Rightarrow> nat \<Rightarrow> (nat list \<times> char list) option" where
  "qsp_inplace_commandline input limit = commandline_loop limit input 0 []"

subsection \<open>Staying in the buffer\<close>

text \<open>A position in a buffer whose last byte is the terminating NUL.\<close>

definition in_string :: "char list \<Rightarrow> nat \<Rightarrow> bool" where
  "in_string buf i \<longleftrightarrow> i < length buf \<and> last buf = NUL"

lemma in_string_next: "in_string buf i \<Longrightarrow> buf ! i \<noteq> NUL \<Longrightarrow> in_string buf (Suc i)"
  unfolding in_string_def by (metis Suc_lessI diff_Suc_1 last_conv_nth less_nat_zero_code list.size(3))

lemma in_string_later: "in_string buf i \<Longrightarrow> j < length buf \<Longrightarrow> in_string buf j"
  by (simp add: in_string_def)

lemma in_string_cut: "in_string buf i \<Longrightarrow> in_string (buf[j := NUL]) i"
  by (cases "buf = []") (auto simp: in_string_def last_list_update)

lemma in_string_search: "in_string buf i \<Longrightarrow> strchr_at buf i c \<noteq> None"
proof (rule strchr_at_terminated)
  assume "in_string buf i"
  then show "NUL \<in> set (drop i buf)" unfolding in_string_def by (metis drop_eq_Nil last_drop last_in_set not_le)
qed

lemma found_next:
  assumes "in_string buf i" "strchr_at buf i c = Some (Some j)" "c \<noteq> NUL"
  shows "in_string buf (Suc j)"
  using strchr_at_Some [OF assms(2)] assms by (auto intro: in_string_next in_string_later)

lemma callbacker_quote_safe:
  "in_string buf (Suc rover) \<Longrightarrow> \<exists>r t. callbacker_quote buf rover = Some (r, t) \<and> in_string buf r"
proof (induction buf rover rule: callbacker_quote.induct)
  case (1 buf rover)
  obtain t where t: "strchr_at buf (rover + 1) QUOTE = Some t" using in_string_search [of buf "rover + 1"] "1.prems" by auto
  show ?case
  proof (cases t)
    case (Some temp)
    with t found_next [of buf "Suc rover" QUOTE temp] "1.prems" have "in_string buf (Suc temp)" by simp
    with "1.IH" t Some "1.prems" show ?thesis by (subst callbacker_quote.simps) auto
  qed (use t "1.prems" in \<open>simp add: callbacker_quote.simps\<close>)
qed

lemma callbacker_quote_found:
  "callbacker_quote buf rover = Some (r, Some temp) \<Longrightarrow> buf ! temp = QUOTE"
proof (induction buf rover arbitrary: r temp rule: callbacker_quote.induct)
  case (1 buf rover)
  show ?case
  proof (cases "\<exists>t. strchr_at buf (rover + 1) QUOTE = Some (Some t) \<and> buf ! (t - 1) = BACKSLASH")
    case True
    then obtain t where t: "strchr_at buf (rover + 1) QUOTE = Some (Some t)" "buf ! (t - 1) = BACKSLASH" by blast
    with "1.prems" have "callbacker_quote buf t = Some (r, Some temp)" by (subst (asm) callbacker_quote.simps) simp
    with "1.IH" t show ?thesis by blast
  next
    case False
    with "1.prems" show ?thesis
      by (subst (asm) callbacker_quote.simps) (auto split: option.splits if_splits dest!: strchr_at_Some)
  qed
qed

lemma closing_quote_safe: "in_string buf temp \<Longrightarrow> closing_quote buf temp \<noteq> None"
proof (induction buf temp rule: closing_quote.induct)
  case (1 buf temp)
  obtain t where t: "strchr_at buf temp QUOTE = Some t" using in_string_search [of buf temp] "1.prems" by auto
  show ?case
  proof (cases t)
    case (Some j)
    with t found_next [of buf temp QUOTE j] "1.prems" have "in_string buf (Suc j)" by simp
    with "1.IH" t Some show ?thesis by (subst closing_quote.simps) simp
  qed (use t in \<open>simp add: closing_quote.simps\<close>)
qed

lemma closing_quote_found: "closing_quote buf temp = Some (Some j) \<Longrightarrow> buf ! j = QUOTE"
proof (induction buf temp rule: closing_quote.induct)
  case (1 buf temp)
  show ?case
  proof (cases "\<exists>k. strchr_at buf temp QUOTE = Some (Some k) \<and> buf ! (k - 1) = BACKSLASH")
    case True
    then obtain k where k: "strchr_at buf temp QUOTE = Some (Some k)" "buf ! (k - 1) = BACKSLASH" by blast
    with "1.prems" have "closing_quote buf (k + 1) = Some (Some j)" by (subst (asm) closing_quote.simps) simp
    with "1.IH" k show ?thesis by blast
  next
    case False
    with "1.prems" show ?thesis
      by (subst (asm) closing_quote.simps) (auto split: option.splits if_splits dest!: strchr_at_Some)
  qed
qed

text \<open>After a byte that is cut out, the string goes on.\<close>

lemma in_string_after_cut:
  "last buf = NUL \<Longrightarrow> j < length buf \<Longrightarrow> buf ! j \<noteq> NUL \<Longrightarrow> in_string (buf[j := NUL]) (Suc j)"
  using in_string_next [of buf j] by (simp add: in_string_def in_string_cut [unfolded in_string_def])

lemma callbacker_round_safe:
  assumes i: "in_string buf rover"
  shows "\<exists>buf' rover' f go. callbacker_round cb buf rover count = Some (buf', rover', f, go) \<and> in_string buf' rover'"
proof -
  have l: "rover < length buf" "last buf = NUL" using i by (auto simp: in_string_def)
  consider "buf ! rover = QUOTE" | "buf ! rover = CHR '' ''" | "buf ! rover \<noteq> QUOTE" "buf ! rover \<noteq> CHR '' ''" by blast
  then show ?thesis
  proof cases
    case 1
    with i have i': "in_string buf (Suc rover)" by (auto intro: in_string_next)
    obtain r t where q: "callbacker_quote buf rover = Some (r, t)" "in_string buf r"
      using callbacker_quote_safe [OF i'] by blast
    show ?thesis
    proof (cases t)
      case None
      then show ?thesis using 1 q l by (auto simp: callbacker_round_def)
    next
      case (Some temp)
      with q callbacker_quote_bound [OF q(1)] callbacker_quote_found [of buf rover r temp] have
        t: "temp < length buf" "buf ! temp = QUOTE" by auto
      with in_string_after_cut [OF l(2)] have n: "in_string (buf[temp := NUL]) (Suc temp)" by auto
      then have "in_string (buf[temp := NUL]) (Suc (Suc temp))" if "buf[temp := NUL] ! Suc temp = CHR '',''"
        using that by (auto intro: in_string_next)
      with n show ?thesis using 1 q Some l by (auto simp: callbacker_round_def Let_def in_string_def)
    qed
  next
    case 2
    with i have "in_string buf (Suc rover)" by (auto intro: in_string_next)
    with 2 l show ?thesis by (auto simp: callbacker_round_def)
  next
    case 3
    obtain t where t: "strchr_at buf rover (CHR '','') = Some t" using in_string_search [OF i] by auto
    show ?thesis
    proof (cases t)
      case None
      with 3 t l i show ?thesis by (auto simp: callbacker_round_def)
    next
      case (Some temp)
      with t strchr_at_Some [of buf rover _ temp] have "temp < length buf" "buf ! temp = CHR '',''" by auto
      with in_string_after_cut [OF l(2)] have "in_string (buf[temp := NUL]) (Suc temp)" by auto
      with 3 t l Some show ?thesis by (auto simp: callbacker_round_def Let_def)
    qed
  qed
qed

lemma callbacker_loop_safe: "in_string buf rover \<Longrightarrow> callbacker_loop cb buf rover got \<noteq> None"
proof (induction cb buf rover got rule: callbacker_loop.induct)
  case (1 cb buf rover got)
  obtain buf' rover' f go where r: "callbacker_round cb buf rover (length got) = Some (buf', rover', f, go)"
    "in_string buf' rover'" using callbacker_round_safe [OF "1.prems"] by blast
  then have "rover' < length buf'" by (simp add: in_string_def)
  with r "1.IH" [OF r(1) refl refl refl refl] show ?case
    by (subst callbacker_loop.simps) (auto simp: Let_def)
qed

lemma next_space_safe:
  assumes "in_string buf rover"
  shows "\<exists>buf' rover' stop. next_space buf rover = Some (buf', rover', Some rover, stop) \<and> in_string buf' rover'"
proof -
  obtain t where t: "strchr_at buf rover (CHR '' '') = Some t" using in_string_search [OF assms] by auto
  have l: "last buf = NUL" using assms by (simp add: in_string_def)
  show ?thesis
  proof (cases t)
    case (Some temp)
    with t strchr_at_Some [of buf rover _ temp] have "temp < length buf" "buf ! temp = CHR '' ''" by auto
    with in_string_after_cut [OF l] t Some show ?thesis by (auto simp: next_space_def)
  qed (use t assms in \<open>auto simp: next_space_def\<close>)
qed

lemma commandline_round_safe:
  assumes i: "in_string buf rover"
  shows "\<exists>buf' rover' f stop. commandline_round buf rover = Some (buf', rover', f, stop) \<and> in_string buf' rover'"
proof -
  have l: "rover < length buf" "last buf = NUL" using i by (auto simp: in_string_def)
  consider "buf ! rover = QUOTE" | "buf ! rover = CHR '' ''" | "buf ! rover \<noteq> QUOTE" "buf ! rover \<noteq> CHR '' ''" by blast
  then show ?thesis
  proof cases
    case 1
    with in_string_after_cut [OF l(2) l(1)] have i': "in_string (buf[rover := NUL]) (Suc rover)" by simp
    obtain t where q: "closing_quote (buf[rover := NUL]) (Suc rover) = Some t" using closing_quote_safe [OF i'] by auto
    show ?thesis
    proof (cases t)
      case None
      with 1 q l i' show ?thesis by (auto simp: commandline_round_def Let_def)
    next
      case (Some temp)
      with q closing_quote_bound [of _ _ temp] closing_quote_found [of _ _ temp] have
        "temp < length (buf[rover := NUL])" "buf[rover := NUL] ! temp = QUOTE" by fastforce+
      with in_string_after_cut [of "buf[rover := NUL]" temp] i' have
        "in_string (buf[rover := NUL, temp := NUL]) (Suc temp)" by (auto simp: in_string_def)
      with 1 q l Some show ?thesis by (auto simp: commandline_round_def Let_def)
    qed
  next
    case 2
    with i have "in_string buf (Suc rover)" by (auto intro: in_string_next)
    with 2 l show ?thesis by (auto simp: commandline_round_def)
  next
    case 3
    obtain t where t: "strchr_at buf rover QUOTE = Some t" using in_string_search [OF i] by auto
    obtain t2 where t2: "strchr_at buf rover (CHR '' '') = Some t2" using in_string_search [OF i] by auto
    obtain b r s where n: "next_space buf rover = Some (b, r, Some rover, s)" "in_string b r"
      using next_space_safe [OF i] by blast
    have "in_string buf temp" if "t = Some temp" for temp
      using t that strchr_at_Some [of buf rover QUOTE temp] l by (auto simp: in_string_def)
    with 3 t t2 n l show ?thesis by (auto simp: commandline_round_def split: option.split)
  qed
qed

lemma commandline_loop_safe:
  "in_string buf rover \<Longrightarrow> length ptrs < limit \<Longrightarrow> commandline_loop limit buf rover ptrs \<noteq> None"
proof (induction limit buf rover ptrs rule: commandline_loop.induct)
  case (1 limit buf rover ptrs)
  obtain buf' rover' f stop where r: "commandline_round buf rover = Some (buf', rover', f, stop)"
    "in_string buf' rover'" using commandline_round_safe [OF "1.prems"(1)] by blast
  then have "rover' < length buf'" by (simp add: in_string_def)
  with r "1.prems" "1.IH" [OF r(1) refl refl refl refl] show ?case
    by (subst commandline_loop.simps) (auto simp: Let_def split: option.split)
qed

subsection \<open>A plain field runs over the terminator\<close>

lemma scan_chr_absent: "c \<notin> set s \<Longrightarrow> NUL \<notin> set s \<Longrightarrow> c \<noteq> NUL \<Longrightarrow> scan_chr (s @ NUL # b) c = Some None"
  by (induction s) auto

lemma strchr_at_absent:
  "c \<notin> set s \<Longrightarrow> NUL \<notin> set s \<Longrightarrow> c \<noteq> NUL \<Longrightarrow> i \<le> length s \<Longrightarrow> strchr_at (s @ [NUL]) i c = Some None"
  using scan_chr_absent [of c "drop i s" "[]"] by (auto simp: strchr_at_def dest: in_set_dropD)

text \<open>A byte that is neither a quote, a comma, a space nor NUL.\<close>

definition plain :: "string \<Rightarrow> bool" where
  "plain s \<longleftrightarrow> QUOTE \<notin> set s \<and> CHR '','' \<notin> set s \<and> CHR '' '' \<notin> set s \<and> NUL \<notin> set s"

lemma inplace_round_plain:
  assumes "plain s" "i < length s"
  shows "inplace_round (s @ [NUL]) i = Some (s @ [NUL], Suc i, Some i)"
proof -
  have "(s @ [NUL]) ! i \<in> set s" using assms by (simp add: nth_append)
  then have "(s @ [NUL]) ! i \<notin> {QUOTE, CHR '','', CHR '' ''}" using assms by (auto simp: plain_def)
  then show ?thesis using assms strchr_at_absent [of QUOTE s i] strchr_at_absent [of "CHR '',''" s i]
    by (simp add: inplace_round_def next_comma_def plain_def)
qed

lemma inplace_loop_plain:
  assumes "plain s"
  shows "i < length s \<Longrightarrow> length ptrs < limit \<Longrightarrow> inplace_loop limit (s @ [NUL]) i ptrs =
    Some (ptrs @ [i..<min (length s) (i + limit - length ptrs)], s @ [NUL])"
proof (induction "length s - i" arbitrary: i ptrs)
  case (Suc n)
  note r = inplace_round_plain [OF assms Suc.prems(1)]
  show ?case
  proof (cases "Suc i < length s \<and> Suc (length ptrs) < limit")
    case True
    have "(s @ [NUL]) ! Suc i \<noteq> NUL" using True assms by (auto simp: nth_append plain_def in_set_conv_nth)
    then have "inplace_loop limit (s @ [NUL]) i ptrs = inplace_loop limit (s @ [NUL]) (Suc i) (ptrs @ [i])"
      using True by (subst inplace_loop.simps) (simp add: r Let_def)
    moreover have "\<dots> = Some ((ptrs @ [i]) @ [Suc i..<min (length s) (Suc i + limit - length (ptrs @ [i]))], s @ [NUL])"
      using Suc.hyps True by (intro Suc.hyps(1)) auto
    moreover have "i < min (length s) (i + limit - length ptrs)" using True by auto
    ultimately show ?thesis using True Suc.prems by (simp add: upt_conv_Cons)
  next
    case False
    then have "inplace_loop limit (s @ [NUL]) i ptrs = Some (ptrs @ [i], s @ [NUL])"
      using Suc.prems by (subst inplace_loop.simps) (auto simp: r Let_def nth_append)
    moreover have "min (length s) (i + limit - length ptrs) = Suc i" using False Suc.prems by auto
    ultimately show ?thesis by simp
  qed
qed simp

subsection \<open>Properties\<close>

text \<open>
  C39. On a string that is terminated inside its buffer, \<^verbatim>\<open>qsp_callbacker\<close> and
  \<^verbatim>\<open>qsp_inplace_commandline\<close> (room for at least one pointer) end and never read beyond the terminator.
\<close>

theorem qsp_stays_in_buffer:
  assumes "input \<noteq> []" "last input = NUL" "0 < limit"
  shows "qsp_callbacker cb input \<noteq> None \<and> qsp_inplace_commandline input limit \<noteq> None"
  using assms callbacker_loop_safe [of input 0 cb "[]"] commandline_loop_safe [of input 0 "[]" limit]
  by (simp add: qsp_callbacker_def qsp_inplace_commandline_def in_string_def)

theorem qsp_stays_in_buffer_witness:
  "qsp_callbacker (\<lambda>_ _. False) (QUOTE # ''a,b'' @ QUOTE # '',c'' @ [NUL]) \<noteq> None \<and>
   qsp_inplace_commandline (QUOTE # ''a,b'' @ QUOTE # '',c'' @ [NUL]) 4 \<noteq> None"
  by (rule qsp_stays_in_buffer) auto

text \<open>
  \<^verbatim>\<open>qsp_inplace\<close> takes one byte off a last field and starts over: a field without quotes,
  commas and spaces is stored once for each of its suffixes until the pointers run out. After an empty
  string and after a lone quote it reads beyond the terminator.
\<close>

theorem qsp_inplace_overcounts:
  assumes "plain s" "s \<noteq> []" "0 < limit"
  shows "qsp_inplace (s @ [NUL]) limit = Some ([0..<min (length s) limit], s @ [NUL]) \<and>
    qsp_inplace [NUL] limit = None \<and> qsp_inplace [QUOTE, NUL] limit = None"
proof -
  have "qsp_inplace [NUL] limit = None" "qsp_inplace [QUOTE, NUL] limit = None" using assms(3)
    by (simp_all add: qsp_inplace_def inplace_loop.simps inplace_round_def strchr_at_def next_comma_def
        closing_quote.simps Let_def)
  then show ?thesis using inplace_loop_plain [OF assms(1), of 0 "[]" limit] assms by (simp add: qsp_inplace_def)
qed

theorem qsp_inplace_overcounts_witness:
  "qsp_inplace (''abc'' @ [NUL]) 8 = Some ([0, 1, 2], ''abc'' @ [NUL]) \<and>
   qsp_inplace [NUL] 8 = None \<and> qsp_inplace [QUOTE, NUL] 8 = None"
  using qsp_inplace_overcounts [of "''abc''" 8] by (simp add: plain_def upt_rec)

end
