(* ===== verification/Formdecoder.thy ===== *)
theory Formdecoder
  imports Contentdisposition
begin

section \<open>Decoded forms (\<^verbatim>\<open>src/formdecoder.c\<close>)\<close>

text \<open>
  A form decoder collects the fields of a posted form. It is the callback of a MIME decoder for
  multipart bodies; an uploaded file goes to a temporary file. The fields are structures on
  the heap that the map of fields and the pointer \<^verbatim>\<open>current_field\<close> share, so the model has an
  explicit heap, and the open descriptors and temporary files beside it. \<^verbatim>\<open>simplemap\<close> is a
  parameter: a map from names to addresses that keeps duplicates.
\<close>

subsection \<open>Memory, files and the map of fields\<close>

record field =
  data_len :: nat
  field_data :: "string option"
  mime_type :: "string option"
  filename :: "string option"
  tempfilename :: "string option"
  fd :: int

definition zero_field :: field where
  "zero_field = \<lparr>data_len = 0, field_data = None, mime_type = None, filename = None, tempfilename = None, fd = 0\<rparr>"

record world =
  heap :: "nat \<rightharpoonup> field"
  brk :: nat
  open_fds :: "int set"
  temp_files :: "string \<rightharpoonup> string"

definition alloc :: "field \<Rightarrow> world \<Rightarrow> nat \<times> world" where
  "alloc f w = (brk w, w\<lparr>heap := (heap w)(brk w \<mapsto> f), brk := brk w + 1\<rparr>)"

definition store_field :: "nat \<Rightarrow> field \<Rightarrow> world \<Rightarrow> world" where
  "store_field a f w = w\<lparr>heap := (heap w)(a \<mapsto> f)\<rparr>"

definition close_fd :: "int \<Rightarrow> world \<Rightarrow> world" where
  "close_fd n w = w\<lparr>open_fds := open_fds w - {n}\<rparr>"

record 'm simplemap_ops =
  simplemap_create :: "nat \<Rightarrow> 'm"
  simplemap_append :: "'m \<Rightarrow> string \<Rightarrow> nat \<Rightarrow> 'm"
  simplemap_findfromkey :: "'m \<Rightarrow> string \<Rightarrow> nat \<Rightarrow> nat option"
  simplemap_removebykey :: "'m \<Rightarrow> string \<Rightarrow> nat \<Rightarrow> (nat \<times> 'm) option"
  simplemap_addorreplace :: "'m \<Rightarrow> string \<Rightarrow> nat \<Rightarrow> nat \<Rightarrow> int \<times> nat option \<times> 'm"
  simplemap_count :: "'m \<Rightarrow> nat"
  simplemap_entries :: "'m \<Rightarrow> (string \<times> nat) list"

text \<open>
  What is relied on: appending appends, finding gives the value at a position among those of the
  key, and counting counts. \<open>simplemap_entries\<close> lists the entries in the order in which
  \<^verbatim>\<open>simplemap_dispose_cb\<close> hands them out.
\<close>

definition key_values :: "(string \<times> 'a) list \<Rightarrow> string \<Rightarrow> 'a list" where
  "key_values es key = map snd (filter (\<lambda>e. fst e = key) es)"

definition simplemap_laws :: "'m simplemap_ops \<Rightarrow> bool" where
  "simplemap_laws S \<longleftrightarrow>
     (\<forall>n. simplemap_entries S (simplemap_create S n) = []) \<and>
     (\<forall>m key a. simplemap_entries S (simplemap_append S m key a) = simplemap_entries S m @ [(key, a)]) \<and>
     (\<forall>m key i. simplemap_findfromkey S m key i =
        (let vs = key_values (simplemap_entries S m) key in if i < length vs then Some (vs ! i) else None)) \<and>
     (\<forall>m. simplemap_count S m = length (simplemap_entries S m))"

definition list_simplemap :: "(string \<times> nat) list simplemap_ops" where
  "list_simplemap = \<lparr>simplemap_create = (\<lambda>_. []), simplemap_append = (\<lambda>m key a. m @ [(key, a)]),
     simplemap_findfromkey = (\<lambda>m key i. let vs = key_values m key in if i < length vs then Some (vs ! i) else None),
     simplemap_removebykey = (\<lambda>m key i.
       case find (\<lambda>e. fst e = key) m of None \<Rightarrow> None | Some e \<Rightarrow> Some (snd e, remove1 e m)),
     simplemap_addorreplace = (\<lambda>m key i a.
       case find (\<lambda>e. fst e = key) m of
         None \<Rightarrow> (0, None, m @ [(key, a)])
       | Some e \<Rightarrow> (0, Some (snd e), map (\<lambda>x. if x = e then (key, a) else x) m)),
     simplemap_count = length, simplemap_entries = (\<lambda>m. m)\<rparr>"

lemma list_simplemap_laws: "simplemap_laws list_simplemap"
  by (simp add: simplemap_laws_def list_simplemap_def)

lemma simplemap_lawsD:
  assumes "simplemap_laws S"
  shows "simplemap_entries S (simplemap_create S n) = []"
    "simplemap_entries S (simplemap_append S m key a) = simplemap_entries S m @ [(key, a)]"
    "simplemap_findfromkey S m key i =
        (let vs = key_values (simplemap_entries S m) key in if i < length vs then Some (vs ! i) else None)"
    "simplemap_count S m = length (simplemap_entries S m)"
  using assms by (simp_all add: simplemap_laws_def)

subsection \<open>The decoder\<close>

definition FORMDECODER_MULTIPART :: int where
  "FORMDECODER_MULTIPART = 0"

definition FORMDECODER_QUERYSTRING :: int where
  "FORMDECODER_QUERYSTRING = 1"

record ('d, 'm, 'q) formdecoder_context =
  form_type :: int
  form_fields :: 'm
  current_field :: "nat option"
  current_field_data :: 'd
  form_buf :: "string option"
  qsctx :: "'q option"
  save_files :: bool

definition formdecoder_init :: "'d dynstring_ops \<Rightarrow> 'm simplemap_ops \<Rightarrow> bool \<Rightarrow> ('d, 'm, 'q) formdecoder_context option" where
  "formdecoder_init D S malloc_ok =
     (if \<not> malloc_ok then None
      else Some \<lparr>form_type = FORMDECODER_MULTIPART, form_fields = simplemap_create S 10, current_field = None,
             current_field_data = ds_initialisezero D, form_buf = None, qsctx = None, save_files = False\<rparr>)"

text \<open>\<open>None\<close> is a dangling pointer.\<close>

definition formdecoder_dispose_formfield :: "nat \<Rightarrow> world \<Rightarrow> world option" where
  "formdecoder_dispose_formfield a w =
     (case heap w a of
        None \<Rightarrow> None
      | Some f \<Rightarrow>
          let w = (if fd f \<noteq> -1 then close_fd (fd f) w else w);
              w = (case tempfilename f of
                     None \<Rightarrow> w
                   | Some t \<Rightarrow> w\<lparr>temp_files := (temp_files w)(t := None)\<rparr>)
          in Some (w\<lparr>heap := (heap w)(a := None)\<rparr>))"

fun dispose_fields :: "nat list \<Rightarrow> world \<Rightarrow> world option" where
  "dispose_fields [] w = Some w"
| "dispose_fields (a # as) w = Option.bind (formdecoder_dispose_formfield a w) (dispose_fields as)"

definition formdecoder_dispose ::
  "'m simplemap_ops \<Rightarrow> ('d, 'm, 'q) formdecoder_context option \<Rightarrow> world \<Rightarrow> world option" where
  "formdecoder_dispose S ctx w =
     (case ctx of
        None \<Rightarrow> Some w
      | Some c \<Rightarrow> dispose_fields (map snd (simplemap_entries S (form_fields c))) w)"

text \<open>Taking a field out: its length and data are handed over, the structure is freed.\<close>

definition formdecoder_takefieldvalue ::
  "'m simplemap_ops \<Rightarrow> ('d, 'm, 'q) formdecoder_context \<Rightarrow> string \<Rightarrow> world \<Rightarrow>
   (int \<times> (nat \<times> string option) option \<times> ('d, 'm, 'q) formdecoder_context \<times> world) option" where
  "formdecoder_takefieldvalue S ctx key w =
     (case simplemap_removebykey S (form_fields ctx) key 0 of
        None \<Rightarrow> Some (-1, None, ctx, w)
      | Some (a, m) \<Rightarrow>
          (case heap w a of
             None \<Rightarrow> None
           | Some f \<Rightarrow> Some (0, Some (data_len f, field_data f), ctx\<lparr>form_fields := m\<rparr>,
                            w\<lparr>heap := (heap w)(a := None)\<rparr>)))"

text \<open>The new structure is zeroed, descriptor 0 included.\<close>

definition formdecoder_setfield ::
  "'m simplemap_ops \<Rightarrow> bool \<Rightarrow> ('d, 'm, 'q) formdecoder_context \<Rightarrow> string \<Rightarrow> nat \<Rightarrow> string option \<Rightarrow> world \<Rightarrow>
   (int \<times> ('d, 'm, 'q) formdecoder_context \<times> world) option" where
  "formdecoder_setfield S malloc_ok ctx key len dat w =
     (if simplemap_findfromkey S (form_fields ctx) key 0 \<noteq> None then Some (-1, ctx, w)
      else if \<not> malloc_ok then Some (-1, ctx, w)
      else
        let (a, w) = alloc (zero_field\<lparr>field_data := dat, data_len := len\<rparr>) w;
            (res, replaced, m) = simplemap_addorreplace S (form_fields ctx) key 0 a;
            ctx = ctx\<lparr>form_fields := m\<rparr>
        in case replaced of
             None \<Rightarrow> Some (res, ctx, w)
           | Some old \<Rightarrow> map_option (\<lambda>w. (res, ctx, w)) (formdecoder_dispose_formfield old w))"

text \<open>\<open>Some (rc, found)\<close>: the length and data written through the pointers when the code is 0.\<close>

definition formdecoder_getfield ::
  "'m simplemap_ops \<Rightarrow> 'q querystring_ops \<Rightarrow> ('d, 'm, 'q) formdecoder_context \<Rightarrow> string \<Rightarrow> world \<Rightarrow>
   (int \<times> (nat \<times> string option) option) option" where
  "formdecoder_getfield S Q ctx key w =
     (if form_type ctx = FORMDECODER_QUERYSTRING then
        (case querystring_getbykey Q (qsctx ctx) key of
           Some field_value \<Rightarrow> Some (0, Some (length field_value, Some field_value))
         | None \<Rightarrow> Some (-1, None))
      else if form_type ctx = FORMDECODER_MULTIPART then
        (case simplemap_findfromkey S (form_fields ctx) key 0 of
           None \<Rightarrow> Some (-1, None)
         | Some a \<Rightarrow> map_option (\<lambda>f. (0, Some (data_len f, field_data f))) (heap w a))
      else Some (-1, None))"

definition formdecoder_getfieldex ::
  "'m simplemap_ops \<Rightarrow> ('d, 'm, 'q) formdecoder_context \<Rightarrow> string \<Rightarrow> nat \<Rightarrow> nat option" where
  "formdecoder_getfieldex S ctx key idx =
     (if form_type ctx = FORMDECODER_MULTIPART then simplemap_findfromkey S (form_fields ctx) key idx else None)"

definition formdecoder_fieldcount :: "'m simplemap_ops \<Rightarrow> ('d, 'm, 'q) formdecoder_context \<Rightarrow> nat" where
  "formdecoder_fieldcount S ctx = simplemap_count S (form_fields ctx)"

subsection \<open>The callback of the MIME decoder\<close>

datatype mime_event = HEADER string string | ELEMENT_BEGIN | ELEMENT_CHUNK string | ELEMENT_END | OTHER

text \<open>
  The surroundings of the calls: the name and descriptor \<^verbatim>\<open>mkstemp\<close> gives, and the number of
  bytes \<^verbatim>\<open>write\<close> takes of those it is offered (negative for an error).
\<close>

record fd_env =
  malloc_works :: bool
  mkstemp_result :: "world \<Rightarrow> (string \<times> int) option"
  write_result :: "nat \<Rightarrow> int"

type_synonym ('d, 'm, 'q) decoding = "(int \<times> ('d, 'm, 'q) formdecoder_context \<times> world) option"

definition disposition_name ::
  "'d dynstring_ops \<Rightarrow> 'm simplemap_ops \<Rightarrow> fd_env \<Rightarrow> string \<Rightarrow> ('d, 'm, 'q) formdecoder_context \<Rightarrow> world \<Rightarrow>
   ('d, 'm, 'q) decoding" where
  "disposition_name D S env header ctx w =
     (case contentdisposition_getname D header of
        None \<Rightarrow> None
      | Some None \<Rightarrow> Some (0, ctx, w)
      | Some (Some name) \<Rightarrow>
          if current_field ctx \<noteq> None then Some (-1, ctx, w)
          else if \<not> malloc_works env then Some (-1, ctx, w)
          else let (a, w) = alloc (zero_field\<lparr>fd := -1\<rparr>) w
               in Some (0, ctx\<lparr>current_field := Some a, form_fields := simplemap_append S (form_fields ctx) name a\<rparr>, w))"

definition disposition_filename ::
  "'d dynstring_ops \<Rightarrow> fd_env \<Rightarrow> string \<Rightarrow> ('d, 'm, 'q) formdecoder_context \<Rightarrow> world \<Rightarrow> ('d, 'm, 'q) decoding" where
  "disposition_filename D env header ctx w =
     (case contentdisposition_getfilename D header of
        None \<Rightarrow> None
      | Some found \<Rightarrow>
          (case (current_field ctx, found) of
             (Some a, Some name) \<Rightarrow>
               if \<not> save_files ctx then Some (0, ctx, w)
               else
                 (case heap w a of
                    None \<Rightarrow> None
                  | Some f \<Rightarrow>
                      let f = f\<lparr>filename := Some name\<rparr>
                      in case mkstemp_result env w of
                           None \<Rightarrow> Some (-1, ctx, store_field a f w)
                         | Some (t, n) \<Rightarrow>
                             Some (0, ctx, store_field a (f\<lparr>tempfilename := Some t, fd := n\<rparr>)
                               (w\<lparr>open_fds := insert n (open_fds w), temp_files := (temp_files w)(t \<mapsto> [])\<rparr>)))
           | _ \<Rightarrow> Some (0, ctx, w)))"

definition header_event ::
  "'d dynstring_ops \<Rightarrow> 'm simplemap_ops \<Rightarrow> fd_env \<Rightarrow> string \<Rightarrow> string \<Rightarrow> ('d, 'm, 'q) formdecoder_context \<Rightarrow> world \<Rightarrow>
   ('d, 'm, 'q) decoding" where
  "header_event D S env name header ctx w =
     (if strncmp0 (length name) (cstr name) ''Content-Disposition'' then
        if strncmp0 9 header ''form-data'' then
          (case disposition_name D S env header ctx w of
             None \<Rightarrow> None
           | Some (rc, ctx, w) \<Rightarrow>
               if rc \<noteq> 0 then Some (rc, ctx, w) else disposition_filename D env header ctx w)
        else Some (0, ctx, w)
      else if strncmp0 (length name) (cstr name) ''Content-Type'' then
        (case current_field ctx of
           None \<Rightarrow> None
         | Some a \<Rightarrow>
             map_option (\<lambda>f. (0, ctx, store_field a (f\<lparr>mime_type := Some header\<rparr>) w)) (heap w a))
      else Some (0, ctx, w))"

definition begin_event ::
  "'d dynstring_ops \<Rightarrow> ('d, 'm, 'q) formdecoder_context \<Rightarrow> world \<Rightarrow> ('d, 'm, 'q) decoding" where
  "begin_event D ctx w =
     (case current_field ctx of
        None \<Rightarrow> Some (-1, ctx, w)
      | Some a \<Rightarrow>
          if ds_allocated D (current_field_data ctx) then Some (-1, ctx, w)
          else map_option (\<lambda>f. (0, if fd f = -1 then ctx\<lparr>current_field_data := snd (ds_initialise D 64)\<rparr> else ctx, w))
                 (heap w a))"

definition chunk_event ::
  "'d dynstring_ops \<Rightarrow> fd_env \<Rightarrow> string \<Rightarrow> ('d, 'm, 'q) formdecoder_context \<Rightarrow> world \<Rightarrow> ('d, 'm, 'q) decoding" where
  "chunk_event D env bytes ctx w =
     (case current_field ctx of
        None \<Rightarrow> Some (-1, ctx, w)
      | Some a \<Rightarrow>
          (case heap w a of
             None \<Rightarrow> None
           | Some f \<Rightarrow>
               let w = store_field a (f\<lparr>data_len := data_len f + length bytes\<rparr>) w
               in if fd f = -1 then
                    Some (0, ctx\<lparr>current_field_data := ds_appendstring D (current_field_data ctx) bytes\<rparr>, w)
                  else
                    let rc = write_result env (length bytes);
                        w = (case tempfilename f of
                               None \<Rightarrow> w
                             | Some t \<Rightarrow>
                                 w\<lparr>temp_files := (temp_files w)(t := map_option (\<lambda>c. c @ take (nat rc) bytes) (temp_files w t))\<rparr>)
                    in if rc \<noteq> int (length bytes) then Some (-1, ctx, w) else Some (0, ctx, w)))"

text \<open>The detached buffer becomes the data of the field, with all its bytes.\<close>

definition end_event ::
  "'d dynstring_ops \<Rightarrow> ('d, 'm, 'q) formdecoder_context \<Rightarrow> world \<Rightarrow> ('d, 'm, 'q) decoding" where
  "end_event D ctx w =
     (case current_field ctx of
        None \<Rightarrow> Some (0, ctx, w)
      | Some a \<Rightarrow>
          (case heap w a of
             None \<Rightarrow> None
           | Some f \<Rightarrow>
               if fd f = -1 then
                 let dat = current_field_data ctx
                 in Some (0, ctx\<lparr>current_field := None, current_field_data := ds_detached D dat\<rparr>,
                       store_field a (f\<lparr>data_len := length (ds_bytes D dat), field_data := Some (ds_bytes D dat)\<rparr>) w)
               else Some (0, ctx\<lparr>current_field := None\<rparr>, store_field a (f\<lparr>fd := -1\<rparr>) (close_fd (fd f) w))))"

definition formdecoder_mimedecoder_callback ::
  "'d dynstring_ops \<Rightarrow> 'm simplemap_ops \<Rightarrow> fd_env \<Rightarrow> mime_event \<Rightarrow> ('d, 'm, 'q) formdecoder_context \<Rightarrow> world \<Rightarrow>
   ('d, 'm, 'q) decoding" where
  "formdecoder_mimedecoder_callback D S env event ctx w =
     (case event of
        HEADER name header \<Rightarrow> header_event D S env name (cstr header) ctx w
      | ELEMENT_BEGIN \<Rightarrow> begin_event D ctx w
      | ELEMENT_CHUNK bytes \<Rightarrow> chunk_event D env bytes ctx w
      | ELEMENT_END \<Rightarrow> end_event D ctx w
      | OTHER \<Rightarrow> Some (-1, ctx, w))"

text \<open>The callback over a sequence of events, stopping at the first it refuses.\<close>

fun run_events ::
  "'d dynstring_ops \<Rightarrow> 'm simplemap_ops \<Rightarrow> fd_env \<Rightarrow> mime_event list \<Rightarrow> ('d, 'm, 'q) formdecoder_context \<Rightarrow> world \<Rightarrow>
   ('d, 'm, 'q) decoding" where
  "run_events D S env [] ctx w = Some (0, ctx, w)"
| "run_events D S env (e # es) ctx w =
     (case formdecoder_mimedecoder_callback D S env e ctx w of
        None \<Rightarrow> None
      | Some (rc, ctx, w) \<Rightarrow> if rc \<noteq> 0 then Some (rc, ctx, w) else run_events D S env es ctx w)"

subsection \<open>Descriptors and temporary files\<close>

text \<open>
  What a decoder that started in world \<open>w0\<close> holds: its fields are distinct allocations, only the
  current one may have an open descriptor, and beyond what was open and stored before
  there are exactly the descriptors and temporary files its fields name.
\<close>

definition addresses :: "'m simplemap_ops \<Rightarrow> ('d, 'm, 'q) formdecoder_context \<Rightarrow> nat list" where
  "addresses S ctx = map snd (simplemap_entries S (form_fields ctx))"

definition owned_fds :: "nat list \<Rightarrow> world \<Rightarrow> int set" where
  "owned_fds as w = {n. n \<noteq> -1 \<and> (\<exists>a\<in>set as. \<exists>f. heap w a = Some f \<and> fd f = n)}"

definition owned_files :: "nat list \<Rightarrow> world \<Rightarrow> string set" where
  "owned_files as w = {t. \<exists>a\<in>set as. \<exists>f. heap w a = Some f \<and> tempfilename f = Some t}"

definition holds_only :: "world \<Rightarrow> nat list \<Rightarrow> world \<Rightarrow> bool" where
  "holds_only w0 as w \<longleftrightarrow>
     open_fds w = open_fds w0 \<union> owned_fds as w \<and> open_fds w0 \<inter> owned_fds as w = {} \<and>
     (\<forall>t. temp_files w0 t = (if t \<in> owned_files as w then None else temp_files w t))"

definition form_inv :: "'m simplemap_ops \<Rightarrow> world \<Rightarrow> ('d, 'm, 'q) formdecoder_context \<Rightarrow> world \<Rightarrow> bool" where
  "form_inv S w0 ctx w \<longleftrightarrow>
     distinct (addresses S ctx) \<and>
     (\<forall>a\<in>set (addresses S ctx). a < brk w \<and> (\<exists>f. heap w a = Some f \<and> (fd f \<noteq> -1 \<longrightarrow> current_field ctx = Some a))) \<and>
     (\<forall>a. current_field ctx = Some a \<longrightarrow> a \<in> set (addresses S ctx)) \<and>
     holds_only w0 (addresses S ctx) w"

lemma dispose_formfield:
  assumes "heap w a = Some f"
  obtains w' where "formdecoder_dispose_formfield a w = Some w'"
    "\<And>x. heap w' x = (if x = a then None else heap w x)"
    "open_fds w' = open_fds w - (if fd f \<noteq> -1 then {fd f} else {})"
    "\<And>t. temp_files w' t = (if tempfilename f = Some t then None else temp_files w t)"
  using assms by (auto simp: formdecoder_dispose_formfield_def close_fd_def Let_def split: option.splits if_splits)

lemma dispose_one:
  assumes "holds_only w0 (a # as) w" "heap w a = Some f" "a \<notin> set as" "fd f = -1 \<or> fd f \<notin> owned_fds as w"
  shows "\<exists>w'. formdecoder_dispose_formfield a w = Some w' \<and> holds_only w0 as w' \<and>
    (\<forall>x. x \<noteq> a \<longrightarrow> heap w' x = heap w x)"
proof -
  from dispose_formfield [OF assms(2)] obtain w' where d: "formdecoder_dispose_formfield a w = Some w'"
    and h: "\<And>x. heap w' x = (if x = a then None else heap w x)"
    and o: "open_fds w' = open_fds w - (if fd f \<noteq> -1 then {fd f} else {})"
    and t: "\<And>t. temp_files w' t = (if tempfilename f = Some t then None else temp_files w t)"
    by metis
  have fds: "owned_fds (a # as) w = owned_fds as w \<union> (if fd f \<noteq> -1 then {fd f} else {})"
    using assms(2) by (auto simp: owned_fds_def)
  have files: "s \<in> owned_files (a # as) w \<longleftrightarrow> s \<in> owned_files as w \<or> tempfilename f = Some s" for s
    using assms(2) by (auto simp: owned_files_def)
  have same: "heap w' x = heap w x" if "x \<in> set as" for x using that assms(3) h by auto
  then have same: "owned_fds as w' = owned_fds as w" "owned_files as w' = owned_files as w"
    by (auto simp: owned_fds_def owned_files_def)
  have "holds_only w0 as w'"
    using assms(1,4) unfolding holds_only_def same o t fds files by (auto split: if_splits)
  with d h show ?thesis by auto
qed

lemma dispose_all:
  assumes "holds_only w0 as w" "distinct as" "\<forall>a\<in>set as. \<exists>f. heap w a = Some f"
    and "\<forall>a\<in>set as. \<forall>f. heap w a = Some f \<longrightarrow> fd f \<noteq> -1 \<longrightarrow> c = Some a"
  shows "\<exists>w'. dispose_fields as w = Some w' \<and> open_fds w' = open_fds w0 \<and> temp_files w' = temp_files w0"
  using assms
proof (induction as arbitrary: w)
  case Nil
  then show ?case by (auto simp: holds_only_def owned_fds_def owned_files_def)
next
  case (Cons a as)
  then obtain f where f: "heap w a = Some f" by auto
  have "fd f = -1 \<or> fd f \<notin> owned_fds as w"
    using Cons.prems(2,4) f by (fastforce simp: owned_fds_def)
  from dispose_one [OF Cons.prems(1) f _ this] Cons.prems(2) obtain w' where
    w': "formdecoder_dispose_formfield a w = Some w'" "holds_only w0 as w'" "\<forall>x. x \<noteq> a \<longrightarrow> heap w' x = heap w x"
    by auto
  have "heap w' x = heap w x" if "x \<in> set as" for x using that w'(3) Cons.prems(2) by auto
  then have "\<exists>w''. dispose_fields as w' = Some w'' \<and> open_fds w'' = open_fds w0 \<and> temp_files w'' = temp_files w0"
    using Cons.prems(2-4) w'(2) by (intro Cons.IH) auto
  then show ?case using w'(1) by simp
qed

lemma dispose_restores:
  assumes "form_inv S w0 ctx w"
  shows "\<exists>w'. formdecoder_dispose S (Some ctx) w = Some w' \<and> open_fds w' = open_fds w0 \<and> temp_files w' = temp_files w0"
  using assms dispose_all [of w0 "addresses S ctx" w "current_field ctx"]
  by (fastforce simp: form_inv_def formdecoder_dispose_def addresses_def)

definition fresh_files :: "fd_env \<Rightarrow> bool" where
  "fresh_files env \<longleftrightarrow> (\<forall>w t n. mkstemp_result env w = Some (t, n) \<longrightarrow>
     n \<noteq> -1 \<and> n \<notin> open_fds w \<and> temp_files w t = None)"

lemma owned_at:
  assumes "a \<in> set as" "heap w a = Some f"
  shows "owned_fds as w = (if fd f = -1 then {} else {fd f}) \<union> owned_fds (removeAll a as) w"
    "owned_files as w = {t. tempfilename f = Some t} \<union> owned_files (removeAll a as) w"
  using assms by (auto simp: owned_fds_def owned_files_def)

lemma owned_same:
  assumes "\<And>x. x \<in> set as \<Longrightarrow> heap w' x = heap w x"
  shows "owned_fds as w' = owned_fds as w" "owned_files as w' = owned_files as w"
  using assms by (auto simp: owned_fds_def owned_files_def)

lemma owned_update:
  assumes "a \<in> set as" "\<And>x. heap w' x = (if x = a then Some f' else heap w x)"
  shows "owned_fds as w' = (if fd f' = -1 then {} else {fd f'}) \<union> owned_fds (removeAll a as) w"
    "owned_files as w' = {t. tempfilename f' = Some t} \<union> owned_files (removeAll a as) w"
  using owned_at [of a as w' f'] owned_same [of "removeAll a as" w' w] assms by auto

lemma inv_update:
  assumes "form_inv S w0 ctx w" "a \<in> set (addresses S ctx)" "heap w a = Some f"
    and "fd f' = fd f" "tempfilename f' = tempfilename f"
    and "form_fields ctx' = form_fields ctx" "current_field ctx' = current_field ctx"
    and "heap w' = (heap w)(a \<mapsto> f')" "brk w' = brk w" "open_fds w' = open_fds w"
    and "\<And>t. tempfilename f \<noteq> Some t \<Longrightarrow> temp_files w' t = temp_files w t"
  shows "form_inv S w0 ctx' w'"
proof -
  have ad: "addresses S ctx' = addresses S ctx" using assms(6) by (simp add: addresses_def)
  have same: "owned_fds (addresses S ctx) w' = owned_fds (addresses S ctx) w"
    "owned_files (addresses S ctx) w' = owned_files (addresses S ctx) w"
    using owned_at [OF assms(2,3)] owned_update [OF assms(2), of w' f' w] assms(4,5,8) by auto
  have "tempfilename f = Some t \<Longrightarrow> t \<in> owned_files (addresses S ctx) w" for t
    using assms(2,3) by (auto simp: owned_files_def)
  then have "holds_only w0 (addresses S ctx) w'"
    using assms(1,10,11) unfolding form_inv_def holds_only_def same by metis
  then show ?thesis
    using assms(1,3,4) unfolding form_inv_def ad assms(7,8,9) by fastforce
qed

lemma inv_context:
  "form_inv S w0 ctx w \<Longrightarrow> form_fields ctx' = form_fields ctx \<Longrightarrow> current_field ctx' = current_field ctx \<Longrightarrow>
   form_inv S w0 ctx' w"
  by (simp add: form_inv_def addresses_def)

lemma inv_alloc:
  assumes "form_inv S w0 ctx w" "simplemap_laws S" "current_field ctx = None"
    and "form_fields ctx' = simplemap_append S (form_fields ctx) name (brk w)" "current_field ctx' = Some (brk w)"
  shows "form_inv S w0 ctx' (snd (alloc (zero_field\<lparr>fd := -1\<rparr>) w))"
proof -
  let ?as = "addresses S ctx" and ?w = "snd (alloc (zero_field\<lparr>fd := -1\<rparr>) w)"
  have ad: "addresses S ctx' = ?as @ [brk w]"
    using assms(2,4) by (simp add: addresses_def simplemap_lawsD)
  have n: "brk w \<notin> set ?as" using assms(1) by (auto simp: form_inv_def)
  then have h: "heap ?w a = heap w a" if "a \<in> set ?as" for a
    using that by (auto simp: alloc_def)
  have "owned_fds (?as @ [brk w]) ?w = owned_fds ?as w" "owned_files (?as @ [brk w]) ?w = owned_files ?as w"
    using h by (auto simp: owned_fds_def owned_files_def alloc_def zero_field_def split: if_splits)
  then have "holds_only w0 (?as @ [brk w]) ?w"
    using assms(1) by (simp add: form_inv_def holds_only_def) (simp add: alloc_def)
  moreover have "a < brk ?w \<and> (\<exists>f. heap ?w a = Some f \<and> (fd f \<noteq> -1 \<longrightarrow> current_field ctx' = Some a))"
    if "a \<in> set (?as @ [brk w])" for a
  proof (cases "a = brk w")
    case True
    then show ?thesis by (simp add: alloc_def)
  next
    case False
    with that have "a \<in> set ?as" by simp
    then show ?thesis
      using assms(1,3) h [of a] by (fastforce simp: form_inv_def alloc_def)
  qed
  ultimately show ?thesis
    using assms(1,5) n unfolding form_inv_def ad by simp
qed

lemma inv_open_file:
  assumes "form_inv S w0 ctx w" "current_field ctx = Some a" "heap w a = Some f" "fd f = -1" "tempfilename f = None"
    and "n \<noteq> -1" "n \<notin> open_fds w" "temp_files w t = None" "fd f' = n" "tempfilename f' = Some t"
  shows "form_inv S w0 ctx (store_field a f' (w\<lparr>open_fds := insert n (open_fds w), temp_files := (temp_files w)(t \<mapsto> [])\<rparr>))"
    (is "form_inv S w0 ctx ?w")
proof -
  let ?as = "addresses S ctx"
  have a: "a \<in> set ?as" using assms(1,2) by (simp add: form_inv_def)
  have h: "heap ?w x = (if x = a then Some f' else heap w x)" for x by (simp add: store_field_def)
  have "owned_fds ?as ?w = insert n (owned_fds ?as w)" "owned_files ?as ?w = insert t (owned_files ?as w)"
    using owned_at [OF a assms(3)] owned_update [OF a h] assms(4-6,9,10) by auto
  moreover have "n \<notin> open_fds w0" "temp_files w0 t = None"
    using assms(1,7,8) by (auto simp: form_inv_def holds_only_def)
  ultimately have "holds_only w0 ?as ?w"
    using assms(1) unfolding form_inv_def holds_only_def by (auto simp: store_field_def)
  then show ?thesis
    using assms(1,2) by (auto simp: form_inv_def store_field_def)
qed

lemma inv_close:
  assumes "form_inv S w0 ctx w" "current_field ctx = Some a" "heap w a = Some f"
    and "fd f' = -1" "tempfilename f' = tempfilename f" "form_fields ctx' = form_fields ctx" "current_field ctx' = None"
  shows "form_inv S w0 ctx' (store_field a f' (if fd f \<noteq> -1 then close_fd (fd f) w else w))"
    (is "form_inv S w0 ctx' ?w")
proof -
  let ?as = "addresses S ctx"
  have ad: "addresses S ctx' = ?as" using assms(6) by (simp add: addresses_def)
  have a: "a \<in> set ?as" using assms(1,2) by (simp add: form_inv_def)
  have only: "fd g = -1" if "x \<in> set ?as" "heap w x = Some g" "x \<noteq> a" for x g
    using that assms(1,2) by (auto simp: form_inv_def)
  have h: "heap ?w x = (if x = a then Some f' else heap w x)" for x
    by (simp add: store_field_def close_fd_def)
  have b: "brk ?w = brk w" "temp_files ?w = temp_files w" by (simp_all add: store_field_def close_fd_def)
  have "owned_fds (removeAll a ?as) w = {}"
    using only by (auto simp: owned_fds_def)
  then have "owned_fds ?as ?w = {}" "owned_fds ?as w = (if fd f \<noteq> -1 then {fd f} else {})"
    "owned_files ?as ?w = owned_files ?as w"
    using owned_at [OF a assms(3)] owned_update [OF a h] assms(4,5) by auto
  then have "holds_only w0 ?as ?w"
    using assms(1) unfolding form_inv_def holds_only_def by (auto simp: store_field_def close_fd_def split: if_splits)
  moreover have "x < brk ?w \<and> (\<exists>g. heap ?w x = Some g \<and> fd g = -1)" if "x \<in> set ?as" for x
    using that assms(1,4) only h b by (fastforce simp: form_inv_def)
  ultimately show ?thesis
    using assms(1,7) unfolding form_inv_def ad by auto
qed


text \<open>
  The events that keep it. A part may carry one \<^verbatim>\<open>Content-Disposition\<close> header; the flag tells
  whether the current part has had its own.
\<close>

definition is_disposition :: "string \<Rightarrow> bool" where
  "is_disposition name \<longleftrightarrow> strncmp0 (length name) (cstr name) ''Content-Disposition''"

fun one_disposition :: "bool \<Rightarrow> mime_event list \<Rightarrow> bool" where
  "one_disposition seen [] = True"
| "one_disposition seen (HEADER name v # es) =
     (if is_disposition name then \<not> seen \<and> one_disposition True es else one_disposition seen es)"
| "one_disposition seen (ELEMENT_END # es) = one_disposition False es"
| "one_disposition seen (e # es) = one_disposition seen es"

lemma name_inv:
  assumes "form_inv S w0 ctx w" "simplemap_laws S" "current_field ctx = None"
    and "disposition_name D S env header ctx w = Some (rc, ctx', w')"
  shows "form_inv S w0 ctx' w' \<and>
    (\<forall>a. current_field ctx' = Some a \<longrightarrow> (\<exists>f. heap w' a = Some f \<and> fd f = -1 \<and> tempfilename f = None))"
proof (cases "w' = w \<and> ctx' = ctx")
  case True
  then show ?thesis using assms by simp
next
  case False
  then obtain name where c: "w' = snd (alloc (zero_field\<lparr>fd := -1\<rparr>) w)"
    "ctx' = ctx\<lparr>current_field := Some (brk w), form_fields := simplemap_append S (form_fields ctx) name (brk w)\<rparr>"
    using assms(4) by (auto simp: disposition_name_def alloc_def split: option.splits if_splits)
  then have "form_inv S w0 ctx' w'" using inv_alloc [OF assms(1-3), of ctx' name] by simp
  moreover have "heap w' (brk w) = Some (zero_field\<lparr>fd := -1\<rparr>)" using c(1) by (simp add: alloc_def)
  ultimately show ?thesis using c(2) by (simp add: zero_field_def)
qed

lemma filename_inv:
  assumes "form_inv S w0 ctx w" "fresh_files env"
    and "\<forall>a. current_field ctx = Some a \<longrightarrow> (\<exists>f. heap w a = Some f \<and> fd f = -1 \<and> tempfilename f = None)"
    and "disposition_filename D env header ctx w = Some (rc, ctx', w')"
  shows "form_inv S w0 ctx' w'"
proof (cases "\<exists>a f name. contentdisposition_getfilename D header = Some (Some name) \<and> save_files ctx \<and>
    current_field ctx = Some a \<and> heap w a = Some f")
  case False
  then have "ctx' = ctx" "w' = w"
    using assms(4) by (simp_all add: disposition_filename_def split: option.splits if_splits)
  then show ?thesis using assms(1) by simp
next
  case True
  then obtain a f name where c: "contentdisposition_getfilename D header = Some (Some name)" "save_files ctx"
    "current_field ctx = Some a" "heap w a = Some f"
    by blast
  then have ctx: "ctx' = ctx"
    using assms(4) by (simp add: disposition_filename_def Let_def split: option.splits prod.splits)
  consider "mkstemp_result env w = None" "w' = store_field a (f\<lparr>filename := Some name\<rparr>) w"
    | t n where "mkstemp_result env w = Some (t, n)"
      "w' = store_field a (f\<lparr>filename := Some name, tempfilename := Some t, fd := n\<rparr>)
         (w\<lparr>open_fds := insert n (open_fds w), temp_files := (temp_files w)(t \<mapsto> [])\<rparr>)"
    using assms(4) c by (cases "mkstemp_result env w") (auto simp: disposition_filename_def)
  then show ?thesis
  proof cases
    case 1
    moreover from c(3) assms(1) have "a \<in> set (addresses S ctx)" by (simp add: form_inv_def)
    ultimately show ?thesis
      using inv_update [OF assms(1) _ c(4), of "f\<lparr>filename := Some name\<rparr>" ctx w'] ctx by (simp add: store_field_def)
  next
    case (2 t n)
    with c assms(3) have "fd f = -1" "tempfilename f = None" by auto
    with 2 assms(2) show ?thesis
      unfolding ctx 2(2) by (intro inv_open_file [OF assms(1) c(3,4)]) (auto simp: fresh_files_def)
  qed
qed

lemma content_type_event:
  assumes "\<not> is_disposition name"
  shows "header_event D S env name header ctx w =
      (if strncmp0 (length name) (cstr name) ''Content-Type'' then
        (case current_field ctx of
           None \<Rightarrow> None
         | Some a \<Rightarrow>
             map_option (\<lambda>f. (0, ctx, store_field a (f\<lparr>mime_type := Some header\<rparr>) w)) (heap w a))
      else Some (0, ctx, w))"
  using assms by (simp add: header_event_def is_disposition_def)

lemma disposition_event:
  assumes "is_disposition name" "current_field ctx = None"
  shows "header_event D S env name header ctx w =
     (if strncmp0 9 header ''form-data'' then
        (case disposition_name D S env header ctx w of
           None \<Rightarrow> None
         | Some (rc, ctx, w) \<Rightarrow>
             if rc \<noteq> 0 then Some (rc, ctx, w) else disposition_filename D env header ctx w)
      else Some (0, ctx, w))"
  using assms(1) by (simp add: header_event_def is_disposition_def)

lemma content_type_inv:
  assumes "form_inv S w0 ctx w" "\<not> is_disposition name" "header_event D S env name header ctx w = Some (rc, ctx', w')"
  shows "form_inv S w0 ctx' w'"
proof (cases "strncmp0 (length name) (cstr name) ''Content-Type''")
  case False
  then show ?thesis using assms(1,3) by (simp add: content_type_event [OF assms(2)])
next
  case True
  then obtain a f where c: "current_field ctx = Some a" "heap w a = Some f" "ctx' = ctx"
    "w' = store_field a (f\<lparr>mime_type := Some header\<rparr>) w"
    using assms(3) by (auto simp: content_type_event [OF assms(2)] split: option.splits)
  moreover from c(1) assms(1) have "a \<in> set (addresses S ctx)" by (simp add: form_inv_def)
  ultimately show ?thesis
    using inv_update [OF assms(1) _ c(2), of "f\<lparr>mime_type := Some header\<rparr>" ctx w']
    by (simp add: store_field_def)
qed

lemma disposition_inv:
  assumes "form_inv S w0 ctx w" "simplemap_laws S" "fresh_files env" "is_disposition name" "current_field ctx = None"
    and "header_event D S env name header ctx w = Some (rc, ctx', w')"
  shows "form_inv S w0 ctx' w'"
proof -
  note h = assms(6) [unfolded disposition_event [OF assms(4,5)]]
  consider "ctx' = ctx" "w' = w"
    | rc1 ctx1 w1 where "disposition_name D S env header ctx w = Some (rc1, ctx1, w1)"
      "if rc1 \<noteq> 0 then ctx' = ctx1 \<and> w' = w1 else disposition_filename D env header ctx1 w1 = Some (rc, ctx', w')"
    using h by (auto split: if_splits option.splits)
  then show ?thesis
  proof cases
    case (2 rc1 ctx1 w1)
    with name_inv [OF assms(1,2,5) 2(1)] filename_inv [OF _ assms(3)]
    show ?thesis by (cases "rc1 = 0") (simp_all, blast)
  qed (use assms(1) in simp)
qed

lemma header_inv:
  assumes "form_inv S w0 ctx w" "simplemap_laws S" "fresh_files env" "is_disposition name \<longrightarrow> current_field ctx = None"
    and "header_event D S env name header ctx w = Some (rc, ctx', w')"
  shows "form_inv S w0 ctx' w'"
  using content_type_inv [OF assms(1) _ assms(5)] disposition_inv [OF assms(1-3) _ _ assms(5)] assms(4)
  by (cases "is_disposition name") simp_all

lemma begin_inv:
  assumes "form_inv S w0 ctx w" "begin_event D ctx w = Some (rc, ctx', w')"
  shows "form_inv S w0 ctx' w' \<and> current_field ctx' = current_field ctx"
proof -
  have "w' = w" "form_fields ctx' = form_fields ctx" "current_field ctx' = current_field ctx"
    using assms(2) by (auto simp: begin_event_def split: option.splits if_splits)
  then show ?thesis using inv_context [OF assms(1)] by simp
qed

lemma chunk_inv:
  assumes "form_inv S w0 ctx w" "chunk_event D env bytes ctx w = Some (rc, ctx', w')"
  shows "form_inv S w0 ctx' w' \<and> current_field ctx' = current_field ctx"
proof (cases "current_field ctx")
  case None
  then show ?thesis using assms by (simp add: chunk_event_def)
next
  case (Some a)
  then have a: "a \<in> set (addresses S ctx)" using assms(1) by (simp add: form_inv_def)
  then obtain f where f: "heap w a = Some f" using assms(1) by (auto simp: form_inv_def)
  let ?f = "f\<lparr>data_len := data_len f + length bytes\<rparr>"
  have "heap w' = (heap w)(a \<mapsto> ?f)" "brk w' = brk w" "open_fds w' = open_fds w"
    "form_fields ctx' = form_fields ctx" "current_field ctx' = current_field ctx"
    "\<And>t. tempfilename f \<noteq> Some t \<Longrightarrow> temp_files w' t = temp_files w t"
    using assms(2) Some f
    by (cases "tempfilename f"; auto simp: chunk_event_def store_field_def Let_def split: if_splits)+
  then show ?thesis using inv_update [OF assms(1) a f, of ?f ctx' w'] by simp
qed

lemma end_inv:
  assumes "form_inv S w0 ctx w" "end_event D ctx w = Some (rc, ctx', w')"
  shows "form_inv S w0 ctx' w' \<and> current_field ctx' = None \<and> rc = 0"
proof (cases "current_field ctx")
  case None
  then show ?thesis using assms by (simp add: end_event_def)
next
  case (Some a)
  then have a: "a \<in> set (addresses S ctx)" using assms(1) by (simp add: form_inv_def)
  then obtain f where f: "heap w a = Some f" using assms(1) by (auto simp: form_inv_def)
  show ?thesis
  proof (cases "fd f = -1")
    case True
    let ?f = "f\<lparr>data_len := length (ds_bytes D (current_field_data ctx)),
        field_data := Some (ds_bytes D (current_field_data ctx))\<rparr>"
    have "w' = store_field a ?f w" "form_fields ctx' = form_fields ctx" "current_field ctx' = None" "rc = 0"
      using assms(2) Some f True by (auto simp: end_event_def Let_def)
    then show ?thesis using inv_close [OF assms(1) Some f, of ?f ctx'] True by simp
  next
    case False
    have "w' = store_field a (f\<lparr>fd := -1\<rparr>) (close_fd (fd f) w)" "form_fields ctx' = form_fields ctx"
      "current_field ctx' = None" "rc = 0"
      using assms(2) Some f False by (auto simp: end_event_def Let_def)
    then show ?thesis using inv_close [OF assms(1) Some f, of "f\<lparr>fd := -1\<rparr>" ctx'] False by simp
  qed
qed

lemma header_current:
  assumes "\<not> is_disposition name" "header_event D S env name header ctx w = Some (rc, ctx', w')"
  shows "current_field ctx' = current_field ctx"
  using assms by (auto simp: header_event_def is_disposition_def split: if_splits option.splits)

lemma callback_inv:
  assumes "form_inv S w0 ctx w" "simplemap_laws S" "fresh_files env"
    and "one_disposition seen (e # es)" "seen \<or> current_field ctx = None"
    and "formdecoder_mimedecoder_callback D S env e ctx w = Some (rc, ctx', w')"
  shows "form_inv S w0 ctx' w' \<and> (\<exists>seen'. one_disposition seen' es \<and> (seen' \<or> current_field ctx' = None))"
proof (cases e)
  case (HEADER name header)
  then have h: "header_event D S env name (cstr header) ctx w = Some (rc, ctx', w')"
    using assms(6) by (simp add: formdecoder_mimedecoder_callback_def)
  show ?thesis
  proof (cases "is_disposition name")
    case True
    then show ?thesis using header_inv [OF assms(1-3) _ h] assms(4,5) HEADER by auto
  next
    case False
    then show ?thesis using header_inv [OF assms(1-3) _ h] header_current [OF False h] assms(4,5) HEADER by auto
  qed
next
  case ELEMENT_BEGIN
  then show ?thesis
    using begin_inv [OF assms(1), of D rc ctx' w'] assms(4-6) by (auto simp: formdecoder_mimedecoder_callback_def)
next
  case (ELEMENT_CHUNK bytes)
  then show ?thesis
    using chunk_inv [OF assms(1), of D env bytes rc ctx' w'] assms(4-6)
    by (auto simp: formdecoder_mimedecoder_callback_def)
next
  case ELEMENT_END
  then show ?thesis
    using end_inv [OF assms(1), of D rc ctx' w'] assms(4-6) by (auto simp: formdecoder_mimedecoder_callback_def)
next
  case OTHER
  then show ?thesis using assms(1,4-6) by (auto simp: formdecoder_mimedecoder_callback_def)
qed

lemma run_inv:
  assumes "simplemap_laws S" "fresh_files env"
  shows "form_inv S w0 ctx w \<Longrightarrow> one_disposition seen es \<Longrightarrow> seen \<or> current_field ctx = None \<Longrightarrow>
    run_events D S env es ctx w = Some (rc, ctx', w') \<Longrightarrow> form_inv S w0 ctx' w'"
proof (induction es arbitrary: seen ctx w)
  case (Cons e es)
  then obtain rc1 ctx1 w1 where c: "formdecoder_mimedecoder_callback D S env e ctx w = Some (rc1, ctx1, w1)"
    by (cases "formdecoder_mimedecoder_callback D S env e ctx w") auto
  from callback_inv [OF Cons.prems(1) assms Cons.prems(2,3) c] obtain seen' where
    "form_inv S w0 ctx1 w1" "one_disposition seen' es" "seen' \<or> current_field ctx1 = None"
    by blast
  with Cons.IH [OF this] Cons.prems(4) c show ?case by (auto split: if_splits)
qed auto

lemma init_inv:
  assumes "simplemap_laws S" "formdecoder_init D S ok = Some ctx"
  shows "form_inv S w ctx w" "current_field ctx = None"
  using assms by (auto simp: formdecoder_init_def form_inv_def addresses_def simplemap_lawsD holds_only_def
      owned_fds_def owned_files_def split: if_splits)

subsection \<open>Parts of a form\<close>

text \<open>The events of a plain field, and of one that repeats its disposition.\<close>

definition part_header :: "string \<Rightarrow> mime_event" where
  "part_header name = HEADER ''Content-Disposition'' (header_text ''form-data'' [(''name'', name)])"

definition part_events :: "string \<times> string list \<Rightarrow> mime_event list" where
  "part_events p = part_header (fst p) # ELEMENT_BEGIN # map ELEMENT_CHUNK (snd p) @ [ELEMENT_END]"

definition plain_name :: "string \<Rightarrow> bool" where
  "plain_name s \<longleftrightarrow> QUOTE \<notin> set s \<and> NUL \<notin> set s"

lemma form_data_header: "strncmp0 9 (header_text ''form-data'' attrs) ''form-data''"
  by (simp add: strncmp0_def header_text_def)

lemma disposition_prefix: "strncmp0 (length ''Content-Disposition'') (cstr ''Content-Disposition'') ''Content-Disposition''"
  by (simp add: strncmp0_def)

lemma form_attr:
  assumes "dynstring_laws D" "\<forall>f\<in>set attrs. plain_name (snd f) \<and> (fst f = ''name'' \<or> fst f = ''filename'')"
  shows "contentdisposition_getname D (header_text ''form-data'' attrs) = Some (map_of attrs ''name'')"
    "contentdisposition_getfilename D (header_text ''form-data'' attrs) = Some (map_of attrs ''filename'')"
proof -
  have k: "token ''form-data''" by (simp add: token_def my_isspace_def)
  have a: "\<forall>f\<in>set attrs. plain_field f"
    using assms(2) by (auto simp: plain_field_def plain_name_def token_def my_isspace_def)
  have e: "find_attr attrib (header_text ''form-data'' attrs) = map_of attrs attrib"
    if "attrib = ''name'' \<or> attrib = ''filename''" for attrib
    using find_attr_header [OF k, of attrib attrs "[]"] a assms(2) that
    by (fastforce simp: ends_field_def split: option.split)
  show "contentdisposition_getname D (header_text ''form-data'' attrs) = Some (map_of attrs ''name'')"
    "contentdisposition_getfilename D (header_text ''form-data'' attrs) = Some (map_of attrs ''filename'')"
    using header_no_NUL [OF k a] e
    by (simp_all add: contentdisposition_getname_def contentdisposition_getfilename_def find_attribute_value_def
        find_attribute_loop_eq [OF assms(1)])
qed

lemma form_cstr:
  assumes "\<forall>f\<in>set attrs. plain_name (snd f) \<and> (fst f = ''name'' \<or> fst f = ''filename'')"
  shows "cstr (header_text ''form-data'' attrs) = header_text ''form-data'' attrs"
proof (rule cstr_id, rule header_no_NUL)
  show "token ''form-data''" by (simp add: token_def my_isspace_def)
  show "\<forall>f\<in>set attrs. plain_field f"
    using assms by (auto simp: plain_field_def plain_name_def token_def my_isspace_def)
qed

lemma form_facts:
  assumes "dynstring_laws D" "\<forall>f\<in>set attrs. plain_name (snd f) \<and> (fst f = ''name'' \<or> fst f = ''filename'')"
  shows "contentdisposition_getname D (header_text ''form-data'' attrs) = Some (map_of attrs ''name'')"
    "contentdisposition_getfilename D (header_text ''form-data'' attrs) = Some (map_of attrs ''filename'')"
    "cstr (header_text ''form-data'' attrs) = header_text ''form-data'' attrs"
    "strncmp0 9 (header_text ''form-data'' attrs) ''form-data''"
  using form_attr [OF assms] form_cstr [OF assms(2)] form_data_header by blast+

lemmas form_header_defs = formdecoder_mimedecoder_callback_def header_event_def disposition_name_def disposition_filename_def

lemma run_append:
  "run_events D S env (es @ es') ctx w =
     (case run_events D S env es ctx w of
        None \<Rightarrow> None
      | Some (rc, ctx, w) \<Rightarrow> if rc \<noteq> 0 then Some (rc, ctx, w) else run_events D S env es' ctx w)"
proof (induction es arbitrary: ctx w)
  case (Cons e es)
  then show ?case
    by (cases "formdecoder_mimedecoder_callback D S env e ctx w") auto
qed simp

text \<open>The chunks of a field in memory gather in the dynstring.\<close>

lemma run_chunks:
  assumes "dynstring_laws D" "current_field ctx = Some a" "heap w a = Some f" "fd f = -1"
  shows "\<exists>d len. run_events D S env (map ELEMENT_CHUNK chunks) ctx w =
      Some (0, ctx\<lparr>current_field_data := d\<rparr>, store_field a (f\<lparr>data_len := len\<rparr>) w) \<and>
    ds_bytes D d = ds_bytes D (current_field_data ctx) @ concat chunks"
  using assms(2-4)
proof (induction chunks arbitrary: ctx w f)
  case Nil
  have "ctx = ctx\<lparr>current_field_data := current_field_data ctx\<rparr>" "w = store_field a (f\<lparr>data_len := data_len f\<rparr>) w"
    using Nil by (simp_all add: store_field_def fun_upd_idem)
  then show ?case
    by (intro exI [of _ "current_field_data ctx"] exI [of _ "data_len f"]) simp
next
  case (Cons x xs)
  let ?ctx = "ctx\<lparr>current_field_data := ds_appendstring D (current_field_data ctx) x\<rparr>"
  let ?f = "f\<lparr>data_len := data_len f + length x\<rparr>"
  let ?w = "store_field a ?f w"
  have "current_field ?ctx = Some a" "heap ?w a = Some ?f" "fd ?f = -1"
    using Cons.prems by (simp_all add: store_field_def)
  from Cons.IH [OF this] obtain d len where
    "run_events D S env (map ELEMENT_CHUNK xs) ?ctx ?w =
       Some (0, ?ctx\<lparr>current_field_data := d\<rparr>, store_field a (?f\<lparr>data_len := len\<rparr>) ?w)"
    "ds_bytes D d = ds_bytes D (current_field_data ?ctx) @ concat xs"
    by blast
  moreover have "formdecoder_mimedecoder_callback D S env (ELEMENT_CHUNK x) ctx w = Some (0, ?ctx, ?w)"
    using Cons.prems by (simp add: formdecoder_mimedecoder_callback_def chunk_event_def)
  ultimately show ?case
    by (intro exI [of _ d] exI [of _ len]) (simp add: store_field_def dynstring_lawsD [OF assms(1)])
qed


lemma header_part:
  assumes "dynstring_laws D" "plain_name name" "current_field ctx = None" "malloc_works env"
  shows "formdecoder_mimedecoder_callback D S env (part_header name) ctx w =
    Some (0, ctx\<lparr>current_field := Some (brk w), form_fields := simplemap_append S (form_fields ctx) name (brk w)\<rparr>,
      snd (alloc (zero_field\<lparr>fd := -1\<rparr>) w))"
  using form_facts [OF assms(1), of "[(''name'', name)]"] assms(2-4) disposition_prefix
  by (simp add: form_header_defs part_header_def alloc_def del: strncmp0_refl)

text \<open>What the fields of a decoder hold after the parts so far.\<close>

definition field_held :: "world \<Rightarrow> string \<times> nat \<Rightarrow> string \<times> string \<Rightarrow> bool" where
  "field_held w e p \<longleftrightarrow> fst e = fst p \<and> snd e < brk w \<and>
     (\<exists>f. heap w (snd e) = Some f \<and> data_len f = length (snd p) \<and> field_data f = Some (snd p))"

definition holds_parts ::
  "'d dynstring_ops \<Rightarrow> 'm simplemap_ops \<Rightarrow> (string \<times> string) list \<Rightarrow> ('d, 'm, 'q) formdecoder_context \<Rightarrow> world \<Rightarrow> bool" where
  "holds_parts D S ps ctx w \<longleftrightarrow>
     form_type ctx = FORMDECODER_MULTIPART \<and> current_field ctx = None \<and> \<not> ds_allocated D (current_field_data ctx) \<and>
     list_all2 (field_held w) (simplemap_entries S (form_fields ctx)) ps"

lemma run_part:
  assumes "dynstring_laws D" "simplemap_laws S" "malloc_works env" "plain_name (fst p)" "holds_parts D S ps ctx w"
  shows "\<exists>ctx' w'. run_events D S env (part_events p) ctx w = Some (0, ctx', w') \<and>
    holds_parts D S (ps @ [(fst p, concat (snd p))]) ctx' w' \<and> save_files ctx' = save_files ctx"
proof -
  let ?a = "brk w" and ?f = "zero_field\<lparr>fd := -1\<rparr>" and ?w1 = "snd (alloc (zero_field\<lparr>fd := -1\<rparr>) w)"
  let ?ctx1 = "ctx\<lparr>current_field := Some ?a, form_fields := simplemap_append S (form_fields ctx) (fst p) ?a\<rparr>"
  let ?ctx2 = "?ctx1\<lparr>current_field_data := snd (ds_initialise D 64)\<rparr>"
  have cur: "current_field ctx = None" "\<not> ds_allocated D (current_field_data ctx)"
    using assms(5) by (simp_all add: holds_parts_def)
  have f: "heap ?w1 ?a = Some ?f" "fd ?f = -1" by (simp_all add: alloc_def)
  have b: "formdecoder_mimedecoder_callback D S env ELEMENT_BEGIN ?ctx1 ?w1 = Some (0, ?ctx2, ?w1)"
    using cur f by (simp add: formdecoder_mimedecoder_callback_def begin_event_def)
  have "current_field ?ctx2 = Some ?a" by simp
  from run_chunks [OF assms(1) this f, of S env "snd p"] obtain d len where
    c: "run_events D S env (map ELEMENT_CHUNK (snd p)) ?ctx2 ?w1 =
      Some (0, ?ctx2\<lparr>current_field_data := d\<rparr>, store_field ?a (?f\<lparr>data_len := len\<rparr>) ?w1)"
    and d: "ds_bytes D d = concat (snd p)"
    using dynstring_lawsD [OF assms(1)] by auto
  let ?w3 = "store_field ?a (?f\<lparr>data_len := length (ds_bytes D d), field_data := Some (ds_bytes D d)\<rparr>)
    (store_field ?a (?f\<lparr>data_len := len\<rparr>) ?w1)"
  let ?ctx3 = "?ctx2\<lparr>current_field_data := ds_detached D d, current_field := None\<rparr>"
  have e: "formdecoder_mimedecoder_callback D S env ELEMENT_END (?ctx2\<lparr>current_field_data := d\<rparr>)
      (store_field ?a (?f\<lparr>data_len := len\<rparr>) ?w1) = Some (0, ?ctx3, ?w3)"
    by (simp add: formdecoder_mimedecoder_callback_def end_event_def store_field_def)
  have "run_events D S env (part_events p) ctx w = Some (0, ?ctx3, ?w3)"
    using c e by (simp add: part_events_def header_part [OF assms(1,4) cur(1) assms(3)] b run_append)
  moreover have "holds_parts D S (ps @ [(fst p, concat (snd p))]) ?ctx3 ?w3"
  proof -
    have "heap ?w3 x = (if x = ?a then Some (?f\<lparr>data_len := length (concat (snd p)), field_data := Some (concat (snd p))\<rparr>)
        else heap w x)" for x
      using d by (simp add: store_field_def alloc_def)
    moreover have "brk ?w3 = brk w + 1" by (simp add: store_field_def alloc_def)
    ultimately have "field_held ?w3 (fst p, ?a) (fst p, concat (snd p))"
      "\<And>e q. field_held w e q \<Longrightarrow> field_held ?w3 e q"
      by (auto simp: field_held_def simp del: One_nat_def)
    then have "list_all2 (field_held ?w3) (simplemap_entries S (form_fields ctx) @ [(fst p, ?a)])
        (ps @ [(fst p, concat (snd p))])"
      using assms(5) by (intro list_all2_appendI) (auto simp: holds_parts_def elim: list_all2_mono)
    then show ?thesis
      using assms(5) dynstring_lawsD(12) [OF assms(1)]
      by (simp add: holds_parts_def simplemap_lawsD [OF assms(2)])
  qed
  ultimately show ?thesis by auto
qed

lemma run_parts:
  assumes "dynstring_laws D" "simplemap_laws S" "malloc_works env"
  shows "\<forall>p\<in>set ps. plain_name (fst p) \<Longrightarrow> holds_parts D S done ctx w \<Longrightarrow>
    \<exists>ctx' w'. run_events D S env (concat (map part_events ps)) ctx w = Some (0, ctx', w') \<and>
      holds_parts D S (done @ map (apsnd concat) ps) ctx' w'"
proof (induction ps arbitrary: "done" ctx w)
  case (Cons p ps)
  then obtain ctx1 w1 where r: "run_events D S env (part_events p) ctx w = Some (0, ctx1, w1)"
    "holds_parts D S (done @ [(fst p, concat (snd p))]) ctx1 w1"
    using run_part [OF assms, of p "done" ctx w] by auto
  from Cons.IH [OF _ r(2)] Cons.prems(1) obtain ctx2 w2 where
    "run_events D S env (concat (map part_events ps)) ctx1 w1 = Some (0, ctx2, w2)"
    "holds_parts D S ((done @ [(fst p, concat (snd p))]) @ map (apsnd concat) ps) ctx2 w2"
    by auto
  with r(1) show ?case
    by (intro exI [of _ ctx2] exI [of _ w2]) (simp add: run_append apsnd_def map_prod_def split_def)
qed auto

lemma holds_parts_get:
  assumes "simplemap_laws S" "holds_parts D S ps ctx w"
  shows "formdecoder_getfield S Q ctx key w =
    Some (case map_of ps key of None \<Rightarrow> (-1, None) | Some v \<Rightarrow> (0, Some (length v, Some v)))"
    "formdecoder_fieldcount S ctx = length ps"
proof -
  have l: "list_all2 (field_held w) (simplemap_entries S (form_fields ctx)) ps" and t: "form_type ctx = FORMDECODER_MULTIPART"
    using assms(2) by (simp_all add: holds_parts_def)
  have "(case key_values es key of
           [] \<Rightarrow> map_of ps key = None
         | a # _ \<Rightarrow> \<exists>f v. heap w a = Some f \<and> map_of ps key = Some v \<and> data_len f = length v \<and> field_data f = Some v)"
    if "list_all2 (field_held w) es ps" for es
    using that by (induction rule: list_all2_induct) (auto simp: key_values_def field_held_def split: list.splits)
  from this [OF l] show "formdecoder_getfield S Q ctx key w =
    Some (case map_of ps key of None \<Rightarrow> (-1, None) | Some v \<Rightarrow> (0, Some (length v, Some v)))"
    using t by (auto simp: formdecoder_getfield_def FORMDECODER_MULTIPART_def FORMDECODER_QUERYSTRING_def
        simplemap_lawsD [OF assms(1)] Let_def split: list.splits)
  show "formdecoder_fieldcount S ctx = length ps"
    using l by (simp add: formdecoder_fieldcount_def simplemap_lawsD [OF assms(1)] list_all2_lengthD)
qed

subsection \<open>Properties\<close>

definition empty_world :: world where
  "empty_world = \<lparr>heap = Map.empty, brk = 0, open_fds = {0, 1, 2}, temp_files = Map.empty\<rparr>"

definition sample_files :: fd_env where
  "sample_files = \<lparr>malloc_works = True,
     mkstemp_result = (\<lambda>w. if temp_files w ''/tmp/a'' = None \<and> 7 \<notin> open_fds w then Some (''/tmp/a'', 7)
                          else if temp_files w ''/tmp/b'' = None \<and> 8 \<notin> open_fds w then Some (''/tmp/b'', 8) else None),
     write_result = int\<rparr>"

definition sample_form :: "(string option, (string \<times> nat) list, unit) formdecoder_context" where
  "sample_form = the (formdecoder_init list_dynstring list_simplemap True)"

lemma sample_form_init:
  "formdecoder_init list_dynstring list_simplemap True = Some sample_form"
  "current_field sample_form = None" "form_fields sample_form = []"
  "\<not> ds_allocated list_dynstring (current_field_data sample_form)"
  using dynstring_lawsD(11) [OF list_dynstring_laws]
  by (simp_all add: sample_form_def formdecoder_init_def list_simplemap_def)

lemma list_simplemap_simps:
  "simplemap_append list_simplemap m key a = m @ [(key, a)]" "simplemap_entries list_simplemap m = m"
  by (simp_all add: list_simplemap_def)

lemma sample_files_simps:
  "malloc_works sample_files" "write_result sample_files = int"
  "mkstemp_result sample_files w =
     (if temp_files w ''/tmp/a'' = None \<and> 7 \<notin> open_fds w then Some (''/tmp/a'', 7)
      else if temp_files w ''/tmp/b'' = None \<and> 8 \<notin> open_fds w then Some (''/tmp/b'', 8) else None)"
  by (simp_all add: sample_files_def)

lemma sample_files_fresh: "fresh_files sample_files"
  by (auto simp: fresh_files_def sample_files_def split: if_splits)

text \<open>
  A posted form arrives: whatever fields a multipart body carries and in whatever chunks the
  decoder sees their contents, every event is accepted, \<^verbatim>\<open>formdecoder_getfield\<close> gives the
  whole content and length of the first field of a name and fails for a name that was not
  sent, and \<^verbatim>\<open>formdecoder_fieldcount\<close> counts the fields.
\<close>

theorem posted_fields_found:
  assumes "dynstring_laws D" "simplemap_laws S" "malloc_works env"
    and "formdecoder_init D S True = Some ctx0" "\<forall>p\<in>set ps. plain_name (fst p)"
  shows "\<exists>ctx w'. run_events D S env (concat (map part_events ps)) ctx0 w = Some (0, ctx, w') \<and>
    (\<forall>key. formdecoder_getfield S Q ctx key w' =
       Some (case map_of (map (apsnd concat) ps) key of
               None \<Rightarrow> (-1, None) | Some v \<Rightarrow> (0, Some (length v, Some v)))) \<and>
    formdecoder_fieldcount S ctx = length ps"
proof -
  have "holds_parts D S [] ctx0 w"
    using assms(4) dynstring_lawsD(11) [OF assms(1)]
    by (auto simp: formdecoder_init_def holds_parts_def simplemap_lawsD [OF assms(2)])
  from run_parts [OF assms(1-3,5) this] obtain ctx w' where
    "run_events D S env (concat (map part_events ps)) ctx0 w = Some (0, ctx, w')"
    "holds_parts D S (map (apsnd concat) ps) ctx w'"
    by auto
  then show ?thesis using holds_parts_get [OF assms(2)] by fastforce
qed

theorem posted_fields_found_witness:
  "\<exists>ctx w'. run_events list_dynstring list_simplemap sample_files
      (concat (map part_events [(''provider'', [''micro'', ''soft'']), (''x'', [])])) sample_form empty_world = Some (0, ctx, w') \<and>
    formdecoder_getfield list_simplemap
      \<lparr>querystring_decode_inplace = (\<lambda>_. None), querystring_getbykey = (\<lambda>_ _. None)\<rparr> ctx ''provider'' w' =
      Some (0, Some (9, Some ''microsoft''))"
  using posted_fields_found [OF list_dynstring_laws list_simplemap_laws _ sample_form_init(1), where env = sample_files
      and ps = "[(''provider'', [''micro'', ''soft'']), (''x'', [])]" and w = empty_world
      and Q = "\<lparr>querystring_decode_inplace = (\<lambda>_. None), querystring_getbykey = (\<lambda>_ _. None)\<rparr>"]
  by (fastforce simp: sample_files_simps plain_name_def)

text \<open>
  Uploads are cleaned up: after any events in which a part has at most one
  \<^verbatim>\<open>Content-Disposition\<close> header, in any order, refused ones included, disposing of the decoder
  closes every descriptor it opened and removes every temporary file it made, and
  touches no other.
\<close>

theorem uploads_cleaned_up:
  assumes "simplemap_laws S" "fresh_files env" "formdecoder_init D S True = Some ctx0" "one_disposition False es"
    and "run_events D S env es (ctx0\<lparr>save_files := keep\<rparr>) w = Some (rc, ctx, w')"
  shows "\<exists>w''. formdecoder_dispose S (Some ctx) w' = Some w'' \<and>
    open_fds w'' = open_fds w \<and> temp_files w'' = temp_files w"
proof -
  have "form_inv S w (ctx0\<lparr>save_files := keep\<rparr>) w" "current_field (ctx0\<lparr>save_files := keep\<rparr>) = None"
    using init_inv(1) [OF assms(1,3), of w] init_inv(2) [OF assms(1,3)] inv_context [of S w ctx0 w "ctx0\<lparr>save_files := keep\<rparr>"] by simp_all
  then show ?thesis
    using run_inv [OF assms(1,2) _ assms(4) _ assms(5)] dispose_restores by blast
qed

text \<open>A form with one upload: the field \<^verbatim>\<open>a\<close> with a file name, and a field after it.\<close>

definition upload_header :: "(string \<times> string) list \<Rightarrow> mime_event" where
  "upload_header attrs = HEADER ''Content-Disposition'' (header_text ''form-data'' attrs)"

lemma upload_header_new:
  assumes "dynstring_laws D" "plain_name n" "plain_name x" "current_field ctx = None" "malloc_works env"
    "save_files ctx" "mkstemp_result env (snd (alloc (zero_field\<lparr>fd := -1\<rparr>) w)) = Some (t, h)"
  shows "formdecoder_mimedecoder_callback D S env (upload_header [(''name'', n), (''filename'', x)]) ctx w =
    Some (0, ctx\<lparr>current_field := Some (brk w), form_fields := simplemap_append S (form_fields ctx) n (brk w)\<rparr>,
      store_field (brk w) (zero_field\<lparr>filename := Some x, tempfilename := Some t, fd := h\<rparr>)
        ((snd (alloc (zero_field\<lparr>fd := -1\<rparr>) w))\<lparr>open_fds := insert h (open_fds w), temp_files := (temp_files w)(t \<mapsto> [])\<rparr>))"
  using form_facts [OF assms(1), of "[(''name'', n), (''filename'', x)]"] assms(2-7) disposition_prefix
  by (simp add: form_header_defs upload_header_def alloc_def del: strncmp0_refl)

lemma upload_header_new_failed:
  assumes "dynstring_laws D" "plain_name n" "plain_name x" "current_field ctx = None" "malloc_works env"
    "save_files ctx" "mkstemp_result env (snd (alloc (zero_field\<lparr>fd := -1\<rparr>) w)) = None"
  shows "\<exists>ctx' w'. formdecoder_mimedecoder_callback D S env (upload_header [(''name'', n), (''filename'', x)]) ctx w =
    Some (-1, ctx', w')"
  using form_facts [OF assms(1), of "[(''name'', n), (''filename'', x)]"] assms(2-7) disposition_prefix
  by (simp add: form_header_defs upload_header_def alloc_def del: strncmp0_refl)

lemma upload_header_again_failed:
  assumes "dynstring_laws D" "plain_name x" "current_field ctx = Some a" "heap w a = Some f"
    "save_files ctx" "mkstemp_result env w = None"
  shows "\<exists>ctx' w'. formdecoder_mimedecoder_callback D S env (upload_header [(''filename'', x)]) ctx w = Some (-1, ctx', w')"
  using form_facts [OF assms(1), of "[(''filename'', x)]"] assms(2-6) disposition_prefix
  by (simp add: form_header_defs upload_header_def del: strncmp0_refl)

lemma upload_header_again:
  assumes "dynstring_laws D" "plain_name x" "current_field ctx = Some a" "heap w a = Some f"
    "save_files ctx" "mkstemp_result env w = Some (t, h)"
  shows "formdecoder_mimedecoder_callback D S env (upload_header [(''filename'', x)]) ctx w =
    Some (0, ctx, store_field a (f\<lparr>filename := Some x, tempfilename := Some t, fd := h\<rparr>)
      (w\<lparr>open_fds := insert h (open_fds w), temp_files := (temp_files w)(t \<mapsto> [])\<rparr>))"
  using form_facts [OF assms(1), of "[(''filename'', x)]"] assms(2-6) disposition_prefix
  by (simp add: form_header_defs upload_header_def del: strncmp0_refl)

theorem uploads_cleaned_up_witness:
  "\<exists>rc ctx w' w''. run_events list_dynstring list_simplemap sample_files
      [upload_header [(''name'', ''a''), (''filename'', ''f'')], ELEMENT_BEGIN, ELEMENT_CHUNK ''xy'']
      (sample_form\<lparr>save_files := True\<rparr>) empty_world = Some (rc, ctx, w') \<and>
    temp_files w' ''/tmp/a'' = Some ''xy'' \<and> formdecoder_dispose list_simplemap (Some ctx) w' = Some w'' \<and>
    open_fds w'' = {0, 1, 2} \<and> temp_files w'' = Map.empty"
proof -
  let ?D = list_dynstring and ?S = list_simplemap
  let ?es = "[upload_header [(''name'', ''a''), (''filename'', ''f'')], ELEMENT_BEGIN, ELEMENT_CHUNK ''xy'']"
  note c = sample_form_init
  have "plain_name ''a''" "plain_name ''f''" by (simp_all add: plain_name_def)
  note h = upload_header_new [OF list_dynstring_laws this, of "sample_form\<lparr>save_files := True\<rparr>" sample_files empty_world "''/tmp/a''" 7 ?S]
  with h c obtain ctx w' where r: "run_events ?D ?S sample_files ?es (sample_form\<lparr>save_files := True\<rparr>) empty_world = Some (0, ctx, w')"
    "temp_files w' ''/tmp/a'' = Some ''xy''"
    by (simp add: sample_files_simps empty_world_def alloc_def store_field_def formdecoder_mimedecoder_callback_def
        begin_event_def chunk_event_def zero_field_def)
  have "one_disposition False ?es" by (simp add: upload_header_def)
  from uploads_cleaned_up [OF list_simplemap_laws sample_files_fresh c(1) this r(1)] obtain w'' where
    "formdecoder_dispose ?S (Some ctx) w' = Some w''" "open_fds w'' = {0, 1, 2}" "temp_files w'' = Map.empty"
    by (auto simp: empty_world_def)
  with r show ?thesis by blast
qed

text \<open>
  C33. A part with a named file and then a second \<^verbatim>\<open>Content-Disposition\<close> that has a file name but no name, which
  the callback does not refuse, leaks: the second header overwrites the name and the descriptor of the first temporary
  file, and disposing of the decoder leaves that file in place and its descriptor open.
\<close>

theorem repeated_disposition_leaks:
  assumes "dynstring_laws D" "simplemap_laws S" "fresh_files env" "malloc_works env"
    and "formdecoder_init D S True = Some ctx0" "plain_name n" "plain_name x" "plain_name y"
    and "run_events D S env [upload_header [(''name'', n), (''filename'', x)], upload_header [(''filename'', y)]]
           (ctx0\<lparr>save_files := True\<rparr>) w = Some (0, ctx, w')"
    and "formdecoder_dispose S (Some ctx) w' = Some w''"
  shows "\<exists>t h. temp_files w t = None \<and> temp_files w'' t \<noteq> None \<and> h \<notin> open_fds w \<and> h \<in> open_fds w''"
proof -
  let ?c = "ctx0\<lparr>save_files := True\<rparr>" and ?w1 = "snd (alloc (zero_field\<lparr>fd := -1\<rparr>) w)" and ?a = "brk w"
  let ?e1 = "upload_header [(''name'', n), (''filename'', x)]" and ?e2 = "upload_header [(''filename'', y)]"
  have n0: "current_field ?c = None" using init_inv(2) [OF assms(2,5)] by simp
  obtain t h where m1: "mkstemp_result env ?w1 = Some (t, h)"
    using upload_header_new_failed [OF assms(1,6,7) n0 assms(4), of w S] assms(9)
    by (cases "mkstemp_result env ?w1") auto
  let ?c1 = "?c\<lparr>current_field := Some ?a, form_fields := simplemap_append S (form_fields ?c) n ?a\<rparr>"
  let ?f1 = "zero_field\<lparr>filename := Some x, tempfilename := Some t, fd := h\<rparr>"
  let ?w2 = "store_field ?a ?f1 (?w1\<lparr>open_fds := insert h (open_fds w), temp_files := (temp_files w)(t \<mapsto> [])\<rparr>)"
  have c1: "formdecoder_mimedecoder_callback D S env ?e1 ?c w = Some (0, ?c1, ?w2)"
    by (rule upload_header_new [OF assms(1,6,7) n0 assms(4) _ m1]) simp
  have f1: "current_field ?c1 = Some ?a" "heap ?w2 ?a = Some ?f1" "save_files ?c1" by (simp_all add: store_field_def)
  have c2: "\<exists>w3. formdecoder_mimedecoder_callback D S env ?e2 ?c1 ?w2 = Some (0, ctx, w')"
    using assms(9) c1 by (auto split: option.splits prod.splits if_splits)
  obtain t' h' where m2: "mkstemp_result env ?w2 = Some (t', h')"
    using upload_header_again_failed [OF assms(1,8) f1, of env S] c2 by (cases "mkstemp_result env ?w2") auto
  let ?f2 = "?f1\<lparr>filename := Some y, tempfilename := Some t', fd := h'\<rparr>"
  let ?w3 = "store_field ?a ?f2 (?w2\<lparr>open_fds := insert h' (open_fds ?w2), temp_files := (temp_files ?w2)(t' \<mapsto> [])\<rparr>)"
  have r: "ctx = ?c1" "w' = ?w3" using c2 upload_header_again [OF assms(1,8) f1 m2, of S] by simp_all
  have fresh: "h \<notin> open_fds w" "temp_files w t = None" "h \<noteq> h'" "t \<noteq> t'"
    using assms(3) m1 m2 unfolding fresh_files_def by (fastforce simp: alloc_def store_field_def)+
  have e: "simplemap_entries S (form_fields ?c1) = [(n, ?a)]"
    using assms(5) by (auto simp: formdecoder_init_def simplemap_lawsD [OF assms(2)])
  have "heap ?w3 ?a = Some ?f2" by (simp add: store_field_def)
  from dispose_formfield [OF this] obtain w4 where
    "formdecoder_dispose_formfield ?a ?w3 = Some w4" "open_fds w4 = open_fds ?w3 - (if fd ?f2 \<noteq> -1 then {fd ?f2} else {})"
    "\<And>s. temp_files w4 s = (if tempfilename ?f2 = Some s then None else temp_files ?w3 s)"
    by metis
  moreover from this(1) have "w'' = w4" using assms(10) r e by (simp add: formdecoder_dispose_def)
  ultimately have "h \<in> open_fds w''" "temp_files w'' t \<noteq> None"
    using fresh by (simp_all add: store_field_def)
  with fresh show ?thesis by blast
qed


theorem repeated_disposition_leaks_witness:
  "\<exists>ctx w' w''. run_events list_dynstring list_simplemap sample_files
      [upload_header [(''name'', ''a''), (''filename'', ''f'')], upload_header [(''filename'', ''g'')]]
      (sample_form\<lparr>save_files := True\<rparr>) empty_world = Some (0, ctx, w') \<and>
    formdecoder_dispose list_simplemap (Some ctx) w' = Some w'' \<and> (\<exists>t. temp_files w'' t \<noteq> None)"
proof -
  let ?D = list_dynstring and ?S = list_simplemap
  note c = sample_form_init
  have p: "plain_name ''a''" "plain_name ''f''" "plain_name ''g''" by (simp_all add: plain_name_def)
  let ?c1 = "sample_form\<lparr>save_files := True, current_field := Some 0, form_fields := [(''a'', 0)]\<rparr>"
  let ?f1 = "zero_field\<lparr>filename := Some ''f'', tempfilename := Some ''/tmp/a'', fd := 7\<rparr>"
  let ?w1 = "\<lparr>heap = [0 \<mapsto> ?f1], brk = Suc 0, open_fds = {7, 0, 1, 2}, temp_files = [''/tmp/a'' \<mapsto> []]\<rparr>"
  have s1: "formdecoder_mimedecoder_callback ?D ?S sample_files (upload_header [(''name'', ''a''), (''filename'', ''f'')])
      (sample_form\<lparr>save_files := True\<rparr>) empty_world = Some (0, ?c1, ?w1)"
    using upload_header_new [OF list_dynstring_laws p(1,2), of "sample_form\<lparr>save_files := True\<rparr>" sample_files
        empty_world "''/tmp/a''" 7 ?S] c
    by (simp add: sample_files_simps empty_world_def alloc_def store_field_def list_simplemap_simps)
  have s2: "formdecoder_mimedecoder_callback ?D ?S sample_files (upload_header [(''filename'', ''g'')]) ?c1 ?w1 =
      Some (0, ?c1, store_field 0 (?f1\<lparr>filename := Some ''g'', tempfilename := Some ''/tmp/b'', fd := 8\<rparr>)
        (?w1\<lparr>open_fds := {8, 7, 0, 1, 2}, temp_files := (temp_files ?w1)(''/tmp/b'' \<mapsto> [])\<rparr>))"
    by (subst upload_header_again [OF list_dynstring_laws p(3), where a = 0 and f = ?f1]) (simp_all add: sample_files_simps)
  obtain ctx w' where r: "run_events ?D ?S sample_files
      [upload_header [(''name'', ''a''), (''filename'', ''f'')], upload_header [(''filename'', ''g'')]]
      (sample_form\<lparr>save_files := True\<rparr>) empty_world = Some (0, ctx, w')"
    and d: "formdecoder_dispose ?S (Some ctx) w' \<noteq> None"
    by (simp add: s1 s2 formdecoder_dispose_def list_simplemap_simps formdecoder_dispose_formfield_def store_field_def Let_def)
  from d obtain w'' where w'': "formdecoder_dispose ?S (Some ctx) w' = Some w''" by blast
  have "malloc_works sample_files" by (simp add: sample_files_def)
  from repeated_disposition_leaks [OF list_dynstring_laws list_simplemap_laws sample_files_fresh this c(1) p r w'']
  show ?thesis using r w'' by blast
qed

end
