(* ===== verification/Formdecoder_fastcgi.thy ===== *)
theory Formdecoder_fastcgi
  imports Formdecoder Decimal
begin

section \<open>Reading a form from a request (\<^verbatim>\<open>src/formdecoder_fastcgi.c\<close>)\<close>

text \<open>
  \<^verbatim>\<open>formdecoder_decodefcgirequest\<close> reads the body of a POST request from the FastCGI stream,
  as a URL-encoded query string or through the MIME decoder. \<^verbatim>\<open>FCGX_GetStr\<close> is the parameter
  \<open>getstr\<close>, the MIME decoder a record of operations that take the callback as an argument.
  The read loops end when the stream does, so they are partial functions; \<open>None\<close> stands for
  a loop that does not return or for undefined behaviour.
\<close>

subsection \<open>Streams and errors\<close>

definition stream_laws :: "(nat \<Rightarrow> 'i \<Rightarrow> string \<times> 'i) \<Rightarrow> ('i \<Rightarrow> string) \<Rightarrow> bool" where
  "stream_laws getstr rest \<longleftrightarrow>
     (\<forall>n i s i'. getstr n i = (s, i') \<longrightarrow>
        rest i = s @ rest i' \<and> length s \<le> n \<and> (s = [] \<longrightarrow> n = 0 \<or> rest i = []))"

definition list_getstr :: "nat \<Rightarrow> string \<Rightarrow> string \<times> string" where
  "list_getstr n s = (take n s, drop n s)"

lemma list_getstr_laws: "stream_laws list_getstr (\<lambda>s. s)"
  by (auto simp: stream_laws_def list_getstr_def)

text \<open>
  \<^verbatim>\<open>errorinfo_createbasic\<close>: nothing happens for a null pointer or one that already points to an
  error; \<open>mk\<close> is the creation of the message, which may fail.
\<close>

definition errorinfo_createbasic :: "(string \<Rightarrow> string option) \<Rightarrow> string option option \<Rightarrow> string \<Rightarrow> int \<times> string option option" where
  "errorinfo_createbasic mk ei message =
     (case ei of
        None \<Rightarrow> (-1, ei)
      | Some (Some _) \<Rightarrow> (-1, ei)
      | Some None \<Rightarrow>
          (case mk message of None \<Rightarrow> (-1, ei) | Some m \<Rightarrow> (0, Some (Some m))))"

definition int_text :: "int \<Rightarrow> string" where
  "int_text n = (if n < 0 then CHR ''-'' # nat_text (nat (- n)) else nat_text (nat n))"

subsection \<open>The surroundings of a request\<close>

record ('mi, 's) mime_ops =
  mimedecoder_initsimple :: "'mi option"
  set_max_size :: "nat \<Rightarrow> 'mi \<Rightarrow> 'mi"
  mimedecoder_setcontenttype :: "'mi \<Rightarrow> string option \<Rightarrow> int \<times> 'mi"
  set_body_state :: "'mi \<Rightarrow> 'mi"
  mimedecoder_decode :: "(mime_event \<Rightarrow> 's \<Rightarrow> (int \<times> 's) option) \<Rightarrow> 'mi \<Rightarrow> string \<Rightarrow> 's \<Rightarrow> (int \<times> 'mi \<times> 's) option"
  mimedecoder_finalise :: "(mime_event \<Rightarrow> 's \<Rightarrow> (int \<times> 's) option) \<Rightarrow> 'mi \<Rightarrow> 's \<Rightarrow> (int \<times> 's) option"

record ('d, 'm, 'q, 'i, 'mi) form_env =
  form_dyn :: "'d dynstring_ops"
  form_map :: "'m simplemap_ops"
  form_query :: "'q querystring_ops"
  form_mime :: "('mi, ('d, 'm, 'q) formdecoder_context \<times> world) mime_ops"
  form_files :: fd_env
  form_getstr :: "nat \<Rightarrow> 'i \<Rightarrow> string \<times> 'i"
  make_error :: "string \<Rightarrow> string option"
  init_malloc_ok :: bool
  buffer_malloc_ok :: bool

record 'i form_request =
  request_method :: "string option"
  content_type :: "string option"
  body :: 'i

text \<open>What the decoder reads of a request with the given parameters and body.\<close>

definition form_request_of :: "(string \<Rightarrow> string option) \<Rightarrow> 'i \<Rightarrow> 'i form_request" where
  "form_request_of params inp =
     \<lparr>request_method = params ''REQUEST_METHOD'', content_type = params ''CONTENT_TYPE'', body = inp\<rparr>"

text \<open>The result code, the context handed over, what is left of the stream, the world, the error.\<close>

type_synonym ('d, 'm, 'q, 'i) form_result =
  "(int \<times> ('d, 'm, 'q) formdecoder_context option \<times> 'i \<times> world \<times> string option option) option"

text \<open>The common exits: the context is disposed of and -1 returned.\<close>

definition form_error ::
  "'m simplemap_ops \<Rightarrow> ('d, 'm, 'q) formdecoder_context \<Rightarrow> 'i \<Rightarrow> world \<Rightarrow> string option option \<Rightarrow> ('d, 'm, 'q, 'i) form_result" where
  "form_error S ctx inp w ei = map_option (\<lambda>w. (-1, None, inp, w, ei)) (formdecoder_dispose S (Some ctx) w)"

subsection \<open>URL-encoded bodies\<close>

partial_function (option) read_body ::
  "(nat \<Rightarrow> 'i \<Rightarrow> string \<times> 'i) \<Rightarrow> nat \<Rightarrow> string \<Rightarrow> 'i \<Rightarrow> (string option \<times> 'i) option" where
  "read_body getstr max_size read_buf inp =
     (let bytes_to_read = max_size - length read_buf
      in if bytes_to_read = 0 then Some (None, inp)
         else
           let (s, inp) = getstr bytes_to_read inp
           in if s = [] then Some (Some read_buf, inp)
              else if length s > bytes_to_read then None
              else read_body getstr max_size (read_buf @ s) inp)"

definition formdecoder_decodefcgirequest_urlencoded ::
  "('d, 'm, 'q, 'i, 'mi) form_env \<Rightarrow> 'i form_request \<Rightarrow> nat \<Rightarrow> string option option \<Rightarrow> world \<Rightarrow> ('d, 'm, 'q, 'i) form_result" where
  "formdecoder_decodefcgirequest_urlencoded env req max_size ei w =
     (case formdecoder_init (form_dyn env) (form_map env) (init_malloc_ok env) of
        None \<Rightarrow> Some (-1, None, body req, w, ei)
      | Some ctx \<Rightarrow>
          let ctx = ctx\<lparr>form_type := FORMDECODER_QUERYSTRING\<rparr>
          in if \<not> buffer_malloc_ok env then form_error (form_map env) ctx (body req) w ei
             else
               (case read_body (form_getstr env) max_size [] (body req) of
                  None \<Rightarrow> None
                | Some (None, inp) \<Rightarrow>
                    form_error (form_map env) ctx inp w (snd (errorinfo_createbasic (make_error env) ei ''read buffer full''))
                | Some (Some read_buf, inp) \<Rightarrow>
                    if length read_buf \<ge> max_size then form_error (form_map env) ctx inp w ei
                    else
                      (case querystring_decode_inplace (form_query env) (Some (cstr (read_buf @ [NUL]))) of
                         None \<Rightarrow> form_error (form_map env) ctx inp w
                           (snd (errorinfo_createbasic (make_error env) ei ''Failed to decode querystring''))
                       | Some q \<Rightarrow> Some (0, Some (ctx\<lparr>qsctx := Some q, form_buf := Some read_buf\<rparr>), inp, w, ei))))"

subsection \<open>Multipart bodies\<close>

definition READ_BUFFER_SIZE :: nat where
  "READ_BUFFER_SIZE = 8192"

definition mime_callback ::
  "('d, 'm, 'q, 'i, 'mi) form_env \<Rightarrow> mime_event \<Rightarrow> ('d, 'm, 'q) formdecoder_context \<times> world \<Rightarrow>
   (int \<times> ('d, 'm, 'q) formdecoder_context \<times> world) option" where
  "mime_callback env event st =
     formdecoder_mimedecoder_callback (form_dyn env) (form_map env) (form_files env) event (fst st) (snd st)"

partial_function (option) read_multipart ::
  "('d, 'm, 'q, 'i, 'mi) form_env \<Rightarrow> 'mi \<Rightarrow> ('d, 'm, 'q) formdecoder_context \<times> world \<Rightarrow> 'i \<Rightarrow>
   (int \<times> 'mi \<times> (('d, 'm, 'q) formdecoder_context \<times> world) \<times> 'i) option" where
  "read_multipart env mi st inp =
     (let (s, inp) = form_getstr env READ_BUFFER_SIZE inp
      in if s = [] then Some (0, mi, st, inp)
         else
           (case mimedecoder_decode (form_mime env) (mime_callback env) mi s st of
              None \<Rightarrow> None
            | Some (rc, mi, st) \<Rightarrow> if rc \<noteq> 0 then Some (rc, mi, st, inp) else read_multipart env mi st inp))"

definition formdecoder_decodefcgirequest_multipart ::
  "('d, 'm, 'q, 'i, 'mi) form_env \<Rightarrow> 'i form_request \<Rightarrow> nat \<Rightarrow> string option option \<Rightarrow> world \<Rightarrow> ('d, 'm, 'q, 'i) form_result" where
  "formdecoder_decodefcgirequest_multipart env req max_size ei w =
     (case formdecoder_init (form_dyn env) (form_map env) (init_malloc_ok env) of
        None \<Rightarrow> Some (-1, None, body req, w, ei)
      | Some ctx \<Rightarrow>
          let ctx = ctx\<lparr>save_files := True\<rparr>
          in case mimedecoder_initsimple (form_mime env) of
               None \<Rightarrow> form_error (form_map env) ctx (body req) w ei
             | Some mi \<Rightarrow>
                 let (rc, mi) = mimedecoder_setcontenttype (form_mime env) (set_max_size (form_mime env) max_size mi) (content_type req)
                 in if rc \<noteq> 0 then
                      form_error (form_map env) ctx (body req) w
                        (snd (errorinfo_createbasic (make_error env) ei (''mimedecoder_setcontenttype() '' @ int_text rc)))
                    else if \<not> buffer_malloc_ok env then form_error (form_map env) ctx (body req) w ei
                    else
                      (case read_multipart env (set_body_state (form_mime env) mi) (ctx, w) (body req) of
                         None \<Rightarrow> None
                       | Some (rc, mi, (ctx, w), inp) \<Rightarrow>
                           if rc \<noteq> 0 then form_error (form_map env) ctx inp w ei
                           else
                             (case mimedecoder_finalise (form_mime env) (mime_callback env) mi (ctx, w) of
                                None \<Rightarrow> None
                              | Some (rc, ctx, w) \<Rightarrow>
                                  if rc \<noteq> 0 then form_error (form_map env) ctx inp w ei
                                  else Some (0, Some ctx, inp, w, ei))))"

subsection \<open>Choosing by the content type\<close>

definition formdecoder_decodefcgirequest ::
  "('d, 'm, 'q, 'i, 'mi) form_env \<Rightarrow> 'i form_request \<Rightarrow> nat \<Rightarrow> string option option \<Rightarrow> world \<Rightarrow> ('d, 'm, 'q, 'i) form_result" where
  "formdecoder_decodefcgirequest env req max_size ei w =
     (if request_method req = None \<or> request_method req \<noteq> Some ''POST'' then
        Some (-1, None, body req, w, snd (errorinfo_createbasic (make_error env) ei ''Request method was not POST''))
      else
        (case content_type req of
           None \<Rightarrow>
             Some (-1, None, body req, w, snd (errorinfo_createbasic (make_error env) ei ''No content-type header provided''))
         | Some ctype \<Rightarrow>
             if strncmp0 19 ''multipart/form-data'' ctype then
               formdecoder_decodefcgirequest_multipart env req max_size ei w
             else if strncmp0 33 ''application/x-www-form-urlencoded'' ctype then
               formdecoder_decodefcgirequest_urlencoded env req max_size ei w
             else
               Some (-1, None, body req, w, snd (errorinfo_createbasic (make_error env) ei
                 (''Unrecognised content type '' @ [CHR 0x22] @ ctype @ [CHR 0x22])))))"

subsection \<open>The read loop returns\<close>

lemma read_body_result:
  assumes "stream_laws getstr rest"
  shows "\<exists>inp'. read_body getstr max_size buf inp =
    Some (if length buf + length (rest inp) < max_size then Some (buf @ rest inp) else None, inp')"
proof (induction "length (rest inp)" arbitrary: buf inp rule: less_induct)
  case less
  show ?case
  proof (cases "max_size - length buf = 0")
    case True
    then show ?thesis by (subst read_body.simps) auto
  next
    case False
    obtain s inp1 where g: "getstr (max_size - length buf) inp = (s, inp1)" by (metis surj_pair)
    with assms have s: "rest inp = s @ rest inp1" "length s \<le> max_size - length buf"
      "s = [] \<Longrightarrow> max_size - length buf = 0 \<or> rest inp = []"
      unfolding stream_laws_def by blast+
    show ?thesis
    proof (cases "s = []")
      case True
      then show ?thesis using False g s by (subst read_body.simps) auto
    next
      case ne: False
      then have "length (rest inp1) < length (rest inp)" using s(1) by simp
      from less [OF this, of "buf @ s"] obtain inp' where
        "read_body getstr max_size (buf @ s) inp1 =
          Some (if length (buf @ s) + length (rest inp1) < max_size then Some ((buf @ s) @ rest inp1) else None, inp')"
        by blast
      moreover have "read_body getstr max_size buf inp = read_body getstr max_size (buf @ s) inp1"
        using False ne g s(2) by (subst read_body.simps) auto
      ultimately show ?thesis using s(1) by (auto simp: add.assoc)
    qed
  qed
qed

subsection \<open>Properties\<close>

text \<open>
  C24. Reading a URL-encoded body always returns, on any stream that ends: the form is
  decoded exactly when the body is shorter than \<^verbatim>\<open>max_size\<close>, its fields are those of the query
  string decoder, and a longer body is refused with the error \<^verbatim>\<open>read buffer full\<close> and no context.
\<close>

theorem urlencoded_form_decoded:
  fixes env :: "('d, 'm, 'q, 'i, 'mi) form_env"
  assumes "stream_laws (form_getstr env) rest" "init_malloc_ok env" "buffer_malloc_ok env" "simplemap_laws (form_map env)"
    and "request_method req = Some ''POST''" "content_type req = Some (''application/x-www-form-urlencoded'' @ params)"
    and "querystring_decode_inplace (form_query env) (Some (cstr (rest (body req)))) = Some q"
    and "make_error env = Some"
  shows "\<exists>ctx inp. formdecoder_decodefcgirequest env req max_size (Some None) w =
      (if length (rest (body req)) < max_size then Some (0, Some ctx, inp, w, Some None)
       else Some (-1, None, inp, w, Some (Some ''read buffer full''))) \<and>
    (\<forall>key. formdecoder_getfield (form_map env) (form_query env) ctx key w =
       Some (case querystring_getbykey (form_query env) (Some q) key of
               None \<Rightarrow> (-1, None) | Some v \<Rightarrow> (0, Some (length v, Some v))))"
proof -
  obtain ctx0 :: "('d, 'm, 'q) formdecoder_context" where
    c: "formdecoder_init (form_dyn env) (form_map env) (init_malloc_ok env) = Some ctx0"
    "simplemap_entries (form_map env) (form_fields ctx0) = []"
    using assms(2) by (simp add: formdecoder_init_def simplemap_lawsD [OF assms(4)])
  from read_body_result [OF assms(1), of max_size "[]" "body req"] obtain inp where
    r: "read_body (form_getstr env) max_size [] (body req) =
      Some (if length (rest (body req)) < max_size then Some (rest (body req)) else None, inp)"
    by auto
  have "cstr (s @ [NUL]) = cstr s" for s by (induction s) auto
  then have d: "formdecoder_decodefcgirequest_urlencoded env req max_size (Some None) w =
      (if length (rest (body req)) < max_size
       then Some (0, Some (ctx0\<lparr>form_type := FORMDECODER_QUERYSTRING, qsctx := Some q, form_buf := Some (rest (body req))\<rparr>),
              inp, w, Some None)
       else Some (-1, None, inp, w, Some (Some ''read buffer full'')))"
    using assms(3,7,8) c r
    by (simp add: formdecoder_decodefcgirequest_urlencoded_def form_error_def formdecoder_dispose_def
        errorinfo_createbasic_def)
  have "formdecoder_decodefcgirequest env req max_size (Some None) w =
      formdecoder_decodefcgirequest_urlencoded env req max_size (Some None) w"
    using assms(5,6) by (simp add: formdecoder_decodefcgirequest_def strncmp0_def)
  then show ?thesis
    unfolding d
    by (intro exI [of _ "ctx0\<lparr>form_type := FORMDECODER_QUERYSTRING, qsctx := Some q, form_buf := Some (rest (body req))\<rparr>"]
        exI [of _ inp]) (simp add: formdecoder_getfield_def split: option.split)
qed


definition sample_query :: "string querystring_ops" where
  "sample_query = \<lparr>querystring_decode_inplace = (\<lambda>s. s),
     querystring_getbykey = (\<lambda>q key. if key = ''all'' then q else None)\<rparr>"

definition sample_form_env :: "(string option, (string \<times> nat) list, string, string, unit) form_env" where
  "sample_form_env = \<lparr>form_dyn = list_dynstring, form_map = list_simplemap, form_query = sample_query,
     form_mime = \<lparr>mimedecoder_initsimple = None, set_max_size = (\<lambda>_ m. m), mimedecoder_setcontenttype = (\<lambda>m _. (0, m)),
       set_body_state = (\<lambda>m. m), mimedecoder_decode = (\<lambda>_ m _ s. Some (0, m, s)), mimedecoder_finalise = (\<lambda>_ _ s. Some (0, s))\<rparr>,
     form_files = sample_files, form_getstr = list_getstr, make_error = Some, init_malloc_ok = True, buffer_malloc_ok = True\<rparr>"

theorem urlencoded_form_decoded_witness:
  "\<exists>inp inp' ctx. formdecoder_decodefcgirequest sample_form_env
      \<lparr>request_method = Some ''POST'', content_type = Some ''application/x-www-form-urlencoded; charset=utf-8'',
       body = ''provider=x''\<rparr> 10 (Some None) empty_world =
      Some (-1, None, inp, empty_world, Some (Some ''read buffer full'')) \<and>
    formdecoder_decodefcgirequest sample_form_env
      \<lparr>request_method = Some ''POST'', content_type = Some ''application/x-www-form-urlencoded; charset=utf-8'',
       body = ''provider=x''\<rparr> 11 (Some None) empty_world = Some (0, Some ctx, inp', empty_world, Some None)"
proof -
  let ?req = "\<lparr>request_method = Some ''POST'', content_type = Some ''application/x-www-form-urlencoded; charset=utf-8'',
       body = ''provider=x''\<rparr>"
  have p: "stream_laws (form_getstr sample_form_env) (\<lambda>s. s)" "init_malloc_ok sample_form_env"
    "buffer_malloc_ok sample_form_env" "simplemap_laws (form_map sample_form_env)" "form_request.request_method ?req = Some ''POST''"
    "form_request.content_type ?req = Some (''application/x-www-form-urlencoded'' @ ''; charset=utf-8'')"
    "querystring_decode_inplace (form_query sample_form_env) (Some (cstr (body ?req))) = Some ''provider=x''"
    "make_error sample_form_env = Some"
    by (simp_all add: sample_form_env_def list_getstr_laws list_simplemap_laws sample_query_def)
  from urlencoded_form_decoded [OF p, of 10 empty_world] urlencoded_form_decoded [OF p, of 11 empty_world]
  obtain i1 i2 ctx where e: "formdecoder_decodefcgirequest sample_form_env ?req 10 (Some None) empty_world =
      Some (-1, None, i1, empty_world, Some (Some ''read buffer full''))"
    "formdecoder_decodefcgirequest sample_form_env ?req 11 (Some None) empty_world =
      Some (0, Some ctx, i2, empty_world, Some None)"
    by auto
  show ?thesis using e by blast
qed

end
