(* ===== verification/Errorinfo.thy ===== *)
theory Errorinfo
  imports Formdecoder_fastcgi
begin

section \<open>Error objects (\<^verbatim>\<open>src/errorinfo.c\<close>)\<close>

text \<open>
  An error is a message, at most ten attached objects with their destructors, and the error that
  caused it. The objects and destructors are type parameters; disposing of an error returns the
  destructor calls it makes, in order, and the messages it frees.
\<close>

subsection \<open>The code\<close>

record ('o, 'cb) errorinfoobject_context =
  eio_type :: int
  eio_data :: 'o
  free_cb :: "'cb option"

datatype ('d, 'o, 'cb) errorinfo_context =
  Errorinfo (ei_message: 'd) (infolist: "('o, 'cb) errorinfoobject_context list")
    (ei_cause: "('d, 'o, 'cb) errorinfo_context option")

definition infolist_capacity :: nat where
  "infolist_capacity = 10"

definition errorinfo_create :: "'d dynstring_ops \<Rightarrow> bool \<Rightarrow> ('d, 'o, 'cb) errorinfo_context option" where
  "errorinfo_create D malloc_ok =
     (if \<not> malloc_ok then None
      else case ds_initialise D 1024 of (rc, message) \<Rightarrow> if rc \<noteq> 0 then None else Some (Errorinfo message [] None))"

text \<open>The destructor calls of one error, in the order of its objects.\<close>

definition free_infos :: "('o, 'cb) errorinfoobject_context list \<Rightarrow> ('cb \<times> 'o) list" where
  "free_infos infos = List.map_filter (\<lambda>i. map_option (\<lambda>cb. (cb, eio_data i)) (free_cb i)) infos"

text \<open>The number of causes below an error, which bounds the recursion.\<close>

primrec causes :: "('d, 'o, 'cb) errorinfo_context \<Rightarrow> nat" where
  "causes (Errorinfo m infos cause) = (case map_option causes cause of None \<Rightarrow> 0 | Some n \<Rightarrow> Suc n)"

function errorinfo_dispose :: "('d, 'o, 'cb) errorinfo_context option \<Rightarrow> ('cb \<times> 'o) list \<times> 'd list" where
  "errorinfo_dispose None = ([], [])"
| "errorinfo_dispose (Some (Errorinfo message infos cause)) =
     (let (freed, messages) = errorinfo_dispose cause in (freed @ free_infos infos, messages @ [message]))"
  by pat_completeness auto
termination
  by (relation "measure (\<lambda>e. case e of None \<Rightarrow> 0 | Some e \<Rightarrow> Suc (causes e))") (auto split: option.split)

fun errorinfo_appendmessage ::
  "'d dynstring_ops \<Rightarrow> string \<Rightarrow> ('d, 'o, 'cb) errorinfo_context \<Rightarrow> int \<times> ('d, 'o, 'cb) errorinfo_context" where
  "errorinfo_appendmessage D msg (Errorinfo message infos cause) =
     (let (rc, message) = ds_appendstringz D message [msg, [CHR 0x0A]] in (rc, Errorinfo message infos cause))"

fun errorinfo_addinfoobject ::
  "('o, 'cb) errorinfoobject_context \<Rightarrow> ('d, 'o, 'cb) errorinfo_context \<Rightarrow> int \<times> ('d, 'o, 'cb) errorinfo_context" where
  "errorinfo_addinfoobject eio_ctx (Errorinfo message infos cause) =
     (if length infos < infolist_capacity then (0, Errorinfo message (infos @ [eio_ctx]) cause)
      else (-1, Errorinfo message infos cause))"

text \<open>
  \<open>sprintf_va\<close> is \<^verbatim>\<open>dynstring_sprintf_va\<close> with its format and arguments; 0 is its failure here.
  A failure leaves the cause to the caller.
\<close>

definition errorinfo_wrap_va ::
  "'d dynstring_ops \<Rightarrow> bool \<Rightarrow> ('d, 'o, 'cb) errorinfo_context option \<Rightarrow> ('d \<Rightarrow> int \<times> 'd) \<Rightarrow>
   ('d, 'o, 'cb) errorinfo_context option" where
  "errorinfo_wrap_va D malloc_ok cause_ei_ctx sprintf_va =
     (case errorinfo_create D malloc_ok of
        None \<Rightarrow> None
      | Some ei_ctx \<Rightarrow>
          (case sprintf_va (ei_message ei_ctx) of
             (rc, message) \<Rightarrow> if rc = 0 then None else Some (Errorinfo message (infolist ei_ctx) cause_ei_ctx)))"

definition errorinfo_wrap ::
  "'d dynstring_ops \<Rightarrow> bool \<Rightarrow> ('d, 'o, 'cb) errorinfo_context option \<Rightarrow> ('d \<Rightarrow> int \<times> 'd) \<Rightarrow>
   ('d, 'o, 'cb) errorinfo_context option" where
  "errorinfo_wrap D malloc_ok cause_ei_ctx sprintf_va = errorinfo_wrap_va D malloc_ok cause_ei_ctx sprintf_va"

text \<open>
  The message an error created by \<open>errorinfo_createbasic\<close> shows: what its argument \<open>mk\<close> stands for.
\<close>

definition basic_message :: "'d dynstring_ops \<Rightarrow> bool \<Rightarrow> ('d \<Rightarrow> int \<times> 'd) \<Rightarrow> string option" where
  "basic_message D malloc_ok sprintf_va =
     map_option (\<lambda>ei :: ('d, unit, unit) errorinfo_context. ds_getcstring D (ei_message ei))
       (errorinfo_wrap_va D malloc_ok None sprintf_va)"

definition errorinfo_cstr :: "'d dynstring_ops \<Rightarrow> ('d, 'o, 'cb) errorinfo_context option \<Rightarrow> string" where
  "errorinfo_cstr D ei_ctx =
     (case ei_ctx of None \<Rightarrow> ''errorinfo_context was null'' | Some ei \<Rightarrow> ds_getcstring D (ei_message ei))"

subsection \<open>What is kept and what is freed\<close>

text \<open>Attaching a list of objects, with the codes returned.\<close>

fun attach :: "('o, 'cb) errorinfoobject_context list \<Rightarrow> ('d, 'o, 'cb) errorinfo_context \<Rightarrow>
    int list \<times> ('d, 'o, 'cb) errorinfo_context" where
  "attach [] ei = ([], ei)"
| "attach (o1 # os) ei =
     (let (rc, ei) = errorinfo_addinfoobject o1 ei; (rcs, ei) = attach os ei in (rc # rcs, ei))"

lemma attach_full: "length infos \<ge> infolist_capacity \<Longrightarrow>
    attach os (Errorinfo m infos cause) = (replicate (length os) (-1), Errorinfo m infos cause)"
  by (induction os) simp_all

lemma attach_eq:
  "length infos \<le> infolist_capacity \<Longrightarrow>
    attach os (Errorinfo m infos cause) =
      (replicate (min (length os) (infolist_capacity - length infos)) 0 @
         replicate (length os - (infolist_capacity - length infos)) (-1),
       Errorinfo m (infos @ take (infolist_capacity - length infos) os) cause)"
proof (induction os arbitrary: infos)
  case (Cons o1 os)
  show ?case
  proof (cases "length infos < infolist_capacity")
    case True
    then obtain n where n: "infolist_capacity - length infos = Suc n" "infolist_capacity - Suc (length infos) = n"
      by (metis Suc_diff_Suc)
    from True Cons.IH [of "infos @ [o1]"] show ?thesis by (simp add: n)
  qed (use attach_full [of infos "o1 # os" m cause] Cons.prems in simp)
qed simp

lemma wrap_SomeD:
  "errorinfo_wrap_va D malloc_ok cause f = Some ei \<Longrightarrow>
    \<exists>rc. f (snd (ds_initialise D 1024)) = (rc, ei_message ei) \<and> rc \<noteq> 0 \<and> infolist ei = [] \<and> ei_cause ei = cause"
  by (auto simp: errorinfo_wrap_va_def errorinfo_create_def split: option.splits prod.splits if_splits)

text \<open>
  The errors of a chain, the innermost cause first, and the destructor calls their objects ask for: an
  object with a destructor gives one call.
\<close>

primrec levels :: "('d, 'o, 'cb) errorinfo_context \<Rightarrow> ('d, 'o, 'cb) errorinfo_context list" where
  "levels (Errorinfo m infos cause) =
     (case map_option levels cause of None \<Rightarrow> [] | Some es \<Rightarrow> es) @ [Errorinfo m infos cause]"

definition chain :: "('d, 'o, 'cb) errorinfo_context option \<Rightarrow> ('d, 'o, 'cb) errorinfo_context list" where
  "chain e = (case e of None \<Rightarrow> [] | Some ei \<Rightarrow> levels ei)"

definition due_calls :: "('d, 'o, 'cb) errorinfo_context list \<Rightarrow> ('cb \<times> 'o) list" where
  "due_calls es = [(cb, eio_data i). ei \<leftarrow> es, i \<leftarrow> infolist ei, cb \<leftarrow> case free_cb i of None \<Rightarrow> [] | Some cb \<Rightarrow> [cb]]"

lemma due_calls_append [simp]: "due_calls (es @ fs) = due_calls es @ due_calls fs"
  by (simp add: due_calls_def)

lemma free_infos_due: "free_infos infos = due_calls [Errorinfo m infos cause]"
  by (induction infos) (auto simp: free_infos_def due_calls_def map_filter_simps split: option.split)

lemma chain_Some: "chain (Some ei) = chain (ei_cause ei) @ [ei]"
  by (cases ei) (simp add: chain_def split: option.split)

lemma dispose_chain: "errorinfo_dispose e = (due_calls (chain e), map ei_message (chain e))"
proof (induction e rule: errorinfo_dispose.induct)
  case (2 message infos cause)
  then show ?case using free_infos_due [of infos message cause] by (simp add: chain_Some)
qed (simp add: chain_def due_calls_def)

subsection \<open>Property\<close>

text \<open>
  C40. An error that wraps a cause takes the first ten of the objects attached to it, with code 0,
  and refuses the others with -1; appending to its message changes neither. Disposing of it calls, from the
  innermost cause outwards, the destructor of each object of each error that has one, once and in the order they were
  attached, and frees every message of the chain.
\<close>

theorem attached_objects_freed:
  assumes "errorinfo_wrap D malloc_ok cause sprintf_va = Some ei" "attach os ei = (rcs, ei')"
    "errorinfo_appendmessage D msg ei' = (rc, ei'')"
  shows "rcs = replicate (min (length os) 10) 0 @ replicate (length os - 10) (-1) \<and>
    infolist ei'' = take 10 os \<and> chain (Some ei'') = chain cause @ [ei''] \<and>
    errorinfo_dispose (Some ei'') =
      ([(cb, eio_data i). e \<leftarrow> chain cause @ [ei''], i \<leftarrow> infolist e, cb \<leftarrow> case free_cb i of None \<Rightarrow> [] | Some cb \<Rightarrow> [cb]],
       map ei_message (chain cause @ [ei'']))"
proof -
  obtain m where "ei = Errorinfo m [] cause" using wrap_SomeD [of D malloc_ok cause sprintf_va ei] assms(1)
    by (cases ei) (auto simp: errorinfo_wrap_def)
  with attach_eq [of "[]" os m cause] assms(2) have "ei' = Errorinfo m (take 10 os) cause"
    "rcs = replicate (min (length os) 10) 0 @ replicate (length os - 10) (-1)"
    by (simp_all add: infolist_capacity_def)
  with assms(3) have "infolist ei'' = take 10 os" "ei_cause ei'' = cause"
    "rcs = replicate (min (length os) 10) 0 @ replicate (length os - 10) (-1)"
    by (auto simp: Let_def split: prod.splits)
  then show ?thesis unfolding dispose_chain by (simp add: chain_Some due_calls_def)
qed

text \<open>A cause with one object, wrapped by an error with three; the numbers are destructors and objects.\<close>

definition sample_cause :: "(string option, nat, nat) errorinfo_context" where
  "sample_cause = Errorinfo (Some ''disk'') [\<lparr>eio_type = 1, eio_data = 5, free_cb = Some 0\<rparr>] None"

definition sample_objects :: "(nat, nat) errorinfoobject_context list" where
  "sample_objects = [\<lparr>eio_type = 1, eio_data = 6, free_cb = Some 2\<rparr>, \<lparr>eio_type = 1, eio_data = 7, free_cb = None\<rparr>,
     \<lparr>eio_type = 1, eio_data = 8, free_cb = Some 1\<rparr>]"

theorem attached_objects_freed_witness:
  "\<exists>ei ei' ei''. errorinfo_wrap list_dynstring True (Some sample_cause) (\<lambda>d. (4, Some ''read'')) = Some ei \<and>
     attach sample_objects ei = ([0, 0, 0], ei') \<and> errorinfo_appendmessage list_dynstring ''!'' ei' = (0, ei'') \<and>
     errorinfo_dispose (Some ei'') = ([(0, 5), (2, 6), (1, 8)], [Some ''disk'', ei_message ei''])"
proof -
  let ?ei = "Errorinfo (Some ''read'') [] (Some sample_cause)"
  have w: "errorinfo_wrap list_dynstring True (Some sample_cause) (\<lambda>d. (4, Some ''read'')) = Some ?ei"
    by (simp add: errorinfo_wrap_def errorinfo_wrap_va_def errorinfo_create_def list_dynstring_def list_dynstring_enc_def)
  obtain rcs ei' where a: "attach sample_objects ?ei = (rcs, ei')" by force
  have "fst (errorinfo_appendmessage list_dynstring ''!'' ei') = 0"
    by (cases ei') (simp add: list_dynstring_def list_dynstring_enc_def)
  then obtain ei'' where m: "errorinfo_appendmessage list_dynstring ''!'' ei' = (0, ei'')" by (metis prod.collapse)
  have c: "chain (Some sample_cause) = [sample_cause]" by (simp add: chain_def sample_cause_def)
  from attached_objects_freed [OF w a m, unfolded c] w a m show ?thesis
    by (auto simp: sample_cause_def sample_objects_def eval_nat_numeral)
qed

end
