(* ===== verification/Jwtinterface.thy ===== *)
theory Jwtinterface
  imports Cookies Jwks_store
begin

section \<open>Tokens and their users (\<^verbatim>\<open>src/jwtinterface.cpp\<close>)\<close>

text \<open>
  Finding the token among the cookies and reading the user out of its payload. The payload is
  the JSON object the JWT library decodes; \<open>serialize\<close> is picojson's.
\<close>

subsection \<open>The code\<close>

record JWTUserContext =
  friendly_name :: string
  email_address :: string
  payload_json_str :: string
  payload_json_str_pretty :: string
  header_json_str :: string
  verified :: int

text \<open>\<^verbatim>\<open>make_unique<JWTUserContext>()\<close> zeroes the object.\<close>

definition new_user_context :: JWTUserContext where
  "new_user_context = \<lparr>friendly_name = [], email_address = [], payload_json_str = [],
     payload_json_str_pretty = [], header_json_str = [], verified = 0\<rparr>"

definition jwtinterface_get_string :: "json_object \<Rightarrow> string \<Rightarrow> string \<Rightarrow> int \<times> string" where
  "jwtinterface_get_string obj key result =
     (case map_of obj key of
        Some (JString s) \<Rightarrow> (0, s)
      | _ \<Rightarrow> (-1, result))"

text \<open>The last cookie of the name wins here.\<close>

definition jwtinterface_get_token_from_cookie :: "(string \<times> string) list option \<Rightarrow> string" where
  "jwtinterface_get_token_from_cookie cookies =
     (case cookies of
        None \<Rightarrow> []
      | Some cs \<Rightarrow> fold (\<lambda>(name, val) jwt_str. if name = ''auth'' then val else jwt_str) cs [])"

text \<open>
  The header is parsed in place: the result pairs the token with what the parser leaves of the
  header. The \<^verbatim>\<open>Authorization\<close> header is an argument that is not used.
\<close>

definition jwtinterface_get_token_from_cookie_or_authorization ::
  "bool \<Rightarrow> char list option \<Rightarrow> string option \<Rightarrow> (string \<times> char list option) option" where
  "jwtinterface_get_token_from_cookie_or_authorization malloc_ok cookies_str auth_str =
     (case HTTPUtils_parse_cookies malloc_ok cookies_str of
        None \<Rightarrow> None
      | Some None \<Rightarrow> Some ([], cookies_str)
      | Some (Some (buf, cookies)) \<Rightarrow>
          Some (fold (\<lambda>(name, val) jwt_str. if name = ''auth'' then val else jwt_str) (cookie_view buf cookies) [],
                Some buf))"

definition prettyPrintObject :: "(json \<Rightarrow> string) \<Rightarrow> json_object \<Rightarrow> string" where
  "prettyPrintObject serialize obj =
     (if obj = [] then ''{}''
      else
        let member = (\<lambda>m. ''  '' @ serialize (JString (fst m)) @ '': '' @ serialize (snd m));
            out = fold (\<lambda>m (first, out). (False, (if first then out else out @ '','' @ [CHR 0x0A]) @ member m))
                    obj (True, ''{'' @ [CHR 0x0A])
        in snd out @ [CHR 0x0A] @ ''}'')"

text \<open>The body of the \<^verbatim>\<open>try\<close> block, and the function with its two handlers.\<close>

definition user_context_of_token ::
  "('alg, 'v, 'j) jwt_ops \<Rightarrow> (json \<Rightarrow> string) \<Rightarrow> string \<Rightarrow> exn + JWTUserContext option" where
  "user_context_of_token J serialize jwt_str =
     (if jwt_str = [] then Inr None
      else bindE (jwt_decode J jwt_str) (\<lambda>jwt.
        let payload_obj = get_payload_json J jwt;
            ctx = new_user_context;
            (res, email) = jwtinterface_get_string payload_obj ''email'' (email_address ctx);
            (res, email) = (if res \<noteq> 0 then jwtinterface_get_string payload_obj ''preferred_username'' email
                            else (res, email))
        in if res \<noteq> 0 then Inr None
           else
             let (res, name) = jwtinterface_get_string payload_obj ''name'' (friendly_name ctx)
             in if res \<noteq> 0 then Inr None
                else Inr (Some (ctx\<lparr>friendly_name := name, email_address := email,
                       payload_json_str := serialize (JObject payload_obj),
                       payload_json_str_pretty := prettyPrintObject serialize payload_obj,
                       header_json_str := serialize (JObject (get_header_json J jwt))\<rparr>))))"

definition jwtinterface_getusercontext ::
  "('alg, 'v, 'j) jwt_ops \<Rightarrow> (json \<Rightarrow> string) \<Rightarrow> string \<Rightarrow> exn + JWTUserContext option" where
  "jwtinterface_getusercontext J serialize jwt_str =
     (case user_context_of_token J serialize jwt_str of
        Inr r \<Rightarrow> Inr r
      | Inl e \<Rightarrow> if auth_caught e then Inr None else Inl e)"

subsection \<open>What they find\<close>

text \<open>The user a payload names.\<close>

definition claim_text :: "json_object \<Rightarrow> string \<Rightarrow> string option" where
  "claim_text obj key = (case map_of obj key of Some (JString s) \<Rightarrow> Some s | _ \<Rightarrow> None)"

definition payload_user :: "json_object \<Rightarrow> (string \<times> string) option" where
  "payload_user obj =
     Option.bind (case claim_text obj ''email'' of Some e \<Rightarrow> Some e | None \<Rightarrow> claim_text obj ''preferred_username'')
       (\<lambda>email. map_option (\<lambda>name. (email, name)) (claim_text obj ''name''))"

lemma get_string_claim:
  "jwtinterface_get_string obj key r = (case claim_text obj key of Some s \<Rightarrow> (0, s) | None \<Rightarrow> (-1, r))"
  by (simp add: jwtinterface_get_string_def claim_text_def split: option.split json.split)

lemma user_context_payload:
  assumes "s \<noteq> []" "jwt_decode J s = Inr jwt"
  shows "jwtinterface_getusercontext J serialize s =
    Inr (map_option (\<lambda>(email, name). new_user_context\<lparr>friendly_name := name, email_address := email,
        payload_json_str := serialize (JObject (get_payload_json J jwt)),
        payload_json_str_pretty := prettyPrintObject serialize (get_payload_json J jwt),
        header_json_str := serialize (JObject (get_header_json J jwt))\<rparr>) (payload_user (get_payload_json J jwt)))"
  using assms
  by (auto simp: jwtinterface_getusercontext_def user_context_of_token_def payload_user_def get_string_claim Let_def
      split: option.split)

lemma user_context_decode_failed:
  "s \<noteq> [] \<Longrightarrow> jwt_decode J s = Inl e \<Longrightarrow>
   jwtinterface_getusercontext J serialize s = (if auth_caught e then Inr None else Inl e)"
  by (simp add: jwtinterface_getusercontext_def user_context_of_token_def)

lemma user_context_empty [simp]: "jwtinterface_getusercontext J serialize [] = Inr None"
  by (simp add: jwtinterface_getusercontext_def user_context_of_token_def)

lemma user_context_unverified: "jwtinterface_getusercontext J serialize s = Inr (Some u) \<Longrightarrow> verified u = 0"
proof -
  assume u: "jwtinterface_getusercontext J serialize s = Inr (Some u)"
  then have s: "s \<noteq> []" by auto
  then obtain jwt where "jwt_decode J s = Inr jwt"
    using u by (cases "jwt_decode J s") (auto simp: user_context_decode_failed split: if_splits)
  from user_context_payload [OF s this] u show ?thesis by (auto simp: new_user_context_def)
qed

lemma fold_last_auth:
  "fold (\<lambda>(name, val) t. if name = ''auth'' then val else t) cs d = (if cookie_values cs ''auth'' = [] then d
     else last (cookie_values cs ''auth''))"
  by (induction cs arbitrary: d) (auto simp: cookie_values_def split: prod.split)

lemma token_from_cookie_eq:
  "jwtinterface_get_token_from_cookie (Some cs) =
     (if cookie_values cs ''auth'' = [] then [] else last (cookie_values cs ''auth''))"
  by (simp add: jwtinterface_get_token_from_cookie_def fold_last_auth)

lemma token_from_header_eq:
  assumes "\<forall>c\<in>set cs. cookie_ok c"
  shows "\<exists>buf. jwtinterface_get_token_from_cookie_or_authorization True (Some (cookie_header cs @ [NUL])) auth =
    Some (if cookie_values cs ''auth'' = [] then [] else last (cookie_values cs ''auth''), buf)"
proof -
  from parse_cookies_result [OF cookie_header_no_NUL [OF assms]] obtain s' es where
    "HTTPUtils_parse_cookies True (Some (cookie_header cs @ [NUL])) = Some (Some (s' @ [NUL], es))"
    "cookie_view (s' @ [NUL]) es = cookie_pairs (cookie_header cs)"
    by metis
  then show ?thesis
    using cookie_pairs_header [OF assms]
    by (simp add: jwtinterface_get_token_from_cookie_or_authorization_def fold_last_auth)
qed

subsection \<open>Properties\<close>

text \<open>
  C35. Which token a request carries depends on the function that reads it: for a browser header
  with several \<^verbatim>\<open>auth\<close> cookies \<^verbatim>\<open>HTTPUtils_get_cookie\<close> gives the first one and the
  functions of \<^verbatim>\<open>jwtinterface.cpp\<close> the last.
\<close>

theorem first_or_last_token:
  assumes "\<forall>c\<in>set cs. cookie_ok c" "cookie_values cs ''auth'' = v # vs"
  shows "HTTPUtils_get_cookie (Some cs) ''auth'' 0 = Some v \<and>
    jwtinterface_get_token_from_cookie (Some cs) = last (v # vs) \<and>
    (\<exists>rest. jwtinterface_get_token_from_cookie_or_authorization True (Some (cookie_header cs @ [NUL])) auth =
       Some (last (v # vs), rest))"
  using assms token_from_header_eq [OF assms(1), of auth]
  by (simp add: get_cookie_eq map_of_cookie_values token_from_cookie_eq)

theorem first_or_last_token_witness:
  "HTTPUtils_get_cookie (Some [(''auth'', ''t1''), (''auth'', ''t2'')]) ''auth'' 0 = Some ''t1'' \<and>
    jwtinterface_get_token_from_cookie (Some [(''auth'', ''t1''), (''auth'', ''t2'')]) = ''t2''"
  using first_or_last_token [of "[(''auth'', ''t1''), (''auth'', ''t2'')]" "''t1''" "[''t2'']" None]
  by (simp add: cookie_ok_def is_ws_def cookie_values_def)

text \<open>
  The user context of a token is decided by its payload alone: the e-mail address, or the
  preferred user name when there is none, and the name. A token that does not decode, or whose
  payload lacks one, has none, and no exception leaves the function unless decoding throws
  something other than its two handlers name. No signature is looked at, and \<^verbatim>\<open>verified\<close> is 0.
\<close>

theorem getusercontext_payload:
  "(case jwtinterface_getusercontext J serialize s of
      Inl e \<Rightarrow> s \<noteq> [] \<and> jwt_decode J s = Inl e \<and> \<not> auth_caught e
    | Inr None \<Rightarrow> s = [] \<or> (\<exists>e. jwt_decode J s = Inl e \<and> auth_caught e) \<or>
        (\<exists>jwt. jwt_decode J s = Inr jwt \<and> payload_user (get_payload_json J jwt) = None)
    | Inr (Some u) \<Rightarrow> s \<noteq> [] \<and> verified u = 0 \<and>
        (\<exists>jwt. jwt_decode J s = Inr jwt \<and>
           payload_user (get_payload_json J jwt) = Some (email_address u, friendly_name u)))"
proof (cases "s = []")
  case False
  then show ?thesis
    by (cases "jwt_decode J s")
      (auto simp: user_context_payload user_context_decode_failed new_user_context_def split: option.split)
qed simp

end
