(* ===== verification/Simpletemplate.thy ===== *)
theory Simpletemplate
  imports Prelude
begin

section \<open>Templates (\<^verbatim>\<open>src/simpletemplate.hpp\<close>)\<close>

text \<open>
  \<^verbatim>\<open>TemplateEngine\<close> replaces \<^verbatim>\<open><% NAME %>\<close> by the value of a variable. The loop of
  \<^verbatim>\<open>Render\<close> is modelled over positions in the template, as written; it is shown equal to a
  recursion over the remaining text, from which the properties of templates follow.
\<close>

subsection \<open>The engine\<close>

record TemplateEngine =
  m_template :: string
  m_variables :: "string \<rightharpoonup> string"

definition SetTemplate :: "string \<Rightarrow> TemplateEngine \<Rightarrow> TemplateEngine" where
  "SetTemplate src te = te\<lparr>m_template := src\<rparr>"

definition SetVariable :: "string \<Rightarrow> string \<Rightarrow> TemplateEngine \<Rightarrow> TemplateEngine" where
  "SetVariable name val te = te\<lparr>m_variables := (m_variables te)(name \<mapsto> val)\<rparr>"

definition SetVariables :: "(string \<rightharpoonup> string) \<Rightarrow> TemplateEngine \<Rightarrow> TemplateEngine" where
  "SetVariables vs te = te\<lparr>m_variables := vs\<rparr>"

definition RemoveVariable :: "string \<Rightarrow> TemplateEngine \<Rightarrow> TemplateEngine" where
  "RemoveVariable name te = te\<lparr>m_variables := (m_variables te)(name := None)\<rparr>"

definition ClearVariables :: "TemplateEngine \<Rightarrow> TemplateEngine" where
  "ClearVariables te = te\<lparr>m_variables := Map.empty\<rparr>"

text \<open>\<^verbatim>\<open>TemplateEngine(text)\<close>, and \<^verbatim>\<open>FromFile\<close> over what opening and reading the file gives.\<close>

definition new_template :: "string \<Rightarrow> TemplateEngine" where
  "new_template templateText = \<lparr>m_template = templateText, m_variables = Map.empty\<rparr>"

definition FromFile :: "(string \<Rightarrow> string option option) \<Rightarrow> string \<Rightarrow> TemplateEngine option" where
  "FromFile open_file filename =
     (case open_file filename of
        None \<Rightarrow> None
      | Some None \<Rightarrow> None
      | Some (Some buffer) \<Rightarrow> Some (new_template buffer))"

definition IsWhitespace :: "char \<Rightarrow> bool" where
  "IsWhitespace c \<longleftrightarrow> c = CHR '' '' \<or> c = CHR 0x09 \<or> c = CHR 0x0D \<or> c = CHR 0x0A"

definition Trim :: "string \<Rightarrow> string" where
  "Trim val = rev (dropWhile IsWhitespace (rev (dropWhile IsWhitespace val)))"

definition in_range :: "char \<Rightarrow> char \<Rightarrow> char \<Rightarrow> bool" where
  "in_range lo hi c \<longleftrightarrow> (of_char lo :: nat) \<le> of_char c \<and> (of_char c :: nat) \<le> of_char hi"

definition name_start :: "char \<Rightarrow> bool" where
  "name_start c \<longleftrightarrow> in_range (CHR ''A'') (CHR ''Z'') c \<or> in_range (CHR ''a'') (CHR ''z'') c \<or> c = CHR ''_''"

definition name_char :: "char \<Rightarrow> bool" where
  "name_char c \<longleftrightarrow> in_range (CHR ''A'') (CHR ''Z'') c \<or> in_range (CHR ''a'') (CHR ''z'') c \<or>
     in_range (CHR ''0'') (CHR ''9'') c \<or> c = CHR ''_''"

definition IsValidVariableName :: "string \<Rightarrow> bool" where
  "IsValidVariableName name \<longleftrightarrow> name \<noteq> [] \<and> name_start (hd name) \<and> (\<forall>c\<in>set (tl name). name_char c)"

text \<open>\<^verbatim>\<open>std::string::find\<close> of a text, from the start and from a position.\<close>

fun find_text :: "string \<Rightarrow> string \<Rightarrow> nat option" where
  "find_text pat [] = (if pat = [] then Some 0 else None)"
| "find_text pat (c # s) = (if prefix pat (c # s) then Some 0 else map_option Suc (find_text pat s))"

definition find_from :: "string \<Rightarrow> string \<Rightarrow> nat \<Rightarrow> nat option" where
  "find_from pat s position = map_option ((+) position) (find_text pat (drop position s))"

text \<open>What one expression becomes: its text between the delimiters, and the whole of it.\<close>

definition substitute :: "(string \<rightharpoonup> string) \<Rightarrow> bool \<Rightarrow> string \<Rightarrow> string \<Rightarrow> string" where
  "substitute vars leaveUnknown inner whole =
     (let variableName = Trim inner
      in if IsValidVariableName variableName then
           (case vars variableName of
              Some val \<Rightarrow> val
            | None \<Rightarrow> if leaveUnknown then whole else [])
         else whole)"

lemma find_text_bound: "find_text pat s = Some i \<Longrightarrow> i + length pat \<le> length s \<and> prefix pat (drop i s)"
proof (induction s arbitrary: i)
  case (Cons c s)
  then show ?case by (auto split: if_splits dest: prefix_length_le)
qed (auto split: if_splits)

lemma find_from_bound: "find_from pat s p = Some i \<Longrightarrow> p \<le> length s \<Longrightarrow> p \<le> i \<and> i + length pat \<le> length s"
  by (auto simp: find_from_def dest!: find_text_bound)

function render_loop :: "(string \<rightharpoonup> string) \<Rightarrow> bool \<Rightarrow> string \<Rightarrow> nat \<Rightarrow> string \<Rightarrow> string" where
  "render_loop vars leaveUnknown src position result =
     (if \<not> position < length src then result
      else case find_from ''<%'' src position of
        None \<Rightarrow> result @ drop position src
      | Some start \<Rightarrow>
          let result = result @ take (start - position) (drop position src)
          in case find_from ''%>'' src (start + 2) of
               None \<Rightarrow> result @ drop start src
             | Some fin \<Rightarrow>
                 let inner = take (fin - (start + 2)) (drop (start + 2) src);
                     whole = take (fin + 2 - start) (drop start src)
                 in render_loop vars leaveUnknown src (fin + 2)
                      (result @ substitute vars leaveUnknown inner whole))"
  by pat_completeness auto
termination
proof (relation "measure (\<lambda>(vars, l, src, position, result). length src - position)", goal_cases)
  case (2 vars l src position result start)
  then have "position \<le> start \<and> start + 2 \<le> length src"
    using find_from_bound [of "''<%''" src position start] by simp
  then show ?case using 2 find_from_bound [of "''%>''" src "start + 2"] by auto
qed simp

declare render_loop.simps [simp del]

definition Render :: "bool \<Rightarrow> TemplateEngine \<Rightarrow> string" where
  "Render leaveUnknown te = render_loop (m_variables te) leaveUnknown (m_template te) 0 []"

subsection \<open>Rendering by remaining text\<close>

function expand :: "(string \<rightharpoonup> string) \<Rightarrow> bool \<Rightarrow> string \<Rightarrow> string" where
  "expand vars leaveUnknown s =
     (case find_text ''<%'' s of
        None \<Rightarrow> s
      | Some i \<Rightarrow>
          (case find_text ''%>'' (drop (i + 2) s) of
             None \<Rightarrow> s
           | Some j \<Rightarrow>
               take i s @
               substitute vars leaveUnknown (take j (drop (i + 2) s)) (take (j + 4) (drop i s)) @
               expand vars leaveUnknown (drop (i + j + 4) s)))"
  by pat_completeness auto
termination
  by (relation "measure (\<lambda>(vars, l, s). length s)") (auto dest!: find_text_bound)

declare expand.simps [simp del]

lemma render_loop_expand:
  "position \<le> length src \<Longrightarrow>
   render_loop vars l src position result = result @ expand vars l (drop position src)"
proof (induction vars l src position result rule: render_loop.induct)
  case (1 vars l src position result)
  show ?case
  proof (cases "position < length src")
    case False
    then show ?thesis
      using 1(2) by (subst render_loop.simps) (simp add: expand.simps)
  next
    case True
    show ?thesis
    proof (cases "find_text ''<%'' (drop position src)")
      case None
      then show ?thesis
        using True by (subst render_loop.simps) (simp add: expand.simps find_from_def)
    next
      case (Some i)
      then have i: "i + 2 \<le> length src - position" using find_text_bound by fastforce
      show ?thesis
      proof (cases "find_text ''%>'' (drop (position + i + 2) src)")
        case None
        have "render_loop vars l src position result = result @ take i (drop position src) @ drop (position + i) src"
          using None Some True by (subst render_loop.simps) (simp add: find_from_def Let_def)
        also have "take i (drop position src) @ drop (position + i) src = drop position src"
          using append_take_drop_id [of i "drop position src"] by (simp add: add.commute)
        finally show ?thesis
          using None Some by (simp add: expand.simps add.commute add.left_commute)
      next
        case j: (Some j)
        then have jl: "j + 2 \<le> length src - (position + i + 2)" using find_text_bound by fastforce
        let ?r = "result @ take i (drop position src) @ substitute vars l
          (take j (drop (position + i + 2) src)) (take (j + 4) (drop (position + i) src))"
        have "render_loop vars l src position result = render_loop vars l src (position + i + j + 4) ?r"
          using j Some True
          by (subst render_loop.simps) (simp add: find_from_def Let_def add.assoc add.commute [of 4 j] numeral_eq_Suc)
        moreover have "render_loop vars l src (position + i + j + 4) ?r = ?r @ expand vars l (drop (position + i + j + 4) src)"
          using 1(1) [OF _ _ refl _ refl refl, of "position + i" "position + i + 2 + j"] j jl Some True i
          by (simp add: find_from_def Let_def add.assoc add.commute [of 4 j] numeral_eq_Suc)
        moreover have "expand vars l (drop position src) = take i (drop position src) @
            substitute vars l (take j (drop (position + i + 2) src)) (take (j + 4) (drop (position + i) src)) @
            expand vars l (drop (position + i + j + 4) src)"
          using j Some by (subst expand.simps) (simp add: add_ac)
        ultimately show ?thesis by simp
      qed
    qed
  qed
qed

lemma Render_expand: "Render l te = expand (m_variables te) l (m_template te)"
  by (simp add: Render_def render_loop_expand)

subsection \<open>Templates as texts and expressions\<close>

text \<open>
  A piece of a template is plain text, an expression with the blanks written around its name, an
  expression that holds no name, or an expression that is never closed.
\<close>

datatype piece = Text string | Var string string string | Other string | Unclosed string

fun piece_text :: "piece \<Rightarrow> string" where
  "piece_text (Text t) = t"
| "piece_text (Var before name after) = ''<%'' @ before @ name @ after @ ''%>''"
| "piece_text (Other e) = ''<%'' @ e @ ''%>''"
| "piece_text (Unclosed t) = ''<%'' @ t"

fun piece_value :: "(string \<rightharpoonup> string) \<Rightarrow> bool \<Rightarrow> piece \<Rightarrow> string" where
  "piece_value vars l (Var before name after) =
     (case vars name of
        Some val \<Rightarrow> val
      | None \<Rightarrow> if l then piece_text (Var before name after) else [])"
| "piece_value vars l p = piece_text p"

text \<open>Blanks around a name.\<close>

definition blank_name :: "string \<Rightarrow> string \<Rightarrow> string \<Rightarrow> bool" where
  "blank_name before name after \<longleftrightarrow> (\<forall>c\<in>set (before @ after). IsWhitespace c) \<and> IsValidVariableName name"

fun piece_ok :: "piece \<Rightarrow> bool" where
  "piece_ok (Text t) = (\<not> sublist ''<%'' t)"
| "piece_ok (Var before name after) = blank_name before name after"
| "piece_ok (Other e) = (\<not> sublist ''%>'' e \<and> (\<forall>before name after. e = before @ name @ after \<longrightarrow> \<not> blank_name before name after))"
| "piece_ok (Unclosed t) = (\<not> sublist ''%>'' t)"

text \<open>A text is not followed by a text, and an unclosed expression by nothing.\<close>

fun follows :: "piece \<Rightarrow> piece \<Rightarrow> bool" where
  "follows (Text t) (Text u) = False"
| "follows (Unclosed t) q = False"
| "follows p q = True"

fun template_ok :: "piece list \<Rightarrow> bool" where
  "template_ok [] = True"
| "template_ok [p] = piece_ok p"
| "template_ok (p # q # ps) = (piece_ok p \<and> follows p q \<and> template_ok (q # ps))"

lemma name_char_plain: "name_char c \<Longrightarrow> \<not> IsWhitespace c \<and> c \<noteq> CHR ''%''"
  by (auto simp: name_char_def in_range_def IsWhitespace_def)

lemma name_start_char: "name_start c \<Longrightarrow> name_char c"
  by (auto simp: name_start_def name_char_def)

lemma valid_name_chars: "IsValidVariableName name \<Longrightarrow> c \<in> set name \<Longrightarrow> name_char c"
  by (cases name) (auto simp: IsValidVariableName_def name_start_char)

lemma Trim_name:
  assumes "\<forall>c\<in>set (before @ after). IsWhitespace c" "IsValidVariableName name"
  shows "Trim (before @ name @ after) = name"
proof -
  have n: "name \<noteq> []" using assms(2) by (simp add: IsValidVariableName_def)
  have h: "\<not> IsWhitespace (hd name)" "\<not> IsWhitespace (hd (rev name))"
    using n valid_name_chars [OF assms(2)] name_char_plain by (auto simp: hd_rev)
  have d: "dropWhile IsWhitespace (ws @ x @ y) = x @ y" if "\<forall>c\<in>set ws. IsWhitespace c"
    "x \<noteq> []" "\<not> IsWhitespace (hd x)" for ws x y
    using that by (cases x) (auto simp: dropWhile_append2)
  have "dropWhile IsWhitespace (before @ name @ after) = name @ after"
    using assms(1) n h(1) by (intro d) auto
  moreover have "dropWhile IsWhitespace (rev after @ rev name @ []) = rev name @ []"
    using assms(1) n h(2) by (intro d) auto
  ultimately show ?thesis by (simp add: Trim_def)
qed

text \<open>Every blank around the name is trimmed, and nothing else.\<close>

lemma Trim_parts: "\<exists>before after. s = before @ Trim s @ after \<and> (\<forall>c\<in>set (before @ after). IsWhitespace c)"
proof -
  let ?t = "dropWhile IsWhitespace s"
  have "s = takeWhile IsWhitespace s @ ?t" by simp
  also have "?t = rev (dropWhile IsWhitespace (rev ?t)) @ rev (takeWhile IsWhitespace (rev ?t))"
    by (metis rev_append rev_rev_ident takeWhile_dropWhile_id)
  finally have "s = takeWhile IsWhitespace s @ Trim s @ rev (takeWhile IsWhitespace (rev ?t))" by (simp add: Trim_def)
  then show ?thesis by (intro exI conjI) (auto dest: set_takeWhileD)
qed

text \<open>Where the delimiters are found.\<close>

lemma find_text_None: "find_text pat s = None \<longleftrightarrow> \<not> sublist pat s"
  by (induction s) (auto simp: sublist_Cons_right)

lemma find_text_first: "find_text pat s = Some i \<Longrightarrow> pat \<noteq> [] \<Longrightarrow> \<not> sublist pat (take i s)"
proof (induction s arbitrary: i)
  case (Cons c s)
  show ?case
  proof (cases "prefix pat (c # s)")
    case False
    with Cons.prems obtain j where j: "find_text pat s = Some j" "i = Suc j" by auto
    have "prefix (c # take j s) (c # s)" by (simp add: take_is_prefix)
    with False have "\<not> prefix pat (c # take j s)" using prefix_order.trans by blast
    with Cons.IH [OF j(1) Cons.prems(2)] j(2) show ?thesis by (simp add: sublist_Cons_right)
  qed (use Cons.prems in simp)
qed (auto split: if_splits)

lemma find_text_skip:
  "a \<noteq> b \<Longrightarrow> \<not> sublist [a, b] t \<Longrightarrow> find_text [a, b] (t @ a # s) = map_option ((+) (length t)) (find_text [a, b] (a # s))"
proof (induction t)
  case (Cons c t)
  then have "\<not> prefix [a, b] (c # t)" "\<not> sublist [a, b] t" by (simp_all add: sublist_Cons_right)
  then have "\<not> prefix [a, b] (c # t @ a # s)" using Cons.prems(1) by (cases t) auto
  then have "find_text [a, b] ((c # t) @ a # s) = map_option Suc (find_text [a, b] (t @ a # s))"
    by (simp only: append_Cons find_text.simps if_False)
  also have "\<dots> = map_option ((+) (length (c # t))) (find_text [a, b] (a # s))"
    unfolding Cons.IH [OF Cons.prems(1) \<open>\<not> sublist [a, b] t\<close>] by (cases "find_text [a, b] (a # s)"; simp only: option.map list.size add_Suc add_Suc_right add_0_right)
  finally show ?case .
qed (cases "find_text [a, b] (a # s)"; simp)

lemma find_text_here: "pat \<noteq> [] \<Longrightarrow> find_text pat (pat @ s) = Some 0"
  by (cases "pat @ s") (auto simp: prefix_def intro!: exI [of _ s])

lemma expand_text:
  assumes "\<not> sublist ''<%'' t" "s = [] \<or> hd s = CHR ''<''"
  shows "expand vars l (t @ s) = t @ expand vars l s"
proof (cases s)
  case Nil
  have "find_text ''<%'' t = None" using assms(1) by (simp add: find_text_None)
  with Nil show ?thesis by (simp add: expand.simps)
next
  case (Cons c s')
  then have f: "find_text ''<%'' (t @ s) = map_option ((+) (length t)) (find_text ''<%'' s)"
    using assms find_text_skip [of "CHR ''<''" "CHR ''%''" t s'] by simp
  show ?thesis
    by (simp add: expand.simps [of vars l "t @ s"] expand.simps [of vars l s] f add.assoc split: option.split)
qed

lemma expand_expression:
  assumes "\<not> sublist ''%>'' e"
  shows "expand vars l (''<%'' @ e @ ''%>'' @ s) = substitute vars l e (''<%'' @ e @ ''%>'') @ expand vars l s"
proof -
  have e: "find_text ''%>'' (e @ ''%>'' @ s) = Some (length e)"
    using find_text_skip [OF _ assms, of "''>'' @ s"] find_text_here [of "''%>''" s] by simp
  have b: "find_text ''<%'' (''<%'' @ e @ ''%>'' @ s) = Some 0" by (intro find_text_here) simp
  let ?w = "''<%'' @ e @ ''%>''"
  have w: "?w @ s = ''<%'' @ e @ ''%>'' @ s" "length ?w = length e + 4" by simp_all
  have i: "take (length e) (drop 2 (?w @ s)) = e" by (simp add: numeral_eq_Suc)
  have "expand vars l (?w @ s) = take 0 (?w @ s) @
      substitute vars l (take (length e) (drop (0 + 2) (?w @ s))) (take (length e + 4) (drop 0 (?w @ s))) @
      expand vars l (drop (0 + length e + 4) (?w @ s))"
    using b e w by (subst expand.simps) simp
  also have "\<dots> = substitute vars l e ?w @ expand vars l s"
    unfolding add_0 i w(2) [symmetric] by simp
  finally show ?thesis by simp
qed

lemma expand_unclosed: "\<not> sublist ''%>'' t \<Longrightarrow> expand vars l (''<%'' @ t) = ''<%'' @ t"
  using find_text_here [of "''<%''" t] find_text_None [of "''%>''" t] by (subst expand.simps) simp

lemma name_has_no_end:
  assumes "blank_name before name after"
  shows "\<not> sublist ''%>'' (before @ name @ after)"
proof
  assume "sublist ''%>'' (before @ name @ after)"
  from set_mono_sublist [OF this] have "CHR ''%'' \<in> set (before @ after) \<or> CHR ''%'' \<in> set name" by auto
  moreover have "\<not> IsWhitespace (CHR ''%'')" "\<not> name_char (CHR ''%'')"
    by (simp_all add: IsWhitespace_def name_char_def in_range_def)
  ultimately show False using assms valid_name_chars unfolding blank_name_def by blast
qed

lemma expand_piece:
  assumes "piece_ok p" "\<And>t. p \<noteq> Text t" "\<And>t. p = Unclosed t \<Longrightarrow> s = []"
  shows "expand vars l (piece_text p @ s) = piece_value vars l p @ expand vars l s"
proof (cases p)
  case (Var before name after)
  then have b: "blank_name before name after" using assms(1) by simp
  from expand_expression [OF name_has_no_end [OF b], of vars l s] show ?thesis
    using Var b Trim_name [of before after name] by (simp add: substitute_def blank_name_def split: option.split)
next
  case (Other e)
  have "\<not> IsValidVariableName (Trim e)" using assms(1) Other Trim_parts [of e] by (auto simp: blank_name_def)
  with Other expand_expression [of e vars l s] assms(1) show ?thesis by (simp add: substitute_def)
next
  case (Unclosed t)
  with assms expand_unclosed [of t vars l] show ?thesis by (simp add: expand.simps [of vars l "[]"])
qed (use assms(2) in simp)

lemma expand_pieces:
  "template_ok ps \<Longrightarrow> expand vars l (concat (map piece_text ps)) = concat (map (piece_value vars l) ps)"
proof (induction ps rule: template_ok.induct)
  case 1
  then show ?case by (simp add: expand.simps)
next
  case (2 p)
  have "expand vars l (piece_text p @ []) = piece_value vars l p @ expand vars l []"
    using 2 by (cases "\<exists>t. p = Text t") (auto intro: expand_text expand_piece simp del: append_Nil2)
  then show ?case by (simp add: expand.simps [of vars l "[]"])
next
  case (3 p q ps)
  let ?s = "concat (map piece_text (q # ps))"
  have "expand vars l (piece_text p @ ?s) = piece_value vars l p @ expand vars l ?s"
  proof (cases "\<exists>t. p = Text t")
    case True
    with 3(2) have "hd ?s = CHR ''<''" by (cases q) auto
    with True 3(2) show ?thesis using expand_text [of _ ?s] by auto
  next
    case False
    with 3(2) show ?thesis by (intro expand_piece) auto
  qed
  then show ?case using 3 by simp
qed

text \<open>Every text is such a sequence of pieces.\<close>

lemma template_ok_Cons: "template_ok (p # ps) \<longleftrightarrow> piece_ok p \<and> (case ps of [] \<Rightarrow> True | q # _ \<Rightarrow> follows p q) \<and> template_ok ps"
  by (cases ps) auto

lemma expression_piece:
  assumes "\<not> sublist ''%>'' e"
  shows "\<exists>p. piece_ok p \<and> piece_text p = ''<%'' @ e @ ''%>'' \<and> (\<forall>q. follows p q) \<and> (\<forall>t. p \<noteq> Text t)"
proof (cases "\<exists>before name after. e = before @ name @ after \<and> blank_name before name after")
  case True
  then obtain before name after where "e = before @ name @ after" "blank_name before name after" by blast
  then show ?thesis by (intro exI [of _ "Var before name after"]) simp
next
  case False
  with assms show ?thesis by (intro exI [of _ "Other e"]) auto
qed

lemma template_pieces: "\<exists>ps. template_ok ps \<and> s = concat (map piece_text ps)"
proof (induction s rule: length_induct)
  case (1 s)
  show ?case
  proof (cases "find_text ''<%'' s")
    case None
    then show ?thesis by (intro exI [of _ "[Text s]"]) (simp add: find_text_None)
  next
    case (Some i)
    then obtain r where r: "drop i s = ''<%'' @ r" using find_text_bound by (metis prefix_def)
    have t: "\<not> sublist ''<%'' (take i s)" using find_text_first [OF Some] by simp
    have s: "s = take i s @ ''<%'' @ r" using r append_take_drop_id [of i s] by simp
    show ?thesis
    proof (cases "find_text ''%>'' r")
      case None
      have "s = concat (map piece_text [Text (take i s), Unclosed r])" using s by simp
      with t None show ?thesis by (intro exI [of _ "[Text (take i s), Unclosed r]"]) (simp add: find_text_None)
    next
      case j: (Some j)
      then obtain r' where r': "drop j r = ''%>'' @ r'" using find_text_bound by (metis prefix_def)
      have e: "\<not> sublist ''%>'' (take j r)" using find_text_first [OF j] by simp
      have r2: "r = take j r @ ''%>'' @ r'" using r' append_take_drop_id [of j r] by simp
      from expression_piece [OF e] obtain p where p: "piece_ok p" "piece_text p = ''<%'' @ take j r @ ''%>''"
        "\<And>q. follows p q" "\<And>t. p \<noteq> Text t" by blast
      have "length r = length (take j r @ ''%>'' @ r')" "length s = length (take i s @ ''<%'' @ r)" using s r2 by simp_all
      then have "length r' < length s" by simp
      with 1 obtain ps where ps: "template_ok ps" "r' = concat (map piece_text ps)" by blast
      have "template_ok (Text (take i s) # p # ps)"
        using t p(1,3,4) ps(1) by (cases p) (auto simp: template_ok_Cons split: list.split)
      moreover have "s = concat (map piece_text (Text (take i s) # p # ps))"
        using s r2 p(2) ps(2) by simp
      ultimately show ?thesis by blast
    qed
  qed
qed

lemma substitute_none: "substitute Map.empty True inner whole = whole"
  by (simp add: substitute_def)

lemma expand_none: "expand Map.empty True s = s"
proof (induction "Map.empty :: string \<rightharpoonup> string" True s rule: expand.induct)
  case (1 s)
  show ?case
  proof (cases "find_text ''<%'' s")
    case (Some i)
    show ?thesis
    proof (cases "find_text ''%>'' (drop (i + 2) s)")
      case j: (Some j)
      have "take i s @ take (j + 4) (drop i s) @ drop (i + j + 4) s = s"
        by (metis add.assoc append.assoc append_take_drop_id take_add)
      with 1 [OF Some j] Some j show ?thesis by (simp add: expand.simps [of _ _ s] substitute_none)
    qed (simp add: expand.simps [of _ _ s] Some)
  qed (simp add: expand.simps)
qed

subsection \<open>Properties\<close>

text \<open>
  C28. Rendering substitutes once and from left to right. Every template is a sequence of plain
  texts without \<^verbatim>\<open><%\<close>, expressions around a name, expressions that hold no name and perhaps a last unclosed one; it
  renders to the texts and the values of the names, where an unknown name stays as it was written or
  vanishes as \<^verbatim>\<open>leaveUnknown\<close> says, and what holds no name stays as it was written. Values are inserted as they are,
  whatever they contain: an expression inside a value is not expanded.
\<close>

theorem Render_substitutes:
  "(\<exists>ps. template_ok ps \<and> m_template te = concat (map piece_text ps)) \<and>
   (\<forall>ps. template_ok ps \<and> m_template te = concat (map piece_text ps) \<longrightarrow>
      Render leaveUnknown te = concat (map (piece_value (m_variables te) leaveUnknown) ps))"
  using template_pieces [of "m_template te"] by (simp add: Render_expand expand_pieces)

text \<open>A page as the repository has them, with an expression that is none and one that is not closed.\<close>

definition sample_template :: string where
  "sample_template = ''<p>1 < 2</p><a href=\"<% URL %>\">here</a> <%1%><br/><%X%><% end''"

theorem Render_substitutes_witness:
  "Render False (SetVariable ''URL'' ''<%X%>'' (new_template sample_template)) =
     ''<p>1 < 2</p><a href=\"<%X%>\">here</a> <%1%><br/><% end''"
proof -
  let ?ps = "[Text ''<p>1 < 2</p><a href=\"'', Var '' '' ''URL'' '' '', Text ''\">here</a> '', Other ''1'', Text ''<br/>'',
    Var [] ''X'' [], Unclosed '' end'']"
  have n: "IsValidVariableName ''URL''" "IsValidVariableName ''X''" "\<not> IsValidVariableName ''1''" "\<not> IsValidVariableName []"
    by (simp_all add: IsValidVariableName_def name_start_def name_char_def in_range_def)
  have "IsWhitespace (CHR '' '')" by (simp add: IsWhitespace_def)
  moreover have "\<not> blank_name before name after" if "''1'' = before @ name @ after" for before name after
    using that n(3,4) by (auto simp: blank_name_def Cons_eq_append_conv)
  ultimately have "template_ok ?ps" using n by (auto simp: blank_name_def sublist_Cons_right)
  moreover have "m_template (SetVariable ''URL'' ''<%X%>'' (new_template sample_template)) = concat (map piece_text ?ps)"
    by (simp add: SetVariable_def new_template_def sample_template_def)
  ultimately have "Render False (SetVariable ''URL'' ''<%X%>'' (new_template sample_template)) =
      concat (map (piece_value (m_variables (SetVariable ''URL'' ''<%X%>'' (new_template sample_template))) False) ?ps)"
    by (intro mp [OF spec [OF conjunct2 [OF Render_substitutes]]] conjI)
  then show ?thesis by (simp add: SetVariable_def new_template_def)
qed

text \<open>
  With no variable set, rendering gives any template back unchanged, malformed and unclosed
  expressions included.
\<close>

theorem Render_no_variables: "Render True (new_template s) = s"
  by (simp add: Render_expand new_template_def expand_none)

end
