(* ===== verification/Application.thy ===== *)
theory Application
  imports Jwtinterface Simpletemplate
begin

section \<open>Authentication and authorisation (\<^verbatim>\<open>src/application.cpp\<close>)\<close>

text \<open>
  Verifying a token against the store of the issuer \<^verbatim>\<open>microsoft\<close>, the user contexts handed to the
  request handlers, the membership table, the two page templates, and the way
  \<^verbatim>\<open>appsrc/auth.cpp\<close> fills the key store before it serves requests.
\<close>

subsection \<open>Verifying a token\<close>

text \<open>
  The body of the \<^verbatim>\<open>try\<close> block up to the call of the manager: the claims it reads, whose values
  are only logged.
\<close>

definition read_token_claims :: "('alg, 'v, 'j) jwt_ops \<Rightarrow> string \<Rightarrow> exn + 'j" where
  "read_token_claims J jwt_str =
     bindE (jwt_decode J jwt_str) (\<lambda>jwt.
     bindE (get_type J jwt) (\<lambda>typ.
     bindE (get_algorithm J jwt) (\<lambda>algorithm.
     bindE (get_key_id J jwt) (\<lambda>key_id.
     bindE (get_issuer J jwt) (\<lambda>issuer.
     bindE (if has_payload_claim J jwt ''aud'' then bindE (get_audience J jwt) (\<lambda>_. Inr ()) else Inr ()) (\<lambda>aud.
     Inr jwt))))))"

text \<open>What follows a token the manager accepts.\<close>

definition finish_verification ::
  "('alg, 'v, 'j) jwt_ops \<Rightarrow> (json \<Rightarrow> string) \<Rightarrow> string \<Rightarrow> 'j \<Rightarrow> exn + int" where
  "finish_verification J serialize jwt_str jwt =
     bindE (jwtinterface_getusercontext J serialize jwt_str) (\<lambda>user_ctx.
       case user_ctx of
         None \<Rightarrow> Inr 3
       | Some _ \<Rightarrow>
           bindE (get_issued_at J jwt) (\<lambda>issue_time_date.
           bindE (get_expires_at J jwt) (\<lambda>valid_until_date.
           Inr 0)))"

definition catch_auth :: "exn + int \<Rightarrow> exn + int" where
  "catch_auth r = (case r of Inl e \<Rightarrow> if auth_caught e then Inr 1 else Inl e | Inr n \<Rightarrow> Inr n)"

definition verify_jwks_authentication_jwt ::
  "('alg, 'v, 'j) jwt_ops \<Rightarrow> (json \<Rightarrow> string) \<Rightarrow> (string \<Rightarrow> json) \<Rightarrow> jwks_env \<Rightarrow> string \<Rightarrow> 'v stores \<Rightarrow>
   (exn + int) \<times> 'v stores \<times> (string \<times> string) list" where
  "verify_jwks_authentication_jwt J serialize parse env jwt_str stores =
     (case read_token_claims J jwt_str of
        Inl e \<Rightarrow> (catch_auth (Inl e), stores, [])
      | Inr jwt \<Rightarrow>
          (case verify_jwt J parse env ''microsoft'' jwt_str stores of
             (Inl e, stores, saved) \<Rightarrow> (catch_auth (Inl e), stores, saved)
           | (Inr verify_res, stores, saved) \<Rightarrow>
               if verify_res = False then (Inr 2, stores, saved)
               else (catch_auth (finish_verification J serialize jwt_str jwt), stores, saved)))"

text \<open>The token comes from the cookies; \<open>None\<close> is a read outside the header's buffer.\<close>

definition verify_jwks_authentication ::
  "('alg, 'v, 'j) jwt_ops \<Rightarrow> (json \<Rightarrow> string) \<Rightarrow> (string \<Rightarrow> json) \<Rightarrow> jwks_env \<Rightarrow> bool \<Rightarrow>
   char list option \<Rightarrow> string option \<Rightarrow> 'v stores \<Rightarrow>
   ((exn + int) \<times> 'v stores \<times> (string \<times> string) list) option" where
  "verify_jwks_authentication J serialize parse env malloc_ok cookies_str auth_str stores =
     (case jwtinterface_get_token_from_cookie_or_authorization malloc_ok cookies_str auth_str of
        None \<Rightarrow> None
      | Some (jwt_str, _) \<Rightarrow> Some (verify_jwks_authentication_jwt J serialize parse env jwt_str stores))"

text \<open>
  The user of a token with the result of its verification: the two overloads of
  \<^verbatim>\<open>application_verify_jwt_authentication\<close> share this tail. Without a store manager nothing is
  verified.
\<close>

definition user_with_result ::
  "('alg, 'v, 'j) jwt_ops \<Rightarrow> (json \<Rightarrow> string) \<Rightarrow> (string \<Rightarrow> json) \<Rightarrow> jwks_env \<Rightarrow> bool \<Rightarrow> string \<Rightarrow> 'v stores \<Rightarrow>
   (exn + JWTUserContext option) \<times> 'v stores \<times> (string \<times> string) list" where
  "user_with_result J serialize parse env store_man jwt_str stores =
     (case (if store_man then verify_jwks_authentication_jwt J serialize parse env jwt_str stores
            else (Inr 0, stores, [])) of
        (Inl e, stores, saved) \<Rightarrow> (Inl e, stores, saved)
      | (Inr verified_result, stores, saved) \<Rightarrow>
          (bindE (jwtinterface_getusercontext J serialize jwt_str)
             (\<lambda>user_ctx. Inr (map_option (\<lambda>u. u\<lparr>verified := verified_result\<rparr>) user_ctx)),
           stores, saved))"

definition application_verify_jwt_authentication ::
  "('alg, 'v, 'j) jwt_ops \<Rightarrow> (json \<Rightarrow> string) \<Rightarrow> (string \<Rightarrow> json) \<Rightarrow> jwks_env \<Rightarrow> bool \<Rightarrow>
   (string \<times> string) list option \<Rightarrow> 'v stores \<Rightarrow>
   (exn + JWTUserContext option) \<times> 'v stores \<times> (string \<times> string) list" where
  "application_verify_jwt_authentication J serialize parse env store_man cookies stores =
     user_with_result J serialize parse env store_man
       (case HTTPUtils_get_cookie cookies ''auth'' 0 of None \<Rightarrow> [] | Some jwt_chr \<Rightarrow> jwt_chr) stores"

definition application_verify_jwt_authentication_str ::
  "('alg, 'v, 'j) jwt_ops \<Rightarrow> (json \<Rightarrow> string) \<Rightarrow> (string \<Rightarrow> json) \<Rightarrow> jwks_env \<Rightarrow> bool \<Rightarrow> bool \<Rightarrow>
   char list option \<Rightarrow> string option \<Rightarrow> 'v stores \<Rightarrow>
   ((exn + JWTUserContext option) \<times> 'v stores \<times> (string \<times> string) list) option" where
  "application_verify_jwt_authentication_str J serialize parse env malloc_ok store_man cookies_str auth_str stores =
     (case jwtinterface_get_token_from_cookie_or_authorization malloc_ok cookies_str auth_str of
        None \<Rightarrow> None
      | Some (jwt_str, _) \<Rightarrow> Some (user_with_result J serialize parse env store_man jwt_str stores))"

subsection \<open>The membership table\<close>

text \<open>
  The tables \<^verbatim>\<open>users (username, groupid)\<close> and \<^verbatim>\<open>groups (groupid, groupname)\<close> as their rows.
  \<open>initdb\<close> is the effect of the site's own \<^verbatim>\<open>INITDB_STATEMENTS\<close>.
\<close>

record database =
  users :: "(string \<times> int) list"
  groups :: "(int \<times> string) list"

definition application_database_init ::
  "(string \<Rightarrow> bool) \<Rightarrow> (database \<Rightarrow> database) \<Rightarrow> string \<Rightarrow> database \<Rightarrow> int \<times> database" where
  "application_database_init fileexists initdb db_filename db =
     (if \<not> fileexists db_filename then (0, initdb (db\<lparr>users := [], groups := []\<rparr>)) else (0, db))"

text \<open>\<^verbatim>\<open>SELECT COUNT(*) FROM users WHERE username = ? AND (groupid = ? OR groupid = 1)\<close>.\<close>

definition application_check_authorisation :: "database \<Rightarrow> string \<Rightarrow> int \<Rightarrow> int" where
  "application_check_authorisation db user_id client_id =
     (if client_id \<le> 0 then 0
      else int (length (filter (\<lambda>(username, groupid). username = user_id \<and> (groupid = client_id \<or> groupid = 1)) (users db))))"

subsection \<open>The page templates\<close>

text \<open>The site's texts are those of \<^verbatim>\<open>appspecific.h\<close>.\<close>

record site_texts =
  WELCOME_TO_COMPANY_NAME :: string
  APPLICATION_NAME :: string
  PRIVACY_POLICY_URL :: string
  APPLICATION_LOGO_LIGHT :: string
  APPLICATION_LOGO_DARK :: string

definition application_template_init :: "site_texts \<Rightarrow> TemplateEngine \<Rightarrow> TemplateEngine" where
  "application_template_init site page =
     SetVariable ''APPLICATION_APPLICATION_LOGO_DARK'' (APPLICATION_LOGO_DARK site)
     (SetVariable ''APPLICATION_APPLICATION_LOGO_LIGHT'' (APPLICATION_LOGO_LIGHT site)
     (SetVariable ''PRIVACY_POLICY_URL'' (PRIVACY_POLICY_URL site)
     (SetVariable ''APPLICATION_NAME'' (APPLICATION_NAME site)
     (SetVariable ''WELCOME_TO_COMPANY_NAME'' (WELCOME_TO_COMPANY_NAME site) page))))"

definition application_page_get_content :: "TemplateEngine \<Rightarrow> string" where
  "application_page_get_content page = Render True page"

subsection \<open>Starting up (\<^verbatim>\<open>appsrc/auth.cpp\<close>)\<close>

text \<open>
  The store of \<^verbatim>\<open>microsoft\<close> is created, pointed at its file and its address, and filled from
  the file. An exception leaves \<^verbatim>\<open>main\<close>.
\<close>

definition auth_startup ::
  "('alg, 'v, 'j) jwt_ops \<Rightarrow> (string \<Rightarrow> json) \<Rightarrow> jwks_env \<Rightarrow> exn + 'v stores" where
  "auth_startup J parse env =
     (let (store, stores) = get_or_create_store ''microsoft'' Map.empty;
          store = store\<lparr>backing_file := ''./conf/microsoft.jwks.json'',
                        src_url := ''https://login.microsoftonline.com/common/discovery/v2.0/keys''\<rparr>
      in case fetch_jwks_json env (backing_file store) 0 of
           Inl e \<Rightarrow> Inl e
         | Inr (jwks_string, last_time) \<Rightarrow>
             (case add_jwks_verifiers_from_string J parse jwks_string store of
                (Inl e, store) \<Rightarrow> Inl e
              | (Inr _, store) \<Rightarrow>
                  Inr (stores(''microsoft'' \<mapsto> store\<lparr>last_fetch_time := last_time * nanoseconds\<rparr>))))"

subsection \<open>What the results mean\<close>

lemma read_claims_decode: "read_token_claims J s = Inr jwt \<Longrightarrow> jwt_decode J s = Inr jwt"
  by (auto simp: read_token_claims_def bindE_Inr_iff)

lemma catch_auth_Inr [simp]: "catch_auth (Inr n) = Inr n"
  by (simp add: catch_auth_def)

lemma catch_auth_zero: "catch_auth r = Inr 0 \<longleftrightarrow> r = Inr 0"
  by (auto simp: catch_auth_def split: sum.split)

lemma catch_auth_range: "(\<And>n. r = Inr n \<Longrightarrow> n \<in> {0, 1, 2, 3}) \<Longrightarrow>
    catch_auth r \<in> Inr ` {0, 1, 2, 3} \<union> Inl ` {Out_of_range, Bad_cast, Undefined}"
proof (cases r)
  case (Inl e)
  then show ?thesis by (cases e) (auto simp: catch_auth_def auth_caught_def)
qed (auto simp: catch_auth_def)

lemma finish_zero: "finish_verification J serialize s jwt = Inr 0 \<Longrightarrow>
    \<exists>u. jwtinterface_getusercontext J serialize s = Inr (Some u)"
  by (auto simp: finish_verification_def bindE_Inr_iff split: option.splits)

lemma finish_range: "finish_verification J serialize s jwt = Inr n \<Longrightarrow> n \<in> {0, 1, 2, 3}"
  by (auto simp: finish_verification_def bindE_Inr_iff split: option.splits)

lemma verify_auth_unreadable:
  "read_token_claims J s = Inl e \<Longrightarrow>
   verify_jwks_authentication_jwt J serialize parse env s stores = (catch_auth (Inl e), stores, [])"
  by (simp add: verify_jwks_authentication_jwt_def)

lemma verify_auth_read:
  assumes "read_token_claims J s = Inr jwt" "verify_jwt J parse env ''microsoft'' s stores = (r, stores', saved)"
  shows "verify_jwks_authentication_jwt J serialize parse env s stores =
    (case r of
       Inl e \<Rightarrow> catch_auth (Inl e)
     | Inr True \<Rightarrow> catch_auth (finish_verification J serialize s jwt)
     | Inr False \<Rightarrow> Inr 2, stores', saved)"
  using assms by (simp add: verify_jwks_authentication_jwt_def split: sum.split bool.split)

lemma verify_auth_cases:
  obtains (unreadable) e where "read_token_claims J s = Inl e"
  | (read) jwt r stores' saved where "read_token_claims J s = Inr jwt"
      "verify_jwt J parse env ''microsoft'' s stores = (r, stores', saved)"
  by (metis obj_sumE prod_cases3)

lemma catch_auth_Inl: "catch_auth (Inl e) \<in> Inr ` {0, 1, 2, 3} \<union> Inl ` {Out_of_range, Bad_cast, Undefined}"
  by (rule catch_auth_range) simp

lemma catch_auth_Inl_not_zero: "catch_auth (Inl e) \<noteq> Inr 0"
  by (simp add: catch_auth_zero)

lemma verify_auth_zero:
  assumes "verify_jwks_authentication_jwt J serialize parse env s stores = (Inr 0, stores', saved)"
  obtains jwt u where "jwt_decode J s = Inr jwt"
    "verify_jwt J parse env ''microsoft'' s stores = (Inr True, stores', saved)"
    "jwtinterface_getusercontext J serialize s = Inr (Some u)"
proof (cases rule: verify_auth_cases [where J = J and s = s and parse = parse and env = env and stores = stores])
  case (unreadable e)
  then show ?thesis
    using assms catch_auth_Inl_not_zero [of e] by (simp add: verify_auth_unreadable)
next
  case (read jwt r st sv)
  have r: "(case r of Inl e \<Rightarrow> catch_auth (Inl e) | Inr True \<Rightarrow> catch_auth (finish_verification J serialize s jwt)
      | Inr False \<Rightarrow> Inr 2) = Inr 0" and st: "st = stores'" "sv = saved"
    using assms unfolding verify_auth_read [OF read] prod.inject by blast+
  have "r = Inr True \<and> finish_verification J serialize s jwt = Inr 0"
  proof (cases r)
    case (Inl e)
    then show ?thesis using r catch_auth_Inl_not_zero [of e] by simp
  next
    case (Inr b)
    then show ?thesis using r by (cases b) (simp_all add: catch_auth_zero)
  qed
  then have r: "r = Inr True" and f: "finish_verification J serialize s jwt = Inr 0" by simp_all
  from finish_zero [OF f] obtain u where "jwtinterface_getusercontext J serialize s = Inr (Some u)" ..
  with that [OF read_claims_decode [OF read(1)]] read(2) st r show ?thesis by simp
qed

lemma verify_auth_range:
  "fst (verify_jwks_authentication_jwt J serialize parse env s stores) \<in>
     Inr ` {0, 1, 2, 3} \<union> Inl ` {Out_of_range, Bad_cast, Undefined}"
proof (cases rule: verify_auth_cases [where J = J and s = s and parse = parse and env = env and stores = stores])
  case (unreadable e)
  then show ?thesis using catch_auth_Inl [of e] by (simp add: verify_auth_unreadable)
next
  case (read jwt r st sv)
  have "catch_auth (finish_verification J serialize s jwt) \<in>
      Inr ` {0, 1, 2, 3} \<union> Inl ` {Out_of_range, Bad_cast, Undefined}"
    by (rule catch_auth_range) (rule finish_range)
  then show ?thesis
    using catch_auth_Inl by (simp add: verify_auth_read [OF read] split: sum.split bool.split)
qed

lemma verify_auth_reaches:
  assumes "verify_jwks_authentication_jwt J serialize parse env s stores = (r, stores', saved)"
  shows "manager_reaches J parse stores stores'"
proof (cases rule: verify_auth_cases [where J = J and s = s and parse = parse and env = env and stores = stores])
  case (unreadable e)
  then show ?thesis using assms manager_reaches.start by (simp add: verify_auth_unreadable)
next
  case (read jwt r' st sv)
  then have "st = stores'" using assms by (simp add: verify_auth_read [OF read])
  with manager_reaches.step [OF manager_reaches.start verify_jwt_step [OF read(2)]] show ?thesis by simp
qed

lemma startup_keys:
  assumes "auth_startup J parse env = Inr stores" "get_verifier i kid stores = Some v"
  shows "\<exists>key. key_entry J key = Some (kid, v)"
proof -
  obtain s t where f: "fetch_jwks_json env ''./conf/microsoft.jwks.json'' 0 = Inr (s, t)"
    using assms(1) by (cases "fetch_jwks_json env ''./conf/microsoft.jwks.json'' 0")
      (auto simp: auth_startup_def get_or_create_store_def Let_def split: option.splits)
  let ?store = "new_store\<lparr>backing_file := ''./conf/microsoft.jwks.json'',
      src_url := ''https://login.microsoftonline.com/common/discovery/v2.0/keys''\<rparr>"
  have "verifiers (snd (add_jwks_verifiers_from_string J parse s ?store)) kid = Some v"
    using assms f by (auto simp: auth_startup_def get_or_create_store_def get_verifier_def try_emplace_def Let_def
        split: sum.splits if_splits prod.splits)
  then have "map_of (document_entries J (parse s)) kid = Some v"
    by (simp add: add_jwks_verifiers new_store_def)
  then show ?thesis
    by (auto simp: document_entries_def map_filter_def dest!: map_of_SomeD split: sum.splits option.splits) blast
qed

lemma token_trusted:
  assumes "auth_startup J parse env0 = Inr stores0" "manager_reaches J parse stores0 stores"
    and "verify_jwks_authentication_jwt J serialize parse env token stores = (Inr 0, stores', saved)"
  shows "\<exists>jwt kid key v user. jwt_decode J token = Inr jwt \<and> get_key_id J jwt = Inr kid \<and>
    key_entry J key = Some (kid, v) \<and> jwt_verify J v jwt (later_now env) = Inr () \<and>
    payload_user (get_payload_json J jwt) = Some user"
proof -
  from verify_auth_zero [OF assms(3)] obtain jwt u where d: "jwt_decode J token = Inr jwt"
    and v: "verify_jwt J parse env ''microsoft'' token stores = (Inr True, stores', saved)"
    and u: "jwtinterface_getusercontext J serialize token = Inr (Some u)"
    by blast
  from verify_jwt_accepted [OF v] d obtain kid w where k: "get_key_id J jwt = Inr kid"
    "get_verifier ''microsoft'' kid stores' = Some w" "jwt_verify J w jwt (later_now env) = Inr ()"
    by (metis Inr_inject)
  have "\<exists>key. key_entry J key = Some (kid, w)"
    using reaches_new [OF manager_reaches.step [OF assms(2) verify_jwt_step [OF v]] k(2)]
      startup_keys [OF assms(1)] by blast
  moreover have "token \<noteq> []" using u by auto
  then have "payload_user (get_payload_json J jwt) \<noteq> None"
    using u user_context_payload [OF _ d, of serialize] by auto
  ultimately show ?thesis using d k by blast
qed

subsection \<open>Properties\<close>

definition toy_files :: jwks_env where
  "toy_files = toy_env\<lparr>open_file := (\<lambda>_. Some (Some ''{}'')), st_mtime := (\<lambda>_. Some 1)\<rparr>"

lemma toy_startup: "\<exists>stores. auth_startup toy_jwt (\<lambda>_. toy_document) toy_files = Inr stores \<and>
    (\<exists>store. stores ''microsoft'' = Some store \<and> verifiers store ''a'' = Some ''xy'')"
  using toy_key_entry
  by (auto simp: auth_startup_def get_or_create_store_def Let_def fetch_jwks_json_def toy_files_def new_store_def
      add_jwks_verifiers_from_string_def keys_of_document_def toy_document_def add_key_eq try_emplace_def)

text \<open>
  C5. End to end: a service that started from its key file, over any sequence of operations on
  its key stores, lets \<^verbatim>\<open>verify_jwks_authentication_jwt\<close> answer 0 only for a token that decodes,
  whose key id is that of a complete JWK, that the verifier built from that JWK accepts now, and
  whose payload names a user.
\<close>

theorem verified_token_trusted:
  assumes "auth_startup J parse env0 = Inr stores0" "manager_reaches J parse stores0 stores"
    and "verify_jwks_authentication_jwt J serialize parse env token stores = (Inr 0, stores', saved)"
  shows "\<exists>jwt kid key v user. jwt_decode J token = Inr jwt \<and> get_key_id J jwt = Inr kid \<and>
    key_entry J key = Some (kid, v) \<and> jwt_verify J v jwt (later_now env) = Inr () \<and>
    payload_user (get_payload_json J jwt) = Some user"
  using assms by (rule token_trusted)

theorem verified_token_trusted_witness:
  "\<exists>jwt kid key v user. jwt_decode toy_jwt ''axy'' = Inr jwt \<and> get_key_id toy_jwt jwt = Inr kid \<and>
    key_entry toy_jwt key = Some (kid, v) \<and> jwt_verify toy_jwt v jwt (later_now toy_env) = Inr () \<and>
    payload_user (get_payload_json toy_jwt jwt) = Some user"
proof -
  from toy_startup obtain stores store where s: "auth_startup toy_jwt (\<lambda>_. toy_document) toy_files = Inr stores"
    "stores ''microsoft'' = Some store" "verifiers store ''a'' = Some ''xy''"
    by blast
  have u: "jwtinterface_getusercontext toy_jwt (\<lambda>_. []) ''axy'' \<noteq> Inr None"
    "\<exists>r. jwtinterface_getusercontext toy_jwt (\<lambda>_. []) ''axy'' = Inr r"
    by (simp_all add: user_context_payload [where jwt = "''axy''"] toy_jwt_def payload_user_def claim_text_def)
  then have "verify_jwks_authentication_jwt toy_jwt (\<lambda>_. []) (\<lambda>_. toy_document) toy_env ''axy'' stores =
      (Inr 0, stores(''microsoft'' \<mapsto> store), [])"
    using s by (auto simp: verify_jwks_authentication_jwt_def read_token_claims_def toy_jwt_def verify_jwt_def
        find_store_def find_verifier_def finish_verification_def split: option.split)
  then show ?thesis by (rule verified_token_trusted [OF s(1) manager_reaches.start])
qed

text \<open>
  C34. Every error the token functions mean to handle becomes a code: verification returns 0, 1, 2
  or 3, and the only exceptions that leave it are those its two handlers do not name.
\<close>

theorem verification_codes:
  "fst (verify_jwks_authentication_jwt J serialize parse env token stores) \<in>
     {Inr 0, Inr 1, Inr 2, Inr 3, Inl Out_of_range, Inl Bad_cast, Inl Undefined}"
  using verify_auth_range [of J serialize parse env token stores] by auto

text \<open>
  A missing claim leaves the service: a token that decodes but has no \<^verbatim>\<open>typ\<close> makes the library
  throw \<^verbatim>\<open>claim_not_present_exception\<close>, an \<^verbatim>\<open>out_of_range\<close>, which neither
  \<^verbatim>\<open>verify_jwks_authentication_jwt\<close> nor the functions that call it catch.
\<close>

theorem missing_claim_escapes:
  assumes "jwt_decode J token = Inr jwt" "get_type J jwt = Inl Out_of_range"
    and "HTTPUtils_get_cookie cookies ''auth'' 0 = Some token"
  shows "verify_jwks_authentication_jwt J serialize parse env token stores = (Inl Out_of_range, stores, []) \<and>
    application_verify_jwt_authentication J serialize parse env True cookies stores = (Inl Out_of_range, stores, [])"
  using assms
  by (simp add: application_verify_jwt_authentication_def user_with_result_def
      verify_jwks_authentication_jwt_def read_token_claims_def catch_auth_def auth_caught_def)

theorem missing_claim_escapes_witness:
  "application_verify_jwt_authentication (toy_jwt\<lparr>get_type := (\<lambda>_. Inl Out_of_range)\<rparr>) (\<lambda>_. []) (\<lambda>_. toy_document)
     toy_env True (Some [(''auth'', ''axy'')]) Map.empty = (Inl Out_of_range, Map.empty, [])"
  using missing_claim_escapes [of "toy_jwt\<lparr>get_type := (\<lambda>_. Inl Out_of_range)\<rparr>" "''axy''" "''axy''"
      "Some [(''auth'', ''axy'')]" "\<lambda>_. []" "\<lambda>_. toy_document" toy_env Map.empty]
  by (simp add: toy_jwt_def get_cookie_eq)

text \<open>
  \<^verbatim>\<open>application_check_authorisation\<close> counts at most two memberships in a table with its
  primary key, and is non-zero exactly for a positive client whose group, or the
  administrators' group 1, the user belongs to.
\<close>

theorem authorisation_membership:
  assumes "distinct (users db)"
  shows "0 \<le> application_check_authorisation db user client \<and> application_check_authorisation db user client \<le> 2 \<and>
    (application_check_authorisation db user client \<noteq> 0 \<longleftrightarrow>
       0 < client \<and> ((user, client) \<in> set (users db) \<or> (user, 1) \<in> set (users db)))"
proof -
  let ?rows = "filter (\<lambda>(username, groupid). username = user \<and> (groupid = client \<or> groupid = 1)) (users db)"
  have "length ?rows = card (set ?rows)" using assms by (simp add: distinct_card [symmetric] del: set_filter)
  also have "\<dots> \<le> card {(user, client), (user, 1)}" by (rule card_mono) auto
  also have "\<dots> \<le> 2" by (simp add: card_insert_if)
  finally have "length ?rows \<le> 2" .
  moreover have "?rows = [] \<longleftrightarrow> (user, client) \<notin> set (users db) \<and> (user, 1) \<notin> set (users db)"
    by (auto simp: filter_empty_conv)
  ultimately show ?thesis by (auto simp: application_check_authorisation_def)
qed

theorem authorisation_membership_witness:
  "application_check_authorisation \<lparr>users = [(''ann'', 7), (''bob'', 1)], groups = []\<rparr> ''bob'' 7 \<noteq> 0"
  using authorisation_membership [of "\<lparr>users = [(''ann'', 7), (''bob'', 1)], groups = []\<rparr>" "''bob''" 7] by simp

end
