(* ===== verification/Httpclient.thy ===== *)
theory Httpclient
  imports Libgreen
begin

section \<open>The HTTP client (\<^verbatim>\<open>src/httpclient.c\<close>)\<close>

text \<open>
  \<^verbatim>\<open>http_post\<close> sends one request and collects the body through \<^verbatim>\<open>write_callback\<close>, which
  refuses to grow past \<^verbatim>\<open>MAX_RESPONSE_SIZE\<close>. The locale \<open>bounded_buffer\<close> is the contract of
  such a buffer and proves what a sequence of offers leaves in it; the callback provides it.
  curl is a parameter: what a transfer delivers, and its result codes.
\<close>

subsection \<open>The code\<close>

definition MAX_RESPONSE_SIZE :: u64 where
  "MAX_RESPONSE_SIZE = 1024 * 1024"

text \<open>
  The arguments \<^verbatim>\<open>size\<close> and \<^verbatim>\<open>nmemb\<close>, the bytes at \<^verbatim>\<open>ptr\<close>, and the buffer's bytes;
  \<open>realloc_ok\<close> tells whether an allocation of a size succeeds.
\<close>

definition write_callback :: "(u64 \<Rightarrow> bool) \<Rightarrow> string \<Rightarrow> u64 \<Rightarrow> u64 \<Rightarrow> string \<Rightarrow> u64 \<times> string" where
  "write_callback realloc_ok ptr sz nmemb buf =
     (let bytes = sz * nmemb
      in if bytes = 0 then (0, buf)
         else if bytes > MAX_RESPONSE_SIZE - of_nat (length buf) then (0, buf)
         else let new_size = of_nat (length buf) + bytes
              in if \<not> realloc_ok new_size then (0, buf)
                 else (bytes, buf @ take (unat bytes) ptr))"

text \<open>
  A transfer as curl performs it: the callback gets the chunks in turn, and one it does not take
  whole ends the transfer.
\<close>

type_synonym chunk = "string \<times> u64 \<times> u64"

fun deliver :: "(u64 \<Rightarrow> bool) \<Rightarrow> chunk list \<Rightarrow> string \<Rightarrow> bool \<times> string" where
  "deliver realloc_ok [] buf = (True, buf)"
| "deliver realloc_ok ((ptr, sz, nmemb) # chunks) buf =
     (case write_callback realloc_ok ptr sz nmemb buf of (taken, buf) \<Rightarrow>
        if taken \<noteq> sz * nmemb then (False, buf) else deliver realloc_ok chunks buf)"

record http_env =
  curl_init_ok :: bool
  slist_append_ok :: bool
  realloc_ok :: "u64 \<Rightarrow> bool"
  strdup_ok :: bool
  transfer :: "string \<Rightarrow> string \<Rightarrow> string \<Rightarrow> chunk list \<times> int"
  getinfo_content_type :: "int \<times> string option"
  getinfo_response_code :: int

record HttpResponse =
  content_type :: "string option"
  response_data :: "string option"

definition empty_response :: HttpResponse where
  "empty_response = \<lparr>content_type = None, response_data = None\<rparr>"

text \<open>
  \<open>url\<close> is an option for its null check. The body is absent when no byte arrived; the
  length of the body is the length of its text. 23 is \<^verbatim>\<open>CURLE_WRITE_ERROR\<close>.
\<close>

definition http_post ::
  "'d dynstring_ops \<Rightarrow> http_env \<Rightarrow> string option \<Rightarrow> string \<Rightarrow> string \<Rightarrow> HttpResponse option \<Rightarrow> int \<times> HttpResponse option" where
  "http_post D env url ctype post_data response =
     (case (url, response) of
        (Some url, Some _) \<Rightarrow>
          if \<not> curl_init_ok env then (-1, Some empty_response)
          else
            let header = snd (ds_appendstringz D (ds_default D) [''Content-Type: '', ctype])
            in if \<not> slist_append_ok env then (-1, Some empty_response)
            else
              (case transfer env url (ds_getcstring D header) post_data of (chunks, code) \<Rightarrow>
              (case deliver (realloc_ok env) chunks [] of (whole, buffer) \<Rightarrow>
                 let rc = (if whole then code else 23)
                 in if rc \<noteq> 0 then (-1, Some empty_response)
                 else
                   (case getinfo_content_type env of (rc, res_content_type) \<Rightarrow>
                      let kept = (if rc = 0 \<and> getinfo_response_code env = 200 then res_content_type else None)
                      in if kept \<noteq> None \<and> \<not> strdup_ok env then (-1, Some empty_response)
                         else (0, Some \<lparr>content_type = kept,
                                        response_data = (if buffer = [] then None else Some buffer)\<rparr>))))
      | _ \<Rightarrow> (-1, response))"

definition http_response_free :: "HttpResponse option \<Rightarrow> HttpResponse option" where
  "http_response_free response = (case response of None \<Rightarrow> None | Some _ \<Rightarrow> Some empty_response)"

subsection \<open>Bounded buffers\<close>

text \<open>Offering items in turn until one is refused.\<close>

fun feed :: "('x \<Rightarrow> 's \<Rightarrow> bool \<times> 's) \<Rightarrow> 'x list \<Rightarrow> 's \<Rightarrow> bool \<times> 's" where
  "feed offer [] s = (True, s)"
| "feed offer (x # xs) s = (case offer x s of (took, s) \<Rightarrow> if took then feed offer xs s else (False, s))"

locale bounded_buffer =
  fixes content :: "'s \<Rightarrow> 'a list" and payload :: "'x \<Rightarrow> 'a list" and valid :: "'x \<Rightarrow> bool"
    and offer :: "'x \<Rightarrow> 's \<Rightarrow> bool \<times> 's" and cap :: nat
  assumes offer_taken: "valid x \<Longrightarrow> length (content s) \<le> cap \<Longrightarrow> length (content s) + length (payload x) \<le> cap \<Longrightarrow>
      fst (offer x s) \<and> content (snd (offer x s)) = content s @ payload x"
    and offer_refused: "valid x \<Longrightarrow> length (content s) \<le> cap \<Longrightarrow> \<not> length (content s) + length (payload x) \<le> cap \<Longrightarrow>
      \<not> fst (offer x s) \<and> content (snd (offer x s)) = content s"
begin

lemma feed_decides:
  assumes "\<forall>x\<in>set xs. valid x" "length (content s) \<le> cap"
  shows "fst (feed offer xs s) \<longleftrightarrow> length (content s) + length (concat (map payload xs)) \<le> cap"
  using assms
proof (induction xs arbitrary: s)
  case (Cons x xs)
  show ?case
  proof (cases "length (content s) + length (payload x) \<le> cap")
    case True
    with Cons offer_taken [of x s] show ?thesis by (simp add: split_def add.assoc)
  next
    case False
    with Cons.prems offer_refused [of x s] show ?thesis by (simp add: split_def)
  qed
qed simp

lemma feed_whole:
  assumes "\<forall>x\<in>set xs. valid x" "length (content s) + length (concat (map payload xs)) \<le> cap"
  shows "content (snd (feed offer xs s)) = content s @ concat (map payload xs)"
  using assms
proof (induction xs arbitrary: s)
  case (Cons x xs)
  with offer_taken [of x s] show ?case by (simp add: split_def)
qed simp

lemma feed_bound:
  assumes "\<forall>x\<in>set xs. valid x" "length (content s) \<le> cap"
  shows "length (content (snd (feed offer xs s))) \<le> cap"
  using assms
proof (induction xs arbitrary: s)
  case (Cons x xs)
  show ?case
  proof (cases "length (content s) + length (payload x) \<le> cap")
    case True
    with Cons offer_taken [of x s] show ?thesis by (simp add: split_def)
  next
    case False
    with Cons.prems offer_refused [of x s] show ?thesis by (simp add: split_def)
  qed
qed simp

end

subsection \<open>The callback is one\<close>

text \<open>A well-formed chunk carries the bytes its sizes announce.\<close>

definition chunk_bytes :: "chunk \<Rightarrow> string" where
  "chunk_bytes c = fst c"

definition chunk_ok :: "chunk \<Rightarrow> bool" where
  "chunk_ok c \<longleftrightarrow> unat (fst (snd c) * snd (snd c)) = length (chunk_bytes c)"

definition offer_chunk :: "chunk \<Rightarrow> string \<Rightarrow> bool \<times> string" where
  "offer_chunk c buf =
     (case c of (ptr, sz, nmemb) \<Rightarrow>
      case write_callback (\<lambda>_. True) ptr sz nmemb buf of (taken, buf) \<Rightarrow> (taken = sz * nmemb, buf))"

lemma write_callback_eq:
  assumes "length buf \<le> 1048576" "unat (sz * nmemb) = length ptr"
  shows "write_callback (\<lambda>_. True) ptr sz nmemb buf =
    (if length buf + length ptr \<le> 1048576 then (sz * nmemb, buf @ ptr) else (0, buf))"
proof -
  have "length buf < 2 ^ LENGTH(64)" using assms(1) by simp
  then have l: "unat (of_nat (length buf) :: u64) = length buf"
    by (simp add: unat_of_nat)
  then have "(of_nat (length buf) :: u64) \<le> MAX_RESPONSE_SIZE"
    using assms(1) by (simp add: word_le_nat_alt MAX_RESPONSE_SIZE_def)
  then have m: "unat (MAX_RESPONSE_SIZE - of_nat (length buf)) = 1048576 - length buf"
    using l by (simp add: unat_sub MAX_RESPONSE_SIZE_def)
  show ?thesis
  proof (cases "sz * nmemb = 0")
    case True
    then show ?thesis using assms by (simp add: write_callback_def)
  next
    case False
    then show ?thesis
      using assms(1) by (auto simp: write_callback_def Let_def word_less_nat_alt m assms(2))
  qed
qed

interpretation response: bounded_buffer "\<lambda>buf. buf" chunk_bytes chunk_ok offer_chunk 1048576
proof (unfold_locales, goal_cases)
  case (1 x s)
  then show ?case
    by (cases x) (simp add: offer_chunk_def chunk_ok_def chunk_bytes_def write_callback_eq)
next
  case (2 x s)
  moreover from this have "fst (snd x) * snd (snd x) \<noteq> 0"
    by (auto simp: chunk_ok_def simp flip: unat_eq_zero)
  ultimately show ?case
    by (cases x) (simp add: offer_chunk_def chunk_ok_def chunk_bytes_def write_callback_eq)
qed

lemma deliver_feed: "deliver (\<lambda>_. True) chunks buf = feed offer_chunk chunks buf"
  by (induction chunks arbitrary: buf) (auto simp: offer_chunk_def split: prod.split)

subsection \<open>Properties\<close>


text \<open>
  C23. The response buffer is bounded: \<^verbatim>\<open>http_post\<close> succeeds on a transfer curl completes
  exactly when the body fits \<^verbatim>\<open>MAX_RESPONSE_SIZE\<close>, and then hands over the whole body, whatever
  chunks it came in and whatever the HTTP status was; a body past the bound is an error and leaves no
  part of the response.
\<close>

theorem http_post_bounded:
  assumes "dynstring_laws D" "curl_init_ok env" "slist_append_ok env" "realloc_ok env = (\<lambda>_. True)" "strdup_ok env"
    and "transfer env url (cstr (''Content-Type: '' @ ctype)) post_data = (chunks, 0)" "\<forall>c\<in>set chunks. chunk_ok c"
  shows "(let body = concat (map chunk_bytes chunks); (rc, r) = http_post D env (Some url) ctype post_data (Some old)
     in if length body \<le> 1024 * 1024
        then rc = 0 \<and> map_option response_data r = Some (if body = [] then None else Some body)
        else rc = -1 \<and> r = Some empty_response)"
proof -
  let ?body = "concat (map chunk_bytes chunks)"
  have d: "fst (deliver (\<lambda>_. True) chunks []) \<longleftrightarrow> length ?body \<le> 1048576"
    "length ?body \<le> 1048576 \<Longrightarrow> snd (deliver (\<lambda>_. True) chunks []) = ?body"
    using response.feed_decides [OF assms(7), of "[]"] response.feed_whole [OF assms(7), of "[]"]
    by (simp_all add: deliver_feed)
  show ?thesis
    using assms d
    by (cases "deliver (\<lambda>_. True) chunks []"; cases "getinfo_content_type env")
      (auto simp: http_post_def dynstring_lawsD Let_def)
qed


definition sample_env :: http_env where
  "sample_env = \<lparr>curl_init_ok = True, slist_append_ok = True, realloc_ok = (\<lambda>_. True), strdup_ok = True,
     transfer = (\<lambda>_ _ _. ([(''ab'', 1, 2), (''c'', 1, 1)], 0)), getinfo_content_type = (0, Some ''text/plain''),
     getinfo_response_code = 500\<rparr>"

theorem http_post_bounded_witness:
  "(let (rc, r) = http_post list_dynstring sample_env (Some ''https://h'') ''t'' ''x=1'' (Some empty_response)
    in rc = 0 \<and> map_option response_data r = Some (Some ''abc''))"
  using http_post_bounded [OF list_dynstring_laws, of sample_env "''https://h''" "''t''" "''x=1''"
      "[(''ab'', 1, 2), (''c'', 1, 1)]" empty_response]
  by (simp add: sample_env_def chunk_ok_def chunk_bytes_def split_def Let_def)

end
