(* ===== verification/Login_codes.thy ===== *)
theory Login_codes
  imports Jwks_store Httpclient
begin

section \<open>Exchanging login codes for tokens (\<^verbatim>\<open>src/appauth.cpp\<close>)\<close>

text \<open>
  \<^verbatim>\<open>get_tokens_from_microsoft\<close> posts a code to the token endpoint and keeps the token it
  gets in the global \<^verbatim>\<open>g_codes_to_jwts\<close>, so that a reload of the page does not need the code
  a second time. Times are nanoseconds of the steady clock.
\<close>

subsection \<open>The cache\<close>

record TimedJWTEntry =
  jwt_value :: string
  expires_at :: int

type_synonym codes = "string \<rightharpoonup> TimedJWTEntry"

definition g_codes_to_jwts_remove_expired :: "int \<Rightarrow> codes \<Rightarrow> codes" where
  "g_codes_to_jwts_remove_expired time cache =
     (\<lambda>code. case cache code of
        None \<Rightarrow> None
      | Some it \<Rightarrow> if time \<ge> expires_at it then None else Some it)"

definition cache_time :: int where
  "cache_time = 30 * nanoseconds"

subsection \<open>The exchange\<close>

text \<open>The macros of \<^verbatim>\<open>appspecific.h\<close>.\<close>

record oauth =
  OAUTH2_DEFAULT_CLIENT_ID :: string
  OAUTH2_DEFAULT_CLIENT_SECRET :: string
  OAUTH2_DEFAULT_REDIRECT_URI :: string

text \<open>
  What a call finds around it: curl, the two readings of the steady clock (before and after the
  transfer), and whether \<^verbatim>\<open>strdup\<close> succeeds.
\<close>

record code_env =
  code_http :: http_env
  steady_now :: int
  steady_later :: int
  token_strdup_ok :: bool

definition append_parts :: "'d dynstring_ops \<Rightarrow> string list \<Rightarrow> 'd \<Rightarrow> 'd" where
  "append_parts D parts d = snd (ds_appendstringz D d parts)"

definition token_request :: "'d dynstring_ops \<Rightarrow> oauth \<Rightarrow> string \<Rightarrow> 'd" where
  "token_request D oa code =
     append_parts D [''grant_type=authorization_code'']
     (append_parts D [''redirect_uri='' @ OAUTH2_DEFAULT_REDIRECT_URI oa @ ''&'']
     (append_parts D [''&'']
     (ds_url_encode_appendz D
     (append_parts D [''code='']
     (append_parts D [''scope=openid%20profile%20email&'']
     (append_parts D [''client_secret='' @ OAUTH2_DEFAULT_CLIENT_SECRET oa @ ''&'']
     (append_parts D [''client_id='' @ OAUTH2_DEFAULT_CLIENT_ID oa @ ''&'']
     (ds_default D)))))
     code)))"

text \<open>
  The member \<^verbatim>\<open>id_token\<close> of an answer: \<open>None\<close> when the value is no object or the member no
  string. \<^verbatim>\<open>find("id_token")->second\<close> of an object without it dereferences the end iterator.
\<close>

definition id_token :: "json \<Rightarrow> exn + string option" where
  "id_token val =
     (case val of
        JObject obj \<Rightarrow>
          (case map_of obj ''id_token'' of
             None \<Rightarrow> Inl Undefined
           | Some (JString token) \<Rightarrow> Inr (Some token)
           | Some _ \<Rightarrow> Inr None)
      | _ \<Rightarrow> Inr None)"

text \<open>
  The result pairs the code with the string at \<^verbatim>\<open>*token_ptr\<close>, \<open>None\<close> for a null pointer.
  \<^verbatim>\<open>*json\<close> is null on every path.
\<close>

definition get_tokens_from_microsoft ::
  "'d dynstring_ops \<Rightarrow> oauth \<Rightarrow> (string \<Rightarrow> json) \<Rightarrow> code_env \<Rightarrow> string \<Rightarrow> codes \<Rightarrow>
   (exn + int \<times> string option) \<times> codes" where
  "get_tokens_from_microsoft D oa parse env code cache =
     (let dup = (\<lambda>s. if token_strdup_ok env then Some (cstr s) else None)
      in case cache code of
           Some existing_tok \<Rightarrow>
             (Inr (0, dup (jwt_value existing_tok)),
              cache(code \<mapsto> existing_tok\<lparr>expires_at := steady_now env + cache_time\<rparr>))
         | None \<Rightarrow>
             let cache = g_codes_to_jwts_remove_expired (steady_now env) cache
             in case http_post D (code_http env)
                       (Some ''https://login.microsoftonline.com/common/oauth2/v2.0/token'')
                       ''application/x-www-form-urlencoded'' (ds_bytes D (token_request D oa code))
                       (Some empty_response) of
                  (res, response) \<Rightarrow>
                    if res \<noteq> 0 then (Inr (-1, None), cache)
                    else
                      let inputjson = buffer_text (Option.bind response response_data)
                      in case id_token (parse inputjson) of
                           Inl e \<Rightarrow> (Inl e, cache)
                         | Inr None \<Rightarrow> (Inr (-2, None), cache)
                         | Inr (Some token) \<Rightarrow>
                             (Inr (0, dup token),
                              snd (try_emplace code \<lparr>jwt_value = token, expires_at = steady_later env + cache_time\<rparr> cache)))"

subsection \<open>How the cache grows\<close>

interpretation login: emplacing "\<lambda>cache. cache" "\<lambda>(code, entry) cache. snd (try_emplace code entry cache)" Some
  by unfold_locales (auto simp: try_emplace_map)

text \<open>The answer of the endpoint to a code.\<close>

definition exchange :: "'d dynstring_ops \<Rightarrow> oauth \<Rightarrow> (string \<Rightarrow> json) \<Rightarrow> http_env \<Rightarrow> string \<Rightarrow> exn + int \<times> string option" where
  "exchange D oa parse henv code =
     (case http_post D henv (Some ''https://login.microsoftonline.com/common/oauth2/v2.0/token'')
             ''application/x-www-form-urlencoded'' (ds_bytes D (token_request D oa code)) (Some empty_response) of
        (res, response) \<Rightarrow>
          if res \<noteq> 0 then Inr (-1, None)
          else bindE (id_token (parse (buffer_text (Option.bind response response_data))))
                 (\<lambda>t. Inr (if t = None then -2 else 0, t)))"

lemma get_tokens_hit:
  "cache code = Some entry \<Longrightarrow>
   get_tokens_from_microsoft D oa parse env code cache =
     (Inr (0, if token_strdup_ok env then Some (cstr (jwt_value entry)) else None),
      cache(code \<mapsto> entry\<lparr>expires_at := steady_now env + cache_time\<rparr>))"
  by (simp add: get_tokens_from_microsoft_def)

lemma get_tokens_miss:
  "cache code = None \<Longrightarrow>
   get_tokens_from_microsoft D oa parse env code cache =
     (let kept = g_codes_to_jwts_remove_expired (steady_now env) cache
      in case exchange D oa parse (code_http env) code of
           Inl e \<Rightarrow> (Inl e, kept)
         | Inr (rc, None) \<Rightarrow> (Inr (rc, None), kept)
         | Inr (rc, Some token) \<Rightarrow>
             (Inr (rc, if token_strdup_ok env then Some (cstr token) else None),
              snd (try_emplace code \<lparr>jwt_value = token, expires_at = steady_later env + cache_time\<rparr> kept)))"
  by (simp add: get_tokens_from_microsoft_def exchange_def Let_def bindE_def split: prod.split sum.split option.split)

lemma remove_expired_iff:
  "g_codes_to_jwts_remove_expired t cache code = Some e \<longleftrightarrow> cache code = Some e \<and> t < expires_at e"
  by (auto simp: g_codes_to_jwts_remove_expired_def split: option.splits)

text \<open>An entry that has not expired survives a call, with the same token.\<close>

lemma get_tokens_keeps:
  assumes "cache code = Some e" "limit \<le> expires_at e" "limit - cache_time \<le> steady_now env" "steady_now env < limit"
  shows "\<exists>e'. snd (get_tokens_from_microsoft D oa parse env code' cache) code = Some e' \<and>
    jwt_value e' = jwt_value e \<and> limit \<le> expires_at e'"
proof (cases "cache code'")
  case (Some e')
  then show ?thesis using assms by (cases "code' = code") (simp_all add: get_tokens_hit)
next
  case None
  let ?kept = "g_codes_to_jwts_remove_expired (steady_now env) cache"
  have k: "?kept code = Some e" using assms by (simp add: remove_expired_iff)
  then have "snd (try_emplace code' x ?kept) code = Some e" for x
    using login.lookup_kept [of ?kept code e "[(code', x)]"] by simp
  then have "snd (get_tokens_from_microsoft D oa parse env code' cache) code = Some e"
    using k None by (simp add: get_tokens_miss Let_def split: sum.split prod.split option.split)
  then show ?thesis using assms by simp
qed

definition run_codes :: "'d dynstring_ops \<Rightarrow> oauth \<Rightarrow> (string \<Rightarrow> json) \<Rightarrow> (code_env \<times> string) list \<Rightarrow> codes \<Rightarrow> codes" where
  "run_codes D oa parse calls cache =
     fold (\<lambda>(env, code) cache. snd (get_tokens_from_microsoft D oa parse env code cache)) calls cache"

lemma run_codes_keeps:
  assumes "cache code = Some e" "limit \<le> expires_at e"
    and "\<forall>(env, _)\<in>set calls. limit - cache_time \<le> steady_now env \<and> steady_now env < limit"
  shows "\<exists>e'. run_codes D oa parse calls cache code = Some e' \<and> jwt_value e' = jwt_value e \<and> limit \<le> expires_at e'"
  using assms
proof (induction calls arbitrary: cache e)
  case (Cons call calls)
  obtain env code' where c: "call = (env, code')" by (cases call)
  with Cons.prems get_tokens_keeps [of cache code e limit env D oa parse code'] obtain e1 where
    "snd (get_tokens_from_microsoft D oa parse env code' cache) code = Some e1"
    "jwt_value e1 = jwt_value e" "limit \<le> expires_at e1" by auto
  with Cons.IH [of "snd (get_tokens_from_microsoft D oa parse env code' cache)" e1] Cons.prems c
  show ?case by (auto simp: run_codes_def)
qed (auto simp: run_codes_def)

subsection \<open>Properties\<close>

text \<open>
  C17. A code is exchanged once: after a successful exchange, whatever codes are asked for in the
  next thirty seconds and whatever the endpoint then answers, the same code gets the same token
  again without a request.
\<close>

theorem code_exchanged_once:
  assumes "cache code = None" "exchange D oa parse (code_http env) code = Inr (0, Some token)"
    and "\<forall>(env', _)\<in>set calls. steady_later env \<le> steady_now env' \<and> steady_now env' < steady_later env + cache_time"
    and "token_strdup_ok env''"
  shows "fst (get_tokens_from_microsoft D oa parse env'' code
      (run_codes D oa parse calls (snd (get_tokens_from_microsoft D oa parse env code cache)))) = Inr (0, Some (cstr token))"
proof -
  let ?kept = "g_codes_to_jwts_remove_expired (steady_now env) cache"
  have "?kept code = None" using assms(1) by (simp add: g_codes_to_jwts_remove_expired_def)
  then have "snd (get_tokens_from_microsoft D oa parse env code cache) code =
      Some \<lparr>jwt_value = token, expires_at = steady_later env + cache_time\<rparr>"
    using assms(1,2) by (simp add: get_tokens_miss Let_def try_emplace_lookup)
  from run_codes_keeps [where cache = "snd (get_tokens_from_microsoft D oa parse env code cache)", OF this,
      of "steady_later env + cache_time" calls D oa parse] assms(3)
  obtain e where "run_codes D oa parse calls (snd (get_tokens_from_microsoft D oa parse env code cache)) code = Some e"
    "jwt_value e = token" by auto
  then show ?thesis using assms(4) by (simp add: get_tokens_hit)
qed

definition sample_http :: http_env where
  "sample_http = \<lparr>curl_init_ok = True, slist_append_ok = True, realloc_ok = (\<lambda>_. True), strdup_ok = True,
     transfer = (\<lambda>_ _ _. ([(''t'', 1, 1)], 0)), getinfo_content_type = (0, None), getinfo_response_code = 200\<rparr>"

definition sample_oauth :: oauth where
  "sample_oauth = \<lparr>OAUTH2_DEFAULT_CLIENT_ID = ''id'', OAUTH2_DEFAULT_CLIENT_SECRET = ''secret'',
     OAUTH2_DEFAULT_REDIRECT_URI = ''https%3A%2F%2Fhost%2F''\<rparr>"

definition sample_code_env :: "int \<Rightarrow> code_env" where
  "sample_code_env t = \<lparr>code_http = sample_http, steady_now = t, steady_later = t, token_strdup_ok = True\<rparr>"

definition sample_parse :: "string \<Rightarrow> json" where
  "sample_parse s = JObject [(''id_token'', JString s)]"

lemma sample_exchange: "exchange list_dynstring sample_oauth sample_parse sample_http ''c1'' = Inr (0, Some ''t'')"
  by (simp add: exchange_def http_post_def sample_http_def sample_parse_def id_token_def write_callback_def
      MAX_RESPONSE_SIZE_def empty_response_def list_dynstring_def list_dynstring_enc_def append_parts_def buffer_text_def Let_def)

theorem code_exchanged_once_witness:
  "fst (get_tokens_from_microsoft list_dynstring sample_oauth sample_parse (sample_code_env 60) ''c1''
      (run_codes list_dynstring sample_oauth sample_parse [(sample_code_env 5, ''c2''), (sample_code_env 9, ''c1'')]
         (snd (get_tokens_from_microsoft list_dynstring sample_oauth sample_parse (sample_code_env 0) ''c1'' Map.empty)))) =
     Inr (0, Some ''t'')"
proof -
  have "exchange list_dynstring sample_oauth sample_parse (code_http (sample_code_env 0)) ''c1'' = Inr (0, Some ''t'')"
    using sample_exchange by (simp add: sample_code_env_def)
  moreover have "\<forall>(env', _)\<in>set [(sample_code_env 5, ''c2''), (sample_code_env 9, ''c1'')].
      steady_later (sample_code_env 0) \<le> steady_now env' \<and> steady_now env' < steady_later (sample_code_env 0) + cache_time"
    by (simp add: sample_code_env_def cache_time_def nanoseconds_def)
  ultimately show ?thesis
    using code_exchanged_once [of Map.empty "''c1''" list_dynstring sample_oauth sample_parse "sample_code_env 0" "''t''"]
    by (simp add: sample_code_env_def)
qed

text \<open>
  The cache keeps no expired token of another code, and a failed exchange stores nothing: after
  a call for a code that is not cached, every entry either was there before and has not expired,
  or is the token just exchanged.
\<close>

theorem miss_purges_cache:
  assumes "cache code = None" "get_tokens_from_microsoft D oa parse env code cache = (r, cache')"
    and "cache' other = Some e"
  shows "(cache other = Some e \<and> steady_now env < expires_at e) \<or>
    (other = code \<and> exchange D oa parse (code_http env) code = Inr (0, Some (jwt_value e)) \<and>
     expires_at e = steady_later env + cache_time)"
proof -
  let ?kept = "g_codes_to_jwts_remove_expired (steady_now env) cache"
  have k: "?kept code = None" using assms(1) by (simp add: g_codes_to_jwts_remove_expired_def)
  show ?thesis
  proof (cases "?kept other = Some e")
    case True
    then show ?thesis by (simp add: remove_expired_iff)
  next
    case False
    have "\<exists>rc. exchange D oa parse (code_http env) code = Inr (rc, Some (jwt_value e)) \<and> other = code \<and>
        expires_at e = steady_later env + cache_time"
      using assms(2,3) False k
      by (auto simp: get_tokens_miss [where cache = cache and code = code, OF assms(1)] Let_def try_emplace_def split: sum.splits prod.splits option.splits if_splits)
    moreover have "rc = 0" if "exchange D oa parse (code_http env) code = Inr (rc, Some t)" for rc t
      using that by (auto simp: exchange_def bindE_Inr_iff split: prod.splits if_splits)
    ultimately show ?thesis by blast
  qed
qed

theorem miss_purges_cache_witness:
  "\<forall>e. snd (get_tokens_from_microsoft list_dynstring sample_oauth sample_parse (sample_code_env 60) ''c1''
      [''c2'' \<mapsto> \<lparr>jwt_value = ''u'', expires_at = 60\<rparr>]) ''c2'' \<noteq> Some e"
proof (intro allI notI)
  fix e
  let ?cache = "[''c2'' \<mapsto> \<lparr>jwt_value = ''u'', expires_at = 60\<rparr>] :: codes"
  assume a: "snd (get_tokens_from_microsoft list_dynstring sample_oauth sample_parse (sample_code_env 60) ''c1'' ?cache) ''c2'' = Some e"
  obtain r c where "get_tokens_from_microsoft list_dynstring sample_oauth sample_parse (sample_code_env 60) ''c1'' ?cache = (r, c)"
    by (metis surj_pair)
  from miss_purges_cache [where cache = ?cache, OF _ this, of "''c2''" e] a this show False
    by (auto simp: sample_code_env_def)
qed

end
