(* ===== verification/Openidconnect.thy ===== *)
theory Openidconnect
  imports Libgreen Minisha256
begin

section \<open>Verifiable state strings (\<^verbatim>\<open>src/openidconnect.c\<close>)\<close>

text \<open>
  \<^verbatim>\<open>openidconnect_create_verifyable_string\<close> appends to a salt the first sixteen hex
  digits of a hash of secret and salt; \<^verbatim>\<open>openidconnect_verify_string\<close> checks such a
  string. The login flow sends the string through the browser as the \<^verbatim>\<open>state\<close> parameter.
  Both functions are modelled over the digest function they call; the locale \<open>hex_digest\<close>
  states what they need of it, and SHA-256 provides it. \<open>D\<close> is the dynstring library; the
  output pointer is an option that stays \<open>None\<close> when nothing is written.
\<close>

definition char_bytes :: "char list \<Rightarrow> u8 list" where
  "char_bytes s = map of_char s"

definition openidconnect_create_verifyable_string ::
  "(u8 list \<Rightarrow> char list) \<Rightarrow> 'd dynstring_ops \<Rightarrow> string \<Rightarrow> string \<Rightarrow> int \<times> string option" where
  "openidconnect_create_verifyable_string H D secret salt =
     (case ds_initialise D 256 of (rc, str) \<Rightarrow>
      if rc \<noteq> 0 then (-1, None)
      else case ds_appendstringz D str [secret, salt] of (rc, str) \<Rightarrow>
      if rc \<noteq> 0 then (-1, None)
      else
        let hash = H (char_bytes (ds_bytes D str));
            str = ds_empty D str;
            hash = hash[16 := NUL]
        in case ds_appendstringz D str [salt, ''.'', cstr hash] of (rc, str) \<Rightarrow>
           if rc \<noteq> 0 then (-1, None) else (0, Some (ds_detachcstring D str)))"

definition openidconnect_verify_string ::
  "(u8 list \<Rightarrow> char list) \<Rightarrow> 'd dynstring_ops \<Rightarrow> string \<Rightarrow> string \<Rightarrow> int" where
  "openidconnect_verify_string H D secret input =
     (case ds_initialise D 256 of (rc, str) \<Rightarrow>
      if rc \<noteq> 0 then -1
      else
        let str = snd (ds_appendstringz D str [secret])
        in case strrchr input (CHR ''.'') of
             None \<Rightarrow> -1
           | Some len \<Rightarrow>
               let str = ds_appendstring D str (take len input);
                   hash = H (char_bytes (ds_bytes D str));
                   orighash = drop (len + 1) input
               in if strncmp0 16 orighash (cstr hash) then 0 else -1)"

text \<open>The sixteen digits that authenticate a salt under a secret.\<close>

definition state_tag :: "(u8 list \<Rightarrow> char list) \<Rightarrow> string \<Rightarrow> string \<Rightarrow> string" where
  "state_tag H secret salt = take 16 (H (char_bytes (secret @ salt)))"

subsection \<open>The interface to the digest\<close>

locale hex_digest =
  fixes H :: "u8 list \<Rightarrow> char list"
  assumes digest_length: "length (H m) = 65"
    and digest_digits: "c \<in> set (take 64 (H m)) \<Longrightarrow> is_hex c"
begin

lemma tag_digits: "c \<in> set (state_tag H secret salt) \<Longrightarrow> is_hex c"
  using digest_digits [of c "char_bytes (secret @ salt)"]
    set_take_subset_set_take [of 16 64 "H (char_bytes (secret @ salt))"]
  by (auto simp: state_tag_def)

lemma tag_length: "length (state_tag H secret salt) = 16"
  by (simp add: state_tag_def digest_length)

lemma tag_plain: "NUL \<notin> set (state_tag H secret salt)" "CHR ''.'' \<notin> set (state_tag H secret salt)"
  using tag_digits not_is_hex by blast+

lemma cstr_take_digest: "n \<le> 64 \<Longrightarrow> cstr (take n (H m)) = take n (H m)"
  using digest_digits [of NUL m] set_take_subset_set_take [of n 64 "H m"]
  by (intro cstr_id) auto

lemma take_cstr_digest: "take 16 (cstr (H m)) = take 16 (H m)"
proof -
  have "cstr (H m) = take 64 (H m) @ cstr (drop 64 (H m))"
    using digest_digits [of NUL m]
    by (subst append_take_drop_id [of 64 "H m", symmetric], subst cstr_append) auto
  then show ?thesis by (simp add: digest_length)
qed

lemma cut_digest: "cstr ((H m)[16 := NUL]) = take 16 (H m)"
proof -
  have "(H m)[16 := NUL] = take 16 (H m) @ NUL # drop 17 (H m)"
    by (simp add: list_update_take_drop digest_length)
  then show ?thesis using cstr_take_digest [of 16 m] cstr_no_NUL [of "take 16 (H m)"]
    by (simp add: cstr_append_NUL)
qed

lemma create_eq:
  assumes "dynstring_laws D" "NUL \<notin> set salt"
  shows "openidconnect_create_verifyable_string H D secret salt =
    (0, Some (salt @ CHR ''.'' # state_tag H secret salt))"
  using assms tag_plain(1) [of secret salt]
  by (auto simp: openidconnect_create_verifyable_string_def dynstring_lawsD split_def Let_def
      cut_digest state_tag_def intro!: cstr_id)

lemma verify_zero_iff:
  assumes "dynstring_laws D"
  shows "openidconnect_verify_string H D secret input = 0 \<longleftrightarrow>
    (\<exists>body rest. input = body @ CHR ''.'' # rest \<and> CHR ''.'' \<notin> set rest \<and>
       take 16 rest = state_tag H secret body)"
proof (cases "strrchr input (CHR ''.'')")
  case None
  then show ?thesis
    using assms strrchr_None [of input "CHR ''.''"]
    by (auto simp: openidconnect_verify_string_def dynstring_lawsD split_def)
next
  case (Some len)
  have "body = take len input \<and> rest = drop (Suc len) input"
    if "input = body @ CHR ''.'' # rest" "CHR ''.'' \<notin> set rest" for body rest
    using that Some strrchr_append [of "CHR ''.''" rest body] by auto
  moreover note strrchr_split [OF Some]
  moreover have "openidconnect_verify_string H D secret input = 0 \<longleftrightarrow>
      take 16 (drop (Suc len) input) = state_tag H secret (take len input)"
    using assms Some
    by (simp add: openidconnect_verify_string_def dynstring_lawsD split_def Let_def strncmp0_def
        take_cstr_digest state_tag_def)
  ultimately show ?thesis by metis
qed

lemma verify_zeroI:
  assumes "dynstring_laws D" "CHR ''.'' \<notin> set rest" "take 16 rest = state_tag H secret body"
  shows "openidconnect_verify_string H D secret (body @ CHR ''.'' # rest) = 0"
  using assms by (subst verify_zero_iff) blast+

lemma verify_created:
  assumes "dynstring_laws D" "NUL \<notin> set salt"
    and "openidconnect_create_verifyable_string H D secret salt = (rc, Some s)"
  shows "openidconnect_verify_string H D secret s = 0"
  using assms tag_plain(2) tag_length by (auto simp: create_eq intro!: verify_zeroI)

lemma verify_appended:
  assumes "dynstring_laws D" "openidconnect_verify_string H D secret s = 0" "CHR ''.'' \<notin> set x"
  shows "openidconnect_verify_string H D secret (s @ x) = 0"
proof -
  from assms obtain body rest where s: "s = body @ CHR ''.'' # rest" "CHR ''.'' \<notin> set rest"
    "take 16 rest = state_tag H secret body"
    by (simp add: verify_zero_iff) blast
  then have "16 \<le> length rest" using tag_length [of secret body] by (metis length_take min.absorb_iff2)
  with s assms(3) have "take 16 (rest @ x) = state_tag H secret body" by simp
  with s assms show ?thesis using verify_zeroI [of D "rest @ x" secret body] by simp
qed

end

subsection \<open>SHA-256 provides it\<close>

interpretation sha: hex_digest "sha256_buf junk"
  by unfold_locales (auto simp: sha256_buf_eq hex_string_is_hex)

subsection \<open>Properties\<close>

lemma state_tag_sha256:
  "state_tag (sha256_buf junk) secret salt = take 16 (hex_string (fips_sha256 (char_bytes (secret @ salt))))"
proof -
  have "length (hex_string (fips_sha256 (char_bytes (secret @ salt)))) = 64"
    using sha.digest_length [of junk "char_bytes (secret @ salt)"] by (simp add: sha256_buf_eq)
  then show ?thesis by (simp add: state_tag_def sha256_buf_eq)
qed

text \<open>
  C14. What \<^verbatim>\<open>openidconnect_verify_string\<close> accepts under a secret, exactly: the strings whose
  last dot is followed by at least the first sixteen digits of the SHA-256 of the secret and
  the text before that dot, whatever the hash buffer held before.
\<close>

theorem state_string_accepted_iff:
  assumes "dynstring_laws D"
  shows "openidconnect_verify_string (sha256_buf junk) D secret input = 0 \<longleftrightarrow>
    (\<exists>salt tag. input = salt @ CHR ''.'' # tag \<and> CHR ''.'' \<notin> set tag \<and>
       take 16 tag = take 16 (hex_string (fips_sha256 (char_bytes (secret @ salt)))))"
  using sha.verify_zero_iff [OF assms] by (simp add: state_tag_sha256)

theorem state_string_accepted_iff_witness:
  "openidconnect_verify_string (sha256_buf (\<lambda>_. 0)) list_dynstring ''secret'' ''https://host'' \<noteq> 0"
proof -
  have "CHR ''.'' \<notin> set ''https://host''" by simp
  then have "''https://host'' \<noteq> salt @ CHR ''.'' # tag" for salt tag by (metis in_set_conv_decomp)
  then show ?thesis by (subst state_string_accepted_iff) auto
qed

text \<open>
  C15. A created state string is accepted: \<^verbatim>\<open>openidconnect_create_verifyable_string\<close>
  succeeds on every salt, the string is the salt, a dot and sixteen hex digits, and
  \<^verbatim>\<open>openidconnect_verify_string\<close> returns 0 for it under the same secret.
\<close>

theorem created_state_string_verifies:
  assumes "dynstring_laws D" "NUL \<notin> set salt"
  shows "\<exists>tag. openidconnect_create_verifyable_string (sha256_buf junk) D secret salt =
      (0, Some (salt @ CHR ''.'' # tag)) \<and>
    length tag = 16 \<and> (\<forall>c\<in>set tag. is_hex c) \<and>
    openidconnect_verify_string (sha256_buf junk') D secret (salt @ CHR ''.'' # tag) = 0"
proof (intro exI conjI)
  let ?tag = "state_tag (sha256_buf junk) secret salt"
  show "openidconnect_create_verifyable_string (sha256_buf junk) D secret salt =
      (0, Some (salt @ CHR ''.'' # ?tag))"
    by (rule sha.create_eq [OF assms])
  show "length ?tag = 16" "\<forall>c\<in>set ?tag. is_hex c"
    using sha.tag_length sha.tag_digits by blast+
  have "take 16 ?tag = state_tag (sha256_buf junk') secret salt"
    by (simp add: state_tag_sha256)
  then show "openidconnect_verify_string (sha256_buf junk') D secret (salt @ CHR ''.'' # ?tag) = 0"
    using sha.verify_zeroI [OF assms(1)] sha.tag_plain(2) by blast
qed

theorem created_state_string_verifies_witness:
  "\<exists>tag. openidconnect_create_verifyable_string (sha256_buf (\<lambda>_. 0)) list_dynstring ''key'' ''https://h.1'' =
      (0, Some (''https://h.1'' @ CHR ''.'' # tag)) \<and>
    length tag = 16 \<and> (\<forall>c\<in>set tag. is_hex c) \<and>
    openidconnect_verify_string (sha256_buf (\<lambda>_. 7)) list_dynstring ''key'' (''https://h.1'' @ CHR ''.'' # tag) = 0"
  by (rule created_state_string_verifies) (auto simp: list_dynstring_laws)

end
