(* ===== verification/Appauth_text.thy ===== *)
theory Appauth_text
  imports Pathparse Decimal
begin

section \<open>The string functions of the request handlers (\<^verbatim>\<open>src/appauth.cpp\<close>)\<close>

text \<open>
  Cutting the time and the digits off a state string, and reading a number out of a path.
  Pointers into a string are indices or the rest of the string they point at.
\<close>

subsection \<open>The code\<close>

text \<open>The loop runs \<^verbatim>\<open>p\<close> backwards; \<^verbatim>\<open>last_dot\<close> is an option.\<close>

fun second_last_dot :: "string \<Rightarrow> nat \<Rightarrow> nat option \<Rightarrow> nat option" where
  "second_last_dot str 0 last_dot = None"
| "second_last_dot str (Suc p) last_dot =
     (if str ! p = CHR ''.'' then
        (case last_dot of
           None \<Rightarrow> second_last_dot str p (Some p)
         | Some _ \<Rightarrow> Some p)
      else second_last_dot str p last_dot)"

text \<open>The string as it is after the call, and the returned pointer as the string it points at.\<close>

definition truncate_at_second_last_dot :: "string option \<Rightarrow> string option \<times> string option" where
  "truncate_at_second_last_dot str =
     (case str of
        None \<Rightarrow> (None, None)
      | Some s \<Rightarrow>
          (case second_last_dot s (length s) None of
             None \<Rightarrow> (Some s, None)
           | Some i \<Rightarrow> (Some (take i s), Some (drop (i + 1) s))))"

definition INT_MAX :: int where
  "INT_MAX = 2147483647"

definition LONG_MAX :: int where
  "LONG_MAX = 9223372036854775807"

text \<open>Past the next \<open>n\<close> slashes; \<open>None\<close> is the early return at the end of the string.\<close>

fun skip_slashes :: "nat \<Rightarrow> string \<Rightarrow> string option" where
  "skip_slashes 0 p = Some p"
| "skip_slashes (Suc n) p =
     (case dropWhile (\<lambda>c. c \<noteq> CHR ''/'') p of
        [] \<Rightarrow> None
      | _ # p \<Rightarrow> skip_slashes n p)"

text \<open>\<^verbatim>\<open>strtol\<close> on a run of digits saturates at \<^verbatim>\<open>LONG_MAX\<close> and sets \<^verbatim>\<open>errno\<close>.\<close>

definition strtol_digits :: "string \<Rightarrow> bool \<times> int" where
  "strtol_digits digits =
     (if int (dec_val digits) > LONG_MAX then (True, LONG_MAX) else (False, int (dec_val digits)))"

definition appauth_parse_first_number :: "int \<Rightarrow> string option \<Rightarrow> int" where
  "appauth_parse_first_number delimiter_count str =
     (case str of
        None \<Rightarrow> 0
      | Some s \<Rightarrow>
          if delimiter_count \<le> 0 then 0
          else if s = [] \<or> hd s \<noteq> CHR ''/'' then 0
          else
            (case skip_slashes (nat delimiter_count) s of
               None \<Rightarrow> 0
             | Some start \<Rightarrow>
                 let digits = takeWhile is_digit start;
                     p = dropWhile is_digit start
                 in if digits = [] then 0
                    else if p \<noteq> [] \<and> hd p \<noteq> CHR ''/'' then 0
                    else case strtol_digits digits of (errno, v) \<Rightarrow>
                      if errno \<or> v < 0 \<or> v > INT_MAX then 0 else v))"

subsection \<open>Where the dots are\<close>

lemma second_last_dot_skip:
  "q \<le> p \<Longrightarrow> (\<And>i. q \<le> i \<Longrightarrow> i < p \<Longrightarrow> s ! i \<noteq> CHR ''.'') \<Longrightarrow> second_last_dot s p ld = second_last_dot s q ld"
  by (induction p) (auto simp: le_Suc_eq)

lemma second_last_dot_at:
  "s ! p = CHR ''.'' \<Longrightarrow> second_last_dot s (Suc p) None = second_last_dot s p (Some p)"
  "s ! p = CHR ''.'' \<Longrightarrow> second_last_dot s (Suc p) (Some q) = Some p"
  by simp_all

lemma no_dot_nth: "CHR ''.'' \<notin> set b \<Longrightarrow> length a \<le> i \<Longrightarrow> i < length a + length b \<Longrightarrow> (a @ b @ c) ! i \<noteq> CHR ''.''"
  by (metis add_diff_inverse_nat nat_add_left_cancel_less not_le nth_append nth_append_length_plus nth_mem)

declare second_last_dot.simps [simp del]

lemma second_last_dot_one:
  assumes "CHR ''.'' \<notin> set c"
  shows "second_last_dot (r @ CHR ''.'' # c) (length (r @ CHR ''.'' # c)) None =
    second_last_dot (r @ CHR ''.'' # c) (length r) (Some (length r))"
proof -
  let ?s = "r @ CHR ''.'' # c"
  have "second_last_dot ?s (length ?s) None = second_last_dot ?s (Suc (length r)) None"
    using no_dot_nth [OF assms, of "r @ [CHR ''.'']" _ "[]"] by (intro second_last_dot_skip) auto
  then show ?thesis by (simp add: second_last_dot_at)
qed

lemma second_last_dot_two:
  assumes "CHR ''.'' \<notin> set b" "CHR ''.'' \<notin> set c"
  shows "second_last_dot (a @ CHR ''.'' # b @ CHR ''.'' # c) (length (a @ CHR ''.'' # b @ CHR ''.'' # c)) None = Some (length a)"
proof -
  let ?s = "a @ CHR ''.'' # b @ CHR ''.'' # c" and ?q = "Suc (length a + length b)"
  have "second_last_dot ?s (length ?s) None = second_last_dot ?s ?q (Some ?q)"
    using second_last_dot_one [OF assms(2), of "a @ CHR ''.'' # b"] by simp
  also have "\<dots> = second_last_dot ?s (Suc (length a)) (Some ?q)"
    using no_dot_nth [OF assms(1), of "a @ [CHR ''.'']" _ "CHR ''.'' # c"] by (intro second_last_dot_skip) auto
  finally show ?thesis by (simp add: second_last_dot_at)
qed

lemma truncate_two_dots:
  assumes "CHR ''.'' \<notin> set b" "CHR ''.'' \<notin> set c"
  shows "truncate_at_second_last_dot (Some (a @ CHR ''.'' # b @ CHR ''.'' # c)) = (Some a, Some (b @ CHR ''.'' # c))"
  using second_last_dot_two [OF assms, of a] by (simp add: truncate_at_second_last_dot_def)

lemma second_last_dot_few:
  assumes "length (filter (\<lambda>c. c = CHR ''.'') s) < 2"
  shows "second_last_dot s (length s) None = None"
proof (cases "CHR ''.'' \<in> set s")
  case False
  then have "second_last_dot s (length s) None = second_last_dot s 0 None"
    by (intro second_last_dot_skip) (auto simp: in_set_conv_nth)
  then show ?thesis by (simp add: second_last_dot.simps)
next
  case True
  then obtain a b where s: "s = a @ CHR ''.'' # b" "CHR ''.'' \<notin> set b" by (metis split_list_last)
  with assms have "filter (\<lambda>c. c = CHR ''.'') a = []" by simp
  then have a: "CHR ''.'' \<notin> set a" by (auto simp: filter_empty_conv)
  have "second_last_dot s (length s) None = second_last_dot s (length a) (Some (length a))"
    using second_last_dot_one [OF s(2), of a] s by simp
  also have "\<dots> = second_last_dot s 0 (Some (length a))"
    using no_dot_nth [OF a, of "[]" _ "CHR ''.'' # b"] s by (intro second_last_dot_skip) auto
  finally show ?thesis by (simp add: second_last_dot.simps)
qed

lemma two_dots_split:
  assumes "length (filter (\<lambda>c. c = CHR ''.'') s) \<ge> 2"
  obtains a b c where "s = a @ CHR ''.'' # b @ CHR ''.'' # c" "CHR ''.'' \<notin> set b" "CHR ''.'' \<notin> set c"
proof -
  have "filter (\<lambda>c. c = CHR ''.'') s \<noteq> []" using assms by auto
  then have "CHR ''.'' \<in> set s" by (auto simp: filter_empty_conv)
  then obtain r c where s: "s = r @ CHR ''.'' # c" "CHR ''.'' \<notin> set c" by (metis split_list_last)
  then have "filter (\<lambda>c. c = CHR ''.'') c = []" by (auto simp: filter_empty_conv)
  with assms s have "filter (\<lambda>c. c = CHR ''.'') r \<noteq> []" by auto
  then have "CHR ''.'' \<in> set r" by (auto simp: filter_empty_conv)
  then obtain a b where "r = a @ CHR ''.'' # b" "CHR ''.'' \<notin> set b" by (metis split_list_last)
  with s that show ?thesis by auto
qed

lemma truncate_cases:
  obtains (whole) "truncate_at_second_last_dot (Some s) = (Some s, None)"
  | (cut) kept rest where "truncate_at_second_last_dot (Some s) = (Some kept, Some rest)" "s = kept @ CHR ''.'' # rest"
proof (cases "length (filter (\<lambda>c. c = CHR ''.'') s) < 2")
  case True
  then show ?thesis by (intro whole) (simp add: truncate_at_second_last_dot_def second_last_dot_few)
next
  case False
  then obtain a b c where "s = a @ CHR ''.'' # b @ CHR ''.'' # c" "CHR ''.'' \<notin> set b" "CHR ''.'' \<notin> set c"
    by (auto elim: two_dots_split simp: linorder_not_less)
  then show ?thesis by (intro cut [of a "b @ CHR ''.'' # c"]) (simp_all add: truncate_two_dots)
qed

subsection \<open>Where the number is\<close>

lemma split_slash_parts: "split_slash s =
    takeWhile (\<lambda>c. c \<noteq> CHR ''/'') s # (case dropWhile (\<lambda>c. c \<noteq> CHR ''/'') s of [] \<Rightarrow> [] | _ # t \<Rightarrow> split_slash t)"
proof (cases "dropWhile (\<lambda>c. c \<noteq> CHR ''/'') s")
  case Nil
  then have "CHR ''/'' \<notin> set s" by (auto simp: dropWhile_eq_Nil_conv)
  then have "takeWhile (\<lambda>c. c \<noteq> CHR ''/'') s = s" by (auto simp: takeWhile_eq_all_conv)
  with split_slash_single [OF \<open>CHR ''/'' \<notin> set s\<close>] show ?thesis unfolding Nil by (simp only: list.case)
next
  case (Cons x t)
  then have x: "x = CHR ''/''" using hd_dropWhile [of "\<lambda>c. c \<noteq> CHR ''/''" s] by auto
  have "s = takeWhile (\<lambda>c. c \<noteq> CHR ''/'') s @ CHR ''/'' # t"
    using takeWhile_dropWhile_id [of "\<lambda>c. c \<noteq> CHR ''/''" s] Cons x by simp
  then have "split_slash s = takeWhile (\<lambda>c. c \<noteq> CHR ''/'') s # split_slash t"
    using split_slash_append [of "takeWhile (\<lambda>c. c \<noteq> CHR ''/'') s" t] by (metis set_takeWhileD)
  with Cons show ?thesis by simp
qed

lemma split_slash_length_pos: "split_slash s \<noteq> []"
  by (subst split_slash_parts) simp

lemma skip_slashes_Suc:
  "dropWhile (\<lambda>c. c \<noteq> CHR ''/'') s = x # t \<Longrightarrow>
    skip_slashes (Suc n) s = skip_slashes n t \<and> (\<exists>c. split_slash s = c # split_slash t)"
  using split_slash_parts [of s] by (simp only: skip_slashes.simps list.case) blast

lemma skip_slashes_stop:
  "dropWhile (\<lambda>c. c \<noteq> CHR ''/'') s = [] \<Longrightarrow>
    skip_slashes (Suc n) s = None \<and> (\<exists>c. split_slash s = [c])"
  using split_slash_parts [of s] by (simp only: skip_slashes.simps list.case) blast

lemma skip_slashes_some:
  "n < length (split_slash s) \<Longrightarrow> \<exists>p. skip_slashes n s = Some p \<and> takeWhile (\<lambda>c. c \<noteq> CHR ''/'') p = split_slash s ! n"
proof (induction n arbitrary: s)
  case 0
  have "split_slash s ! 0 = takeWhile (\<lambda>c. c \<noteq> CHR ''/'') s" by (subst split_slash_parts) simp
  then show ?case by (simp only: skip_slashes.simps) simp
next
  case (Suc n)
  show ?case
  proof (cases "dropWhile (\<lambda>c. c \<noteq> CHR ''/'') s")
    case Nil
    then obtain c where "split_slash s = [c]" using skip_slashes_stop by blast
    with Suc.prems show ?thesis by simp
  next
    case (Cons x t)
    from skip_slashes_Suc [OF this, of n] Suc.prems Suc.IH [of t] show ?thesis by (elim conjE exE) (simp del: skip_slashes.simps)
  qed
qed

lemma skip_slashes_none: "length (split_slash s) \<le> n \<Longrightarrow> skip_slashes n s = None"
proof (induction n arbitrary: s)
  case 0
  then show ?case using split_slash_length_pos by simp
next
  case (Suc n)
  show ?case
  proof (cases "dropWhile (\<lambda>c. c \<noteq> CHR ''/'') s")
    case Nil
    from skip_slashes_stop [OF this, of n] show ?thesis by blast
  next
    case (Cons x t)
    from skip_slashes_Suc [OF this, of n] Suc.prems Suc.IH [of t] show ?thesis by (elim conjE exE) (simp del: skip_slashes.simps)
  qed
qed

text \<open>A digit run that ends at a slash or at the end is the whole component.\<close>

lemma component_digits:
  "dropWhile is_digit p = [] \<or> hd (dropWhile is_digit p) = CHR ''/'' \<Longrightarrow>
    takeWhile (\<lambda>c. c \<noteq> CHR ''/'') p = takeWhile is_digit p"
  by (induction p) (auto split: if_splits)

lemma digits_end:
  "\<forall>c\<in>set (takeWhile (\<lambda>c. c \<noteq> CHR ''/'') p). is_digit c \<Longrightarrow>
    dropWhile is_digit p = [] \<or> hd (dropWhile is_digit p) = CHR ''/''"
proof (induction p)
  case (Cons a p)
  then show ?case by (cases "a = CHR ''/''") (simp_all del: dropWhile_eq_Nil_conv)
qed simp

lemma strtol_checked:
  "(case strtol_digits ds of (errno, v) \<Rightarrow> if errno \<or> v < 0 \<or> v > INT_MAX then 0 else v) =
   (if int (dec_val ds) \<le> INT_MAX then int (dec_val ds) else 0)"
  by (auto simp: strtol_digits_def INT_MAX_def LONG_MAX_def)

subsection \<open>Properties\<close>

text \<open>
  \<^verbatim>\<open>truncate_at_second_last_dot\<close> cuts a string with at least two dots at the
  second dot from the right, whatever the parts contain, and leaves every other string as it is.
\<close>

theorem truncate_splits:
  "(truncate_at_second_last_dot (Some s) = (Some kept, Some rest) \<longleftrightarrow>
      s = kept @ CHR ''.'' # rest \<and> length (filter (\<lambda>c. c = CHR ''.'') rest) = 1) \<and>
   (truncate_at_second_last_dot (Some s) = (Some s, None) \<longleftrightarrow> length (filter (\<lambda>c. c = CHR ''.'') s) < 2)"
proof (intro conjI)
  have few: "length (filter (\<lambda>c. c = CHR ''.'') s) < 2 \<Longrightarrow> truncate_at_second_last_dot (Some s) = (Some s, None)"
    by (simp add: truncate_at_second_last_dot_def second_last_dot_few)
  have many: "\<exists>a b c. s = a @ CHR ''.'' # b @ CHR ''.'' # c \<and> CHR ''.'' \<notin> set b \<and> CHR ''.'' \<notin> set c \<and>
      truncate_at_second_last_dot (Some s) = (Some a, Some (b @ CHR ''.'' # c))"
    if "\<not> length (filter (\<lambda>c. c = CHR ''.'') s) < 2"
    using that two_dots_split [of s] truncate_two_dots by (metis linorder_not_less)
  show "truncate_at_second_last_dot (Some s) = (Some s, None) \<longleftrightarrow> length (filter (\<lambda>c. c = CHR ''.'') s) < 2"
    using few many by (metis option.distinct(1) prod.inject)
  show "truncate_at_second_last_dot (Some s) = (Some kept, Some rest) \<longleftrightarrow>
     s = kept @ CHR ''.'' # rest \<and> length (filter (\<lambda>c. c = CHR ''.'') rest) = 1"
  proof
    assume t: "truncate_at_second_last_dot (Some s) = (Some kept, Some rest)"
    then have "\<not> length (filter (\<lambda>c. c = CHR ''.'') s) < 2" using few by auto
    from many [OF this] obtain a b c where s: "s = a @ CHR ''.'' # b @ CHR ''.'' # c"
      "CHR ''.'' \<notin> set b" "CHR ''.'' \<notin> set c" "(Some a, Some (b @ CHR ''.'' # c)) = (Some kept, Some rest)"
      using t by metis
    from s(2,3) have "filter (\<lambda>c. c = CHR ''.'') b = []" "filter (\<lambda>c. c = CHR ''.'') c = []"
      by (auto simp: filter_empty_conv)
    with s(1,4) show "s = kept @ CHR ''.'' # rest \<and> length (filter (\<lambda>c. c = CHR ''.'') rest) = 1" by auto
  next
    assume r: "s = kept @ CHR ''.'' # rest \<and> length (filter (\<lambda>c. c = CHR ''.'') rest) = 1"
    then have "filter (\<lambda>c. c = CHR ''.'') rest \<noteq> []" by force
    then have "CHR ''.'' \<in> set rest" by (auto simp: filter_empty_conv)
    then obtain b c where "rest = b @ CHR ''.'' # c" "CHR ''.'' \<notin> set c" by (metis split_list_last)
    moreover from calculation r have "filter (\<lambda>c. c = CHR ''.'') b = []" by simp
    then have "CHR ''.'' \<notin> set b" by (auto simp: filter_empty_conv)
    ultimately show "truncate_at_second_last_dot (Some s) = (Some kept, Some rest)"
      using r truncate_two_dots by simp
  qed
qed

text \<open>
  \<^verbatim>\<open>appauth_parse_first_number\<close> reads the component of that number of the path: its
  value when the path starts with a slash and the component is a non-empty run of decimal digits
  that fits an \<^verbatim>\<open>int\<close>, and 0 otherwise.
\<close>

theorem parse_first_number_component:
  "appauth_parse_first_number n (Some s) =
     (let parts = split_slash s
      in if 0 < n \<and> prefix ''/'' s \<and> nat n < length parts \<and> parts ! nat n \<noteq> [] \<and>
            list_all is_digit (parts ! nat n) \<and> dec_val (parts ! nat n) \<le> 2147483647
         then int (dec_val (parts ! nat n)) else 0)"
proof (cases "0 < n \<and> prefix ''/'' s \<and> nat n < length (split_slash s)")
  case False
  then have "n \<le> 0 \<or> s = [] \<or> hd s \<noteq> CHR ''/'' \<or> skip_slashes (nat n) s = None"
    using skip_slashes_none [of s "nat n"] by (cases s) auto
  then have "appauth_parse_first_number n (Some s) = 0"
    unfolding appauth_parse_first_number_def by auto
  with False show ?thesis by (auto simp: Let_def)
next
  case True
  then obtain p where p: "skip_slashes (nat n) s = Some p" "takeWhile (\<lambda>c. c \<noteq> CHR ''/'') p = split_slash s ! nat n"
    using skip_slashes_some by blast
  have e: "appauth_parse_first_number n (Some s) =
      (if takeWhile is_digit p = [] \<or> dropWhile is_digit p \<noteq> [] \<and> hd (dropWhile is_digit p) \<noteq> CHR ''/'' then 0
       else if int (dec_val (takeWhile is_digit p)) \<le> INT_MAX then int (dec_val (takeWhile is_digit p)) else 0)"
    using True p(1) unfolding appauth_parse_first_number_def option.case Let_def strtol_checked
    by (cases s) (simp_all del: dropWhile_eq_Nil_conv takeWhile_eq_Nil_iff)
  show ?thesis
  proof (cases "list_all is_digit (split_slash s ! nat n)")
    case all: True
    then have "dropWhile is_digit p = [] \<or> hd (dropWhile is_digit p) = CHR ''/''"
      using digits_end [of p] p(2) by (simp add: list_all_iff)
    then show ?thesis using True all p(2) component_digits [of p] unfolding e by (auto simp: Let_def INT_MAX_def simp del: dropWhile_eq_Nil_conv)
  next
    case no: False
    have "\<not> (dropWhile is_digit p = [] \<or> hd (dropWhile is_digit p) = CHR ''/'')"
    proof
      assume "dropWhile is_digit p = [] \<or> hd (dropWhile is_digit p) = CHR ''/''"
      from component_digits [OF this] p(2) no show False by (metis list_all_iff set_takeWhileD)
    qed
    then show ?thesis using no unfolding e by (simp add: Let_def)
  qed
qed

end
