(* ===== verification/Appauth.thy ===== *)
theory Appauth
  imports Application Formdecoder_fastcgi Login_codes Openidconnect Appauth_text
begin

section \<open>The request handlers (\<^verbatim>\<open>src/appauth.cpp\<close>)\<close>

text \<open>
  One FastCGI request: the router, the login pages, the answer of the provider, the token
  checks and logging out. A handler returns its result code or the exception that leaves it, the calls
  it made on the output stream in order, and the state that outlives the request: the key
  stores, the cache of login codes, the files. \<open>Undefined\<close> is a null pointer given to
  \<^verbatim>\<open>strcmp\<close> or to a \<^verbatim>\<open>std::string\<close>, or a callee that steps outside its buffer.
\<close>

subsection \<open>The service and its state\<close>

datatype fcgi_event = Put string | Flush | Close | Finish

text \<open>
  \<open>ctx_query_string\<close> and \<open>ctx_qs\<close> are the query string as received and decoded,
  \<open>ctx_cookies\<close> the strings the cookie table points to.
\<close>

record 'q RequestContext =
  ctx_request_method :: string
  ctx_request_uri :: string
  ctx_script_name :: string
  ctx_path_info :: string
  ctx_document_root :: string
  ctx_base_loc :: string
  ctx_query_string :: "string option"
  ctx_request_id :: "string option"
  ctx_cookie :: "char list option"
  ctx_cookies :: "(string \<times> string) list option"
  ctx_authorisation :: "string option"
  ctx_qs :: "'q option"
  ctx_parsed_path :: ParsedPath

text \<open>
  What a build of the service fixes: the libraries, the site's settings and templates, and the
  hook that exists when \<^verbatim>\<open>APPLICATION_AUTHORISATION_VERIFICATION\<close> is defined.
\<close>

record ('alg, 'v, 'j, 'd, 'm, 'q, 'i, 'mi) service =
  jwt_lib :: "('alg, 'v, 'j) jwt_ops"
  serialize_json :: "json \<Rightarrow> string"
  parse_json :: "string \<Rightarrow> json"
  forms :: "('d, 'm, 'q, 'i, 'mi) form_env"
  config :: oauth
  strutils_countchar :: "string \<Rightarrow> char \<Rightarrow> int \<Rightarrow> int"
  timefn_format :: "int \<Rightarrow> string"
  login_page :: TemplateEngine
  logout_page :: TemplateEngine
  authorisation_hook :: "('q RequestContext \<Rightarrow> JWTUserContext \<Rightarrow> int) option"

abbreviation dyn :: "('alg, 'v, 'j, 'd, 'm, 'q, 'i, 'mi) service \<Rightarrow> 'd dynstring_ops" where
  "dyn svc \<equiv> form_dyn (forms svc)"

abbreviation query :: "('alg, 'v, 'j, 'd, 'm, 'q, 'i, 'mi) service \<Rightarrow> 'q querystring_ops" where
  "query svc \<equiv> form_query (forms svc)"

abbreviation secret :: "('alg, 'v, 'j, 'd, 'm, 'q, 'i, 'mi) service \<Rightarrow> string" where
  "secret svc \<equiv> OAUTH2_DEFAULT_CLIENT_SECRET (config svc)"

text \<open>What one request finds around it; \<open>junk\<close> is what uninitialised memory holds.\<close>

record moment =
  keys_env :: jwks_env
  codes_env :: code_env
  unix_now :: int
  cookie_malloc_ok :: bool
  junk :: "nat \<Rightarrow> u8"

record 'v app_state =
  key_stores :: "'v stores"
  code_cache :: codes
  form_world :: world
  saved_files :: "(string \<times> string) list"

record 'i FCGX_Request =
  fcgi_params :: "string \<Rightarrow> string option"
  fcgi_in :: 'i

type_synonym 'v outcome = "(exn + int) \<times> fcgi_event list \<times> 'v app_state"

definition set_stores :: "'v stores \<Rightarrow> (string \<times> string) list \<Rightarrow> 'v app_state \<Rightarrow> 'v app_state" where
  "set_stores stores saved st = st\<lparr>key_stores := stores, saved_files := saved_files st @ saved\<rparr>"

subsection \<open>Pages\<close>

definition crlf :: string where
  "crlf = [CHR 0x0D, CHR 0x0A]"

definition html_lines :: "string list \<Rightarrow> string" where
  "html_lines ls = concat (map (\<lambda>l. l @ crlf) ls)"

definition meta_lines :: "string list" where
  "meta_lines = [''<meta charset=\"UTF-8\" />'',
     ''<meta name=\"viewport\" content=\"width=device-width, initial-scale=1\" />'',
     ''<meta name=\"color-scheme\" content=\"dark light\" />'']"

definition page_start :: "string list" where
  "page_start = [''Content-Type: text/html; charset=utf-8'', [], ''<!DOCTYPE html>'']"

text \<open>The claims of a token as text, as two handlers show them.\<close>

definition jwt_content :: "('alg, 'v, 'j, 'd, 'm, 'q, 'i, 'mi) service \<Rightarrow> string \<Rightarrow> exn + 'd" where
  "jwt_content svc jwtoken =
     (let D = dyn svc
      in if jwtoken = [] then Inr (append_parts D [''NO CONTENT: ERROR'' @ crlf] (ds_default D))
         else bindE (jwtinterface_getusercontext (jwt_lib svc) (serialize_json svc) jwtoken) (\<lambda>user_ctx.
           Inr (case user_ctx of
                  None \<Rightarrow> ds_default D
                | Some u \<Rightarrow>
                    append_parts D [cstr (payload_json_str_pretty u), crlf]
                      (append_parts D [cstr (header_json_str u), crlf] (ds_default D)))))"

subsection \<open>Posting the login page\<close>

definition login_redirect_uri :: "'d dynstring_ops \<Rightarrow> oauth \<Rightarrow> string \<Rightarrow> 'd" where
  "login_redirect_uri D oa verifyable_string =
     append_parts D [''&prompt=select_account'']
       (ds_url_encode_appendz D
         (append_parts D [''https://login.microsoftonline.com/common/oauth2/v2.0/authorize?client_id='' @
            OAUTH2_DEFAULT_CLIENT_ID oa @ ''&response_type=code&scope=openid%20profile%20email&redirect_uri='' @
            OAUTH2_DEFAULT_REDIRECT_URI oa @ ''&state=''] (ds_default D))
         verifyable_string)"

definition login_redirect_page :: "'d dynstring_ops \<Rightarrow> 'd \<Rightarrow> 'd" where
  "login_redirect_page D redirect_uri =
     (let uri = ds_getcstring D redirect_uri
      in append_parts D
           [html_lines [''Status: 302'', ''Content-Type: text/html; charset=utf-8''] @ ''Location: '', uri,
            html_lines [[], [], ''<!DOCTYPE html>'', ''<html>'', ''<head></head>'', ''<body>''] @ ''<p><a href=\"'', uri,
            html_lines [''\">Authenticate at Microsoft</a></p>''] @ ''<p>'', uri,
            html_lines [''</p>'', ''</body>'', ''</html>'']] (ds_default D))"

definition login_bad_request :: string where
  "login_bad_request = html_lines [''Status: 400 Bad Request'', ''Content-Type: text/html; charset=utf-8'', [],
     ''<!DOCTYPE html>'', ''<html><head></head><body>'', ''<h1>400 Bad Request</h1>'',
     ''<p>Well, I don't know what that was supposed to be but I cannot process it.</p>'', ''</body></html>'']"

text \<open>Where the login is to return to, and the string that carries it through the provider.\<close>

definition login_send_to :: "int \<times> (nat \<times> string option) option \<Rightarrow> string" where
  "login_send_to field =
     (case field of
        (res, Some (len, Some redirect_to)) \<Rightarrow> if res = 0 \<and> len > 4 then take len redirect_to else ''/''
      | _ \<Rightarrow> ''/'')"

definition is_microsoft :: "int \<times> (nat \<times> string option) option \<Rightarrow> bool" where
  "is_microsoft field =
     (case field of
        (res, Some (len, Some provider)) \<Rightarrow> res = 0 \<and> len = 9 \<and> take 9 provider = ''microsoft''
      | _ \<Rightarrow> False)"

definition login_state ::
  "('alg, 'v, 'j, 'd, 'm, 'q, 'i, 'mi) service \<Rightarrow> moment \<Rightarrow> string \<Rightarrow> string option" where
  "login_state svc mom send_to =
     snd (openidconnect_create_verifyable_string (sha256_buf (junk mom)) (dyn svc) (secret svc)
       (cstr (send_to @ ''.'' @ timefn_format svc (unix_now mom))))"

text \<open>
  A form that cannot be decoded ends the handler at once, without a call of
  \<^verbatim>\<open>FCGX_Finish_r\<close>. \<open>None\<close> for the state string would be a null pointer.
\<close>

definition process_login_page_post ::
  "('alg, 'v, 'j, 'd, 'm, 'q, 'i, 'mi) service \<Rightarrow> moment \<Rightarrow> 'i FCGX_Request \<Rightarrow> 'v app_state \<Rightarrow> 'v outcome" where
  "process_login_page_post svc mom req st =
     (let D = dyn svc; S = form_map (forms svc)
      in case formdecoder_decodefcgirequest (forms svc) (form_request_of (fcgi_params req) (fcgi_in req))
                (1024 * 1024) None (form_world st) of
           None \<Rightarrow> (Inl Undefined, [], st)
         | Some (res, fd_ctx, _, w, _) \<Rightarrow>
             let st = st\<lparr>form_world := w\<rparr>;
                 field = (\<lambda>fc key. formdecoder_getfield S (query svc) fc key w);
                 finished = (\<lambda>fc page.
                   case formdecoder_dispose S (Some fc) w of
                     None \<Rightarrow> (Inl Undefined, [Put page], st)
                   | Some w \<Rightarrow> (Inr 0, [Put page, Finish], st\<lparr>form_world := w\<rparr>))
             in if res \<noteq> 0 then (Inr 0, [], st)
                else case fd_ctx of
                  None \<Rightarrow> (Inr 0, [], st)
                | Some fc \<Rightarrow>
                    (case field fc ''provider'' of
                       None \<Rightarrow> (Inl Undefined, [], st)
                     | Some provider \<Rightarrow>
                         if is_microsoft provider then
                           (case field fc ''redirect_to'' of
                              None \<Rightarrow> (Inl Undefined, [], st)
                            | Some redirect_to \<Rightarrow>
                                (case login_state svc mom (login_send_to redirect_to) of
                                   None \<Rightarrow> (Inl Undefined, [], st)
                                 | Some verifyable_string \<Rightarrow>
                                     finished fc (ds_bytes D (login_redirect_page D
                                       (login_redirect_uri D (config svc) verifyable_string)))))
                         else finished fc login_bad_request))"

subsection \<open>The answer of the provider\<close>

definition code_error_page :: "'d dynstring_ops \<Rightarrow> string \<Rightarrow> string option \<Rightarrow> 'd" where
  "code_error_page D qs_error qs_error_description =
     (let page = append_parts D
            [html_lines ([''Status: 200''] @ page_start @ [''<html><head>''] @ meta_lines @
               [''<style>'', ''*, body { font-family: sans-serif; }'', ''</style>'', ''</head>'', ''<body>'',
                ''<h1>Error Returned by Microsoft</h1>'']) @ ''<p>Error Code: <code>'', qs_error,
             html_lines [''</code></p>'']] (ds_default D);
          page = (case qs_error_description of
                    None \<Rightarrow> page
                  | Some description \<Rightarrow>
                      append_parts D [html_lines [''</p>'']]
                        (ds_htmlspecial_encode_appendz D
                          (append_parts D [''<h2>Further Detail of this Error</h2><p>''] page) description))
      in append_parts D
           [html_lines [''<p><a href=\"/\">Click here to try again.</a></p>'', ''</body>'', ''</html>'']] page)"

definition code_missing_page :: "'d dynstring_ops \<Rightarrow> string \<Rightarrow> 'd \<Rightarrow> 'd" where
  "code_missing_page D jwtoken content =
     (let page = append_parts D
            [html_lines ([''Status: 400''] @ page_start @ [''<html><head>''] @ meta_lines @
               [''</head><body>'', ''<h1>400 Bad Request</h1>'',
                ''<p>Seems that no <code>code</code> or <code>state</code> argument were supplied.</p>''])]
            (ds_default D);
          page = (if jwtoken \<noteq> [] then append_parts D [html_lines
            [''<p>Generally this is not a page that the developer expects you to see, sorry for that. Since you have a token you should go <a href=\"/\">back home</a> and, if possible, please report this to the developer.</p>'']]
            page else page)
      in append_parts D [html_lines [''</pre>'', ''</body></html>'']]
           (ds_htmlspecial_encode_appendz D (append_parts D [''<pre>''] page) (ds_getcstring D content)))"

definition code_unverifyable :: string where
  "code_unverifyable = html_lines ([''Status: 400''] @ page_start @
     [''<html><head></head><body>'', ''<h1>400 Error</h1>'',
      ''<p>Seems that the verifyable string was not verifyable, sorry.</p>'', ''</body></html>''])"

definition code_no_token :: string where
  "code_no_token = html_lines ([''Status: 500''] @ page_start @ [''<html><head>''] @ meta_lines @
     [''</head><body>'', ''<h1>500 Error</h1>'', ''<p>Token retrieval failed.</p>'', ''</body></html>''])"

definition code_null_token :: string where
  "code_null_token = html_lines ([''Status: 500''] @ page_start @
     [''<html><head></head><body>'', ''<h1>500 Error</h1>'', ''<p>Token was null.</p>'', ''</body></html>''])"

definition code_unauthorized :: string where
  "code_unauthorized = html_lines ([''Status: 401''] @ page_start @ [''<html><head>''] @ meta_lines @
     [''</head><body>'', ''<h1>401 Unauthorized</h1>'', ''<p>verify_jwks_authentication_jwt() failed.</p>'',
      ''</body></html>''])"

definition code_accepted_page :: "'d dynstring_ops \<Rightarrow> string \<Rightarrow> string \<Rightarrow> string \<Rightarrow> 'd" where
  "code_accepted_page D jwtoken redirect_url qs_state =
     append_parts D
       [html_lines [''Status: 302''] @ ''Set-Cookie: auth='', jwtoken,
        html_lines [''; Path=/; Secure; HttpOnly; SameSite=Lax'', ''Content-Type: text/html; charset=utf-8''] @
          ''Location: '', redirect_url,
        html_lines ([[], [], ''<!DOCTYPE html>'', ''<html>'', ''<head>''] @ meta_lines @
          [''</head>'', ''<body>'', ''<h1>Authenticated</h1>'']) @
          ''<p>If you are not redirected automatically please <a href=\"'', redirect_url,
        ''\">click here ('', redirect_url,
        html_lines ['')</a>.</p>''] @ ''<p>'', ''Token Details Here'',
        html_lines [''</p>''] @ ''<p><a href=\"direct?token='', jwtoken, ''&state='', qs_state,
        html_lines [''\">Click here</a> to set the token as the <code>auth</code> cookie and continue...</p>'',
          ''</body>'', ''</html>'']] (ds_default D)"

text \<open>The part after the state string: the exchange of the code and the check of the token.\<close>

definition plain_page :: "'d dynstring_ops \<Rightarrow> string \<Rightarrow> 'd" where
  "plain_page D s = append_parts D [s] (ds_default D)"

definition code_answer ::
  "('alg, 'v, 'j, 'd, 'm, 'q, 'i, 'mi) service \<Rightarrow> moment \<Rightarrow> string \<Rightarrow> string \<Rightarrow> string \<Rightarrow> 'v app_state \<Rightarrow>
   (exn + 'd) \<times> 'v app_state" where
  "code_answer svc mom qs_code qs_state redirect_url st =
     (let D = dyn svc
      in case get_tokens_from_microsoft D (config svc) (parse_json svc) (codes_env mom) qs_code (code_cache st) of
           (Inl e, cache) \<Rightarrow> (Inl e, st\<lparr>code_cache := cache\<rparr>)
         | (Inr (res, jwtoken), cache) \<Rightarrow>
             let st = st\<lparr>code_cache := cache\<rparr>
             in if res \<noteq> 0 then (Inr (plain_page D code_no_token), st)
                else case jwtoken of
                  None \<Rightarrow> (Inr (plain_page D code_null_token), st)
                | Some jwtoken \<Rightarrow>
                    (case verify_jwks_authentication_jwt (jwt_lib svc) (serialize_json svc) (parse_json svc)
                            (keys_env mom) jwtoken (key_stores st) of
                       (Inl e, stores, saved) \<Rightarrow> (Inl e, set_stores stores saved st)
                     | (Inr res, stores, saved) \<Rightarrow>
                         (Inr (if res \<noteq> 0 then plain_page D code_unauthorized
                               else code_accepted_page D jwtoken redirect_url qs_state),
                          set_stores stores saved st)))"

text \<open>
  The page the handler ends with, by the order of its checks. The state string is cut in place:
  what is shown as \<^verbatim>\<open>qs_state\<close> afterwards is the cut string.
\<close>

definition code_page ::
  "('alg, 'v, 'j, 'd, 'm, 'q, 'i, 'mi) service \<Rightarrow> moment \<Rightarrow> 'q RequestContext \<Rightarrow> string \<Rightarrow> 'd \<Rightarrow> 'v app_state \<Rightarrow>
   (exn + 'd) \<times> 'v app_state" where
  "code_page svc mom ctx jwtoken_ptr_str content st =
     (let D = dyn svc; arg = querystring_getbykey (query svc) (ctx_qs ctx)
      in case arg ''error'' of
           Some qs_error \<Rightarrow> (Inr (code_error_page D qs_error (arg ''error_description'')), st)
         | None \<Rightarrow>
      (case (arg ''code'', arg ''state'') of
           (Some qs_code, Some qs_state) \<Rightarrow>
             if openidconnect_verify_string (sha256_buf (junk mom)) D (secret svc) qs_state \<noteq> 0 then
               (Inr (plain_page D code_unverifyable), st)
             else
               (case truncate_at_second_last_dot (Some qs_state) of
                  (Some kept, Some _) \<Rightarrow> code_answer svc mom qs_code kept kept st
                | _ \<Rightarrow> code_answer svc mom qs_code qs_state [] st)
         | _ \<Rightarrow> (Inr (code_missing_page D jwtoken_ptr_str content), st)))"

definition process_code_response ::
  "('alg, 'v, 'j, 'd, 'm, 'q, 'i, 'mi) service \<Rightarrow> moment \<Rightarrow> 'q RequestContext \<Rightarrow> 'v app_state \<Rightarrow> 'v outcome" where
  "process_code_response svc mom ctx st =
     (let jwtoken_ptr_str = (case HTTPUtils_get_cookie (ctx_cookies ctx) ''auth'' 0 of None \<Rightarrow> [] | Some s \<Rightarrow> s)
      in case jwt_content svc jwtoken_ptr_str of
           Inl e \<Rightarrow> (Inl e, [], st)
         | Inr content \<Rightarrow>
             (case code_page svc mom ctx jwtoken_ptr_str content st of
                (Inl e, st) \<Rightarrow> (Inl e, [], st)
              | (Inr page, st) \<Rightarrow> (Inr 0, [Put (ds_bytes (dyn svc) page), Flush, Close, Finish], st)))"

subsection \<open>Asking whether a request is authorised\<close>

definition verification_ok :: string where
  "verification_ok = html_lines ([''Status: 200''] @ page_start @ [''<html>'', ''<head>''] @ meta_lines @
     [''<title>Authorisation</title>'', ''</head>'', ''<body>'', ''<h1>200 Authorisation (0)</h1>'', ''</body>'', ''</html>''])"

definition verification_unauthorized :: string where
  "verification_unauthorized = html_lines ([''Status: 401 Unauthorized''] @ page_start @ [''<html>'', ''<head>''] @ meta_lines @
     [''<title>401 Unauthorized</title>'', ''</head>'', ''<body>'', ''<h1>401 Unauthorized (0)</h1>'', ''</body>'', ''</html>''])"

definition verification_forbidden :: string where
  "verification_forbidden = html_lines ([''Status: 403 Forbidden''] @ page_start @ [''<html>'', ''<head>''] @ meta_lines @
     [''<title>403 Forbidden</title>'', ''</head>'', ''<body>'', ''<h1>401 Forbidden (0)</h1>'', ''</body>'', ''</html>''])"

definition process_verification_request ::
  "('alg, 'v, 'j, 'd, 'm, 'q, 'i, 'mi) service \<Rightarrow> moment \<Rightarrow> 'q RequestContext \<Rightarrow> 'v app_state \<Rightarrow> 'v outcome" where
  "process_verification_request svc mom ctx st =
     (case application_verify_jwt_authentication (jwt_lib svc) (serialize_json svc) (parse_json svc) (keys_env mom)
             True (ctx_cookies ctx) (key_stores st) of
        (Inl e, stores, saved) \<Rightarrow> (Inl e, [], set_stores stores saved st)
      | (Inr user_ctx, stores, saved) \<Rightarrow>
          let page = (case user_ctx of
                        None \<Rightarrow> verification_unauthorized
                      | Some u \<Rightarrow>
                          (case authorisation_hook svc of
                             None \<Rightarrow> verification_ok
                           | Some hook \<Rightarrow> if hook ctx u = 0 then verification_ok else verification_forbidden))
          in (Inr 0, [Put page, Flush, Close, Finish], set_stores stores saved st))"

subsection \<open>Getting the login page\<close>

definition login_return_to :: "string option \<Rightarrow> string" where
  "login_return_to query_string =
     (case query_string of
        None \<Rightarrow> ''/''
      | Some s \<Rightarrow>
          if length s \<ge> 8 \<and> strncmp0 7 s ''return='' \<and> s ! 7 = CHR ''/'' \<and> (length s = 8 \<or> s ! 8 \<noteq> CHR ''/'')
          then drop 7 s else ''/'')"

definition login_follow :: "string \<Rightarrow> string" where
  "login_follow return_to =
     html_lines ([''Status: 302'', ''Location: '' @ return_to] @ page_start @ [''<html>'', ''<head>''] @ meta_lines @
       [''<title>Authorisation</title>'', ''</head>'', ''<body>'', ''<h1>200 Authorisation (0)</h1>'', ''</body>'', ''</html>''])"

definition login_form :: "('alg, 'v, 'j, 'd, 'm, 'q, 'i, 'mi) service \<Rightarrow> string \<Rightarrow> 'd" where
  "login_form svc return_to =
     append_parts (dyn svc)
       [html_lines [''Status: 200'', ''Content-Type: text/html; charset=utf-8'', []],
        cstr (Render True (SetVariable ''REDIRECT_URL'' return_to
          (new_template (application_page_get_content (login_page svc)))))]
       (ds_default (dyn svc))"

text \<open>A verified user gets the redirection and then the login page as well: the branch does not end the handler.\<close>

definition process_login_page_get ::
  "('alg, 'v, 'j, 'd, 'm, 'q, 'i, 'mi) service \<Rightarrow> moment \<Rightarrow> 'i FCGX_Request \<Rightarrow> string option \<Rightarrow> 'v app_state \<Rightarrow> 'v outcome" where
  "process_login_page_get svc mom req query_string st =
     (let authorisation = fcgi_params req ''HTTP_AUTHORIZATION'';
          cookie = fcgi_params req ''HTTP_COOKIE'';
          return_to = login_return_to query_string;
          form = Put (ds_bytes (dyn svc) (login_form svc return_to))
      in if cookie = None \<and> authorisation = None then (Inr 0, [form, Close, Finish], st)
         else (case verify_jwks_authentication (jwt_lib svc) (serialize_json svc) (parse_json svc) (keys_env mom)
                      (cookie_malloc_ok mom) (map_option (\<lambda>s. s @ [NUL]) cookie) authorisation (key_stores st) of
             None \<Rightarrow> (Inl Undefined, [], st)
           | Some (Inl e, stores, saved) \<Rightarrow> (Inl e, [], set_stores stores saved st)
           | Some (Inr res, stores, saved) \<Rightarrow>
               (Inr 0, (if res = 0 then [Put (login_follow return_to)] else []) @ [form, Close, Finish],
                set_stores stores saved st)))"

subsection \<open>A token in the query string\<close>

definition direct_missing :: string where
  "direct_missing = html_lines ([''Status: 401 Unauthorized''] @ page_start @ [''<html>'', ''<head>''] @ meta_lines @
     [''<title>401 Unauthorized</title>'', ''</head>'', ''<body>'', ''<h1>400 Bad Request</h1>'',
      ''<p><code>token</code> MUST be supplied.</p>'', ''</body>'', ''</html>''])"

definition direct_refused :: "int \<Rightarrow> string" where
  "direct_refused res = html_lines ([''Status: 401''] @ page_start @ [''<html>'', ''<head>''] @ meta_lines @
     [''<title>401 Unauthorized</title>'', ''</head>'', ''<body>'', ''<h1>401 Unauthorized</h1>'',
      ''<p>Could not verify supplied token, rc = '' @ int_text res @ ''.</p>'', ''</body>'', ''</html>''])"

definition direct_accepted :: "string \<Rightarrow> string \<Rightarrow> string" where
  "direct_accepted jwtoken qs_state =
     html_lines ([''Status: 200'', ''Set-Cookie: auth='' @ jwtoken @ ''; Path=/; Secure; HttpOnly; SameSite=Lax''] @
       page_start @ [''<html>'', ''<head>''] @ meta_lines @
       [''<title>200 OK</title>'', ''</head>'', ''<body>'', ''<h1>200 OK</h1>'',
        ''<p>Supplied token verified and accepted.</p>'', ''<p>'' @ qs_state @ ''</p>'', ''</body>'', ''</html>''])"

definition process_direct_token_auth_request ::
  "('alg, 'v, 'j, 'd, 'm, 'q, 'i, 'mi) service \<Rightarrow> moment \<Rightarrow> 'q RequestContext \<Rightarrow> 'v app_state \<Rightarrow> 'v outcome" where
  "process_direct_token_auth_request svc mom ctx st =
     (let page = ds_default (dyn svc);
          answer = (\<lambda>s. [Put s, Put (ds_bytes (dyn svc) page), Close, Finish]);
          arg = querystring_getbykey (query svc) (ctx_qs ctx)
      in case arg ''token'' of
           None \<Rightarrow> (Inr 0, answer direct_missing, st)
         | Some jwtoken \<Rightarrow>
             (case verify_jwks_authentication_jwt (jwt_lib svc) (serialize_json svc) (parse_json svc) (keys_env mom)
                     jwtoken (key_stores st) of
                (Inl e, stores, saved) \<Rightarrow> (Inl e, [], set_stores stores saved st)
              | (Inr res, stores, saved) \<Rightarrow>
                  (Inr 0, answer (if res \<noteq> 0 then direct_refused res
                                  else direct_accepted jwtoken (case arg ''state'' of None \<Rightarrow> ''(null?)'' | Some s \<Rightarrow> s)),
                   set_stores stores saved st)))"

subsection \<open>Showing a token\<close>

definition process_debug_token_auth_request ::
  "('alg, 'v, 'j, 'd, 'm, 'q, 'i, 'mi) service \<Rightarrow> 'q RequestContext \<Rightarrow> 'v app_state \<Rightarrow> 'v outcome" where
  "process_debug_token_auth_request svc ctx st =
     (let jwtoken = (case HTTPUtils_get_cookie (ctx_cookies ctx) ''auth'' 0 of None \<Rightarrow> [] | Some s \<Rightarrow> s)
      in case jwt_content svc jwtoken of
           Inl e \<Rightarrow> (Inl e, [], st)
         | Inr content \<Rightarrow>
             (Inr 0, [Put (html_lines ([''Status: 200''] @ page_start @ [''<html>'', ''<head>''] @ meta_lines @
                [''<title>200 OK</title>'', ''</head>'', ''<body>'', ''<h1>200 OK</h1>'',
                 ''<p>Contents of Supplied Token:</p>'', ''<pre>'' @ ds_getcstring (dyn svc) content @ ''</pre>'',
                 ''</body>'', ''</html>''])), Close, Finish], st))"

subsection \<open>Logging out\<close>

definition logout_cookie :: "'d dynstring_ops \<Rightarrow> string \<Rightarrow> 'd \<Rightarrow> 'd" where
  "logout_cookie D name header =
     (let header = append_parts D [''Max-Age=0; Expires=Thu, 01 Jan 1970 00:00:00 GMT; '']
            (append_parts D [''=; Path=/; '']
              (ds_htmlspecial_encode_appendz D (append_parts D [''Set-Cookie: ''] header) name));
          header = (if name = ''auth'' then append_parts D [''Secure; HttpOnly; SameSite=Lax''] header else header)
      in append_parts D [crlf] header)"

definition logout_header :: "'d dynstring_ops \<Rightarrow> (string \<times> string) list option \<Rightarrow> 'd" where
  "logout_header D cookies =
     (let header = append_parts D [html_lines [''Status: 200'']] (ds_default D);
          header = (case cookies of
                      None \<Rightarrow> header
                    | Some cs \<Rightarrow> fold (\<lambda>(name, _). logout_cookie D name) cs header)
      in append_parts D
           [html_lines [''Cache-Control: no-cache'', ''Content-Type: text/html; charset=utf-8'', []]] header)"

definition process_logout_request ::
  "('alg, 'v, 'j, 'd, 'm, 'q, 'i, 'mi) service \<Rightarrow> 'q RequestContext \<Rightarrow> 'v app_state \<Rightarrow> 'v outcome" where
  "process_logout_request svc ctx st =
     (let templ = SetVariable ''APPLICATION_SERVICEPROVIDER_LOGOUT_URL''
            ''https://login.microsoftonline.com/common/oauth2/v2.0/logout?post_logout_redirect_uri=https%3A%2F%2Fportal.stockval.co.uk%2Fauth%2Fmicrosoft%2Flogout''
            (new_template (application_page_get_content (logout_page svc)))
      in (Inr 0, [Put (ds_bytes (dyn svc) (logout_header (dyn svc) (ctx_cookies ctx))), Put (Render True templ),
                  Close, Finish], st))"

text \<open>
  The build with \<^verbatim>\<open>DO_DEBUG_STUFF\<close> lists the cookies instead. It reads the cookie table without looking
  whether there is one, and a missing request method would end the first list of strings.
\<close>

definition logout_debug_cookie :: "'d dynstring_ops \<Rightarrow> string \<times> string \<Rightarrow> 'd \<Rightarrow> 'd" where
  "logout_debug_cookie D cookie page =
     append_parts D [crlf]
       (ds_htmlspecial_encode_appendz D
         (append_parts D ['' = ''] (ds_htmlspecial_encode_appendz D page (fst cookie))) (snd cookie))"

definition logout_debug_page :: "'d dynstring_ops \<Rightarrow> string option \<Rightarrow> (string \<times> string) list \<Rightarrow> 'd" where
  "logout_debug_page D meth cookies =
     (let start = html_lines ([''<!DOCTYPE html>'', ''<html>'', ''<head>''] @ meta_lines @
            [''<title>200 OK</title>'', ''</head>'', ''<body>'', ''<h1>200 OK</h1>'', ''<p>request method:</p>'']) @ ''<pre>'';
          page = append_parts D
            (case meth of None \<Rightarrow> [start]
             | Some m \<Rightarrow> [start, m, html_lines [''</pre>'', ''<p>Cookie:</p>''] @ ''<pre>''])
            (ds_default D)
      in append_parts D
           [html_lines [''</pre>'', ''<p>The cookies that are listed above, if any, should now have been removed.</p>'',
              ''<p><a href=\"https://login.microsoftonline.com/common/oauth2/v2.0/logout?post_logout_redirect_uri=https%3A%2F%2Fportal.stockval.co.uk%2Fauth%2Fdebug\">Logout at Microsoft</a>.</p>'',
              ''</body>'', ''</html>'']]
           (fold (logout_debug_cookie D) cookies page))"

definition process_logout_request_debug ::
  "('alg, 'v, 'j, 'd, 'm, 'q, 'i, 'mi) service \<Rightarrow> 'i FCGX_Request \<Rightarrow> 'q RequestContext \<Rightarrow> 'v app_state \<Rightarrow> 'v outcome" where
  "process_logout_request_debug svc req ctx st =
     (case ctx_cookies ctx of
        None \<Rightarrow> (Inl Undefined, [], st)
      | Some cookies \<Rightarrow>
          (Inr 0, [Put (ds_bytes (dyn svc) (logout_header (dyn svc) (ctx_cookies ctx))),
             Put (ds_bytes (dyn svc) (logout_debug_page (dyn svc) (fcgi_params req ''REQUEST_METHOD'') cookies)),
             Close, Finish], st))"

subsection \<open>The request context\<close>

definition base_location :: "int \<Rightarrow> string" where
  "base_location slashcount = concat (replicate (nat slashcount) ''../'')"

definition fcgx_prepare_request_context ::
  "('alg, 'v, 'j, 'd, 'm, 'q, 'i, 'mi) service \<Rightarrow> moment \<Rightarrow> 'i FCGX_Request \<Rightarrow> exn + 'q RequestContext" where
  "fcgx_prepare_request_context svc mom req =
     (let param = fcgi_params req; cookie = map_option (\<lambda>s. s @ [NUL]) (param ''HTTP_COOKIE'')
      in case (param ''REQUEST_METHOD'', param ''REQUEST_URI'', param ''SCRIPT_NAME'', param ''PATH_INFO'',
               param ''DOCUMENT_ROOT'') of
           (Some method, Some uri, Some script, Some path_info, Some root) \<Rightarrow>
             (case HTTPUtils_parse_cookies (cookie_malloc_ok mom) cookie of
                None \<Rightarrow> Inl Undefined
              | Some parsed \<Rightarrow>
                  Inr \<lparr>ctx_request_method = method, ctx_request_uri = uri, ctx_script_name = script,
                       ctx_path_info = path_info, ctx_document_root = root,
                       ctx_base_loc = base_location (strutils_countchar svc path_info (CHR ''/'') 0),
                       ctx_query_string = param ''QUERY_STRING'', ctx_request_id = param ''REQUEST_ID'',
                       ctx_cookie = (case parsed of None \<Rightarrow> cookie | Some (buf, _) \<Rightarrow> Some buf),
                       ctx_cookies = map_option (\<lambda>(buf, cookies). cookie_view buf cookies) parsed,
                       ctx_authorisation = param ''HTTP_AUTHORIZATION'',
                       ctx_qs = querystring_decode_inplace (query svc) (param ''QUERY_STRING''),
                       ctx_parsed_path = (case parse_path_cstr (Some path_info) of
                                            None \<Rightarrow> \<lparr>storage = [], ranges = []\<rparr>
                                          | Some p \<Rightarrow> p)\<rparr>)
         | _ \<Rightarrow> Inl Undefined)"

definition appauth_process_request_ex ::
  "('alg, 'v, 'j, 'd, 'm, 'q, 'i, 'mi) service \<Rightarrow> moment \<Rightarrow> 'i FCGX_Request \<Rightarrow> exn + int" where
  "appauth_process_request_ex svc mom req = bindE (fcgx_prepare_request_context svc mom req) (\<lambda>_. Inr 0)"

subsection \<open>The router\<close>

text \<open>The handler's code is only logged.\<close>

definition routed :: "'v outcome \<Rightarrow> 'v outcome" where
  "routed r = (case r of (res, out, st) \<Rightarrow> (bindE res (\<lambda>_. Inr 0), out, st))"

definition status_only :: "string \<Rightarrow> string" where
  "status_only line = html_lines [line, ''Content-Type: text/html; charset=utf-8'', []]"

definition appauth_process_request ::
  "('alg, 'v, 'j, 'd, 'm, 'q, 'i, 'mi) service \<Rightarrow> moment \<Rightarrow> 'i FCGX_Request \<Rightarrow> 'v app_state \<Rightarrow> 'v outcome" where
  "appauth_process_request svc mom req st =
     (case (fcgi_params req ''REQUEST_METHOD'', fcgi_params req ''PATH_INFO'') of
        (None, _) \<Rightarrow> (Inl Undefined, [], st)
      | (Some method, path) \<Rightarrow>
          if method = ''GET'' \<and> path = None then (Inl Undefined, [], st)
          else if method = ''GET'' \<and> path = Some ''login'' then
            routed (process_login_page_get svc mom req (fcgi_params req ''QUERY_STRING'') st)
          else (case fcgx_prepare_request_context svc mom req of
              Inl e \<Rightarrow> (Inl e, [], st)
            | Inr req_ctx \<Rightarrow>
                let not_found = (Inr 0, [Put (status_only ''Status: 404''), Finish], st)
                in if method = ''POST'' then
                     (if path = Some ''login'' then routed (process_login_page_post svc mom req st)
                      else if path = Some ''microsoft/logout'' then routed (process_logout_request svc req_ctx st)
                      else if path = Some ''verify'' then routed (process_verification_request svc mom req_ctx st)
                      else not_found)
                   else if method = ''GET'' then
                     (if path = Some ''microsoft'' then routed (process_code_response svc mom req_ctx st)
                      else if path = Some ''microsoft/logout'' then routed (process_logout_request svc req_ctx st)
                      else if path = Some ''verify'' then routed (process_verification_request svc mom req_ctx st)
                      else if path = Some ''direct'' then routed (process_direct_token_auth_request svc mom req_ctx st)
                      else if path = Some ''debug'' then routed (process_debug_token_auth_request svc req_ctx st)
                      else if path = Some ''logout'' then routed (process_logout_request svc req_ctx st)
                      else not_found)
                   else if method = ''HEAD'' then (Inr 0, [Put (status_only ''Status: 403''), Finish], st)
                   else not_found))"

subsection \<open>The text of a page\<close>

lemma append_parts_bytes [simp]:
  "dynstring_laws D \<Longrightarrow> ds_bytes D (append_parts D parts d) = ds_bytes D d @ concat parts"
  by (simp add: append_parts_def dynstring_lawsD)

end
