(* ===== verification/Appauth_handlers.thy ===== *)
theory Appauth_handlers
  imports Appauth
begin

section \<open>What every request handler keeps\<close>

text \<open>
  The service loop as a step relation, the pages by their first lines, and the contract of a request
  handler: it changes the key stores only by the steps of the key manager, leaves files and fields alone,
  and when it returns it has finished the request as its last call. All handlers but the one
  that reads a form fulfil it.
\<close>

subsection \<open>The service loop (\<^verbatim>\<open>appsrc/auth.cpp\<close>)\<close>

definition initial_state :: "'v stores \<Rightarrow> world \<Rightarrow> 'v app_state" where
  "initial_state stores w = \<lparr>key_stores = stores, code_cache = Map.empty, form_world = w, saved_files = []\<rparr>"

text \<open>One request after the other; the loop goes on while the router returns 0.\<close>

inductive serving ::
  "('alg, 'v, 'j, 'd, 'm, 'q, 'i, 'mi) service \<Rightarrow> 'v app_state \<Rightarrow> 'v app_state \<Rightarrow> bool" for svc where
  started: "serving svc st st"
| request: "serving svc st st1 \<Longrightarrow> appauth_process_request svc mom req st1 = (Inr 0, out, st2) \<Longrightarrow> serving svc st st2"

subsection \<open>Pages\<close>

lemma default_bytes [simp]: "dynstring_laws D \<Longrightarrow> ds_bytes D (ds_default D) = []"
  by (simp add: dynstring_lawsD)

lemma html_lines_simps [simp]: "html_lines [] = []" "html_lines (l # ls) = l @ crlf @ html_lines ls"
  by (simp_all add: html_lines_def)

lemma html_lines_append [simp]: "html_lines (ls @ ms) = html_lines ls @ html_lines ms"
  by (simp add: html_lines_def)

lemma prefix_append_left: "prefix p a \<Longrightarrow> prefix p (a @ b)"
  by (metis prefix_append)

lemma not_redirects:
  "\<not> prefix ''Status: 302'' code_unverifyable" "\<not> prefix ''Status: 302'' code_no_token"
  "\<not> prefix ''Status: 302'' code_null_token" "\<not> prefix ''Status: 302'' code_unauthorized"
  by (simp_all add: code_unverifyable_def code_no_token_def code_null_token_def code_unauthorized_def)

lemma encoded_not_redirects:
  assumes "dynstring_laws D" "encoder_laws D html url"
  shows "\<not> prefix ''Status: 302'' (ds_bytes D (code_error_page D e d))"
    "\<not> prefix ''Status: 302'' (ds_bytes D (code_missing_page D tok content))"
  using assms
  by (simp_all add: code_error_page_def code_missing_page_def Let_def encoder_lawsD split: option.split)

lemma accepted_page_bytes:
  "dynstring_laws D \<Longrightarrow> \<exists>rest. ds_bytes D (code_accepted_page D tk redirect_url qs_state) =
     html_lines [''Status: 302'', ''Set-Cookie: auth='' @ tk @ ''; Path=/; Secure; HttpOnly; SameSite=Lax'',
       ''Content-Type: text/html; charset=utf-8'', ''Location: '' @ redirect_url, []] @ rest"
  by (simp add: code_accepted_page_def meta_lines_def)

lemma plain_page_bytes [simp]: "dynstring_laws D \<Longrightarrow> ds_bytes D (plain_page D s) = s"
  by (simp add: plain_page_def)

subsection \<open>The answer to a code\<close>

abbreviation token_check ::
  "('alg, 'v, 'j, 'd, 'm, 'q, 'i, 'mi) service \<Rightarrow> moment \<Rightarrow> string \<Rightarrow> 'v stores \<Rightarrow> (exn + int) \<times> 'v stores \<times> (string \<times> string) list" where
  "token_check svc mom \<equiv>
     verify_jwks_authentication_jwt (jwt_lib svc) (serialize_json svc) (parse_json svc) (keys_env mom)"

abbreviation code_tokens ::
  "('alg, 'v, 'j, 'd, 'm, 'q, 'i, 'mi) service \<Rightarrow> moment \<Rightarrow> string \<Rightarrow> codes \<Rightarrow> (exn + int \<times> string option) \<times> codes" where
  "code_tokens svc mom \<equiv> get_tokens_from_microsoft (dyn svc) (config svc) (parse_json svc) (codes_env mom)"

abbreviation state_check :: "('alg, 'v, 'j, 'd, 'm, 'q, 'i, 'mi) service \<Rightarrow> moment \<Rightarrow> string \<Rightarrow> int" where
  "state_check svc mom \<equiv> openidconnect_verify_string (sha256_buf (junk mom)) (dyn svc) (secret svc)"

abbreviation argument :: "('alg, 'v, 'j, 'd, 'm, 'q, 'i, 'mi) service \<Rightarrow> 'q RequestContext \<Rightarrow> string \<Rightarrow> string option" where
  "argument svc ctx \<equiv> querystring_getbykey (query svc) (ctx_qs ctx)"

lemma code_answer_redirect:
  assumes "code_answer svc mom qs_code qs_state redirect_url st = (Inr page, st')" "dynstring_laws (dyn svc)"
    "prefix ''Status: 302'' (ds_bytes (dyn svc) page)"
  shows "\<exists>tk cache' stores saved. code_tokens svc mom qs_code (code_cache st) = (Inr (0, Some tk), cache') \<and>
    token_check svc mom tk (key_stores st) = (Inr 0, stores, saved) \<and>
    page = code_accepted_page (dyn svc) tk redirect_url qs_state"
  using assms not_redirects
  by (auto simp: code_answer_def Let_def split: prod.splits sum.splits option.splits if_splits)

lemma code_page_redirect:
  assumes "code_page svc mom ctx tok content st = (Inr page, st')" "dynstring_laws (dyn svc)"
    "encoder_laws (dyn svc) html url" "prefix ''Status: 302'' (ds_bytes (dyn svc) page)"
  obtains qs_code qs_state shown redirect_url where "argument svc ctx ''error'' = None"
    "argument svc ctx ''code'' = Some qs_code" "argument svc ctx ''state'' = Some qs_state"
    "state_check svc mom qs_state = 0" "code_answer svc mom qs_code shown redirect_url st = (Inr page, st')"
    "redirect_url = [] \<or> (\<exists>rest. qs_state = redirect_url @ CHR ''.'' # rest)"
proof -
  note no = not_redirects encoded_not_redirects [OF assms(2,3)] plain_page_bytes [OF assms(2)]
  have e: "argument svc ctx ''error'' = None"
    using assms(1,4) no by (cases "argument svc ctx ''error''") (auto simp: code_page_def Let_def)
  then obtain qs_code qs_state where cs: "argument svc ctx ''code'' = Some qs_code" "argument svc ctx ''state'' = Some qs_state"
    using assms(1,4) no by (auto simp: code_page_def Let_def split: option.splits)
  have v: "state_check svc mom qs_state = 0"
    using assms(1,4) no e cs by (auto simp: code_page_def Let_def split: if_splits)
  show thesis
  proof (cases rule: truncate_cases [of qs_state])
    case whole
    then have "code_answer svc mom qs_code qs_state [] st = (Inr page, st')"
      using assms(1) e cs v by (simp add: code_page_def)
    then show ?thesis using that [OF e cs v] by blast
  next
    case (cut kept rest)
    then have "code_answer svc mom qs_code kept kept st = (Inr page, st')"
      using assms(1) e cs v by (simp add: code_page_def)
    then show ?thesis using that [OF e cs v] cut(2) by blast
  qed
qed

subsection \<open>The key stores over a run\<close>

lemma reaches_trans:
  "manager_reaches J parse s1 s2 \<Longrightarrow> manager_reaches J parse s0 s1 \<Longrightarrow> manager_reaches J parse s0 s2"
  by (induction rule: manager_reaches.induct) (auto intro: manager_reaches.step)

lemma token_check_reaches:
  "token_check svc mom tk stores = (r, stores', saved) \<Longrightarrow> manager_reaches (jwt_lib svc) (parse_json svc) stores stores'"
  by (rule verify_auth_reaches)

lemma user_with_result_reaches:
  assumes "user_with_result J serialize parse env man s stores = (r, stores', saved)"
  shows "manager_reaches J parse stores stores'"
  using assms verify_auth_reaches [of J serialize parse env s stores]
  by (auto simp: user_with_result_def manager_reaches.start split: if_splits prod.splits sum.splits)

lemma set_stores_sel [simp]:
  "key_stores (set_stores stores saved st) = stores" "code_cache (set_stores stores saved st) = code_cache st"
  "form_world (set_stores stores saved st) = form_world st"
  by (simp_all add: set_stores_def)

lemma code_answer_reaches:
  "code_answer svc mom qs_code qs_state redirect_url st = (r, st') \<Longrightarrow>
   manager_reaches (jwt_lib svc) (parse_json svc) (key_stores st) (key_stores st')"
  using verify_auth_reaches
  by (auto simp: code_answer_def Let_def manager_reaches.start split: prod.splits sum.splits option.splits if_splits)

lemma code_response_reaches:
  assumes "process_code_response svc mom ctx st = (r, out, st')"
  shows "manager_reaches (jwt_lib svc) (parse_json svc) (key_stores st) (key_stores st')"
proof -
  have "code_page svc mom ctx tok content st = (r, st') \<Longrightarrow>
      manager_reaches (jwt_lib svc) (parse_json svc) (key_stores st) (key_stores st')" for tok content r st'
    using code_answer_reaches
    by (auto simp: code_page_def Let_def manager_reaches.start split: option.splits if_splits prod.splits)
  then show ?thesis using assms
    by (auto simp: process_code_response_def Let_def manager_reaches.start split: sum.splits prod.splits)
qed

lemma login_get_reaches:
  assumes "process_login_page_get svc mom req q st = (r, out, st')"
  shows "manager_reaches (jwt_lib svc) (parse_json svc) (key_stores st) (key_stores st')"
  using assms verify_auth_reaches
  by (auto simp: process_login_page_get_def verify_jwks_authentication_def Let_def manager_reaches.start
      split: prod.splits sum.splits option.splits if_splits)

lemma direct_reaches:
  assumes "process_direct_token_auth_request svc mom ctx st = (r, out, st')"
  shows "manager_reaches (jwt_lib svc) (parse_json svc) (key_stores st) (key_stores st')"
  using assms verify_auth_reaches
  by (auto simp: process_direct_token_auth_request_def Let_def manager_reaches.start split: prod.splits sum.splits option.splits)

lemma login_post_stores:
  "process_login_page_post svc mom req st = (r, out, st') \<Longrightarrow> key_stores st' = key_stores st \<and> code_cache st' = code_cache st"
  by (auto simp: process_login_page_post_def Let_def split: option.splits if_splits prod.splits)

lemma routed_iff: "routed x = (r, out, st') \<longleftrightarrow> (\<exists>r0. x = (r0, out, st') \<and> r = bindE r0 (\<lambda>_. Inr 0))"
  by (cases x) (auto simp: routed_def)

subsection \<open>The contract of a handler\<close>

definition answered :: "fcgi_event list \<Rightarrow> bool" where
  "answered out \<longleftrightarrow> out \<noteq> [] \<and> last out = Finish \<and> Finish \<notin> set (butlast out)"

lemma answered_simps [simp]:
  "\<not> answered []" "answered [Finish]" "answered (e # f # out) \<longleftrightarrow> e \<noteq> Finish \<and> answered (f # out)"
  by (auto simp: answered_def)

lemma answered_calls: "answered out \<Longrightarrow> \<exists>calls. out = calls @ [Finish] \<and> Finish \<notin> set calls"
  unfolding answered_def by (metis append_butlast_last_id)

locale handler =
  fixes reaches :: "'v stores \<Rightarrow> 'v stores \<Rightarrow> bool"
    and handle :: "'v app_state \<Rightarrow> 'v outcome"
  assumes stores_reach: "handle st = (r, out, st') \<Longrightarrow> reaches (key_stores st) (key_stores st')"
    and world_kept: "handle st = (r, out, st') \<Longrightarrow> form_world st' = form_world st"
    and finishes: "handle st = (r, out, st') \<Longrightarrow> (case r of Inl _ \<Rightarrow> out = [] | Inr _ \<Rightarrow> answered out)"
begin

text \<open>The same through the router.\<close>

lemma routed_keeps:
  "routed (handle st) = (r, out, st') \<Longrightarrow> reaches (key_stores st) (key_stores st') \<and> form_world st' = form_world st"
  using stores_reach world_kept by (auto simp: routed_iff)

lemma routed_finishes:
  assumes "routed (handle st) = (r, out, st')"
  shows "case r of Inl _ \<Rightarrow> out = [] | Inr rc \<Rightarrow> rc = 0 \<and> answered out"
proof -
  from assms obtain r0 where "handle st = (r0, out, st')" "r = bindE r0 (\<lambda>_. Inr 0)" by (auto simp: routed_iff)
  with finishes [OF this(1)] show ?thesis by (cases r0) auto
qed

end

abbreviation stores_by ::
  "('alg, 'v, 'j, 'd, 'm, 'q, 'i, 'mi) service \<Rightarrow> 'v stores \<Rightarrow> 'v stores \<Rightarrow> bool" where
  "stores_by svc \<equiv> manager_reaches (jwt_lib svc) (parse_json svc)"

lemma code_answer_world: "code_answer svc mom qs_code qs_state redirect_url st = (r, st') \<Longrightarrow> form_world st' = form_world st"
  by (auto simp: code_answer_def Let_def split: prod.splits sum.splits option.splits if_splits)

lemma code_page_world: "code_page svc mom ctx tok content st = (r, st') \<Longrightarrow> form_world st' = form_world st"
  using code_answer_world by (auto simp: code_page_def Let_def split: option.splits if_splits prod.splits)

interpretation code: handler "stores_by svc" "process_code_response svc mom ctx" for svc mom ctx
proof (unfold_locales, goal_cases)
  case (2 st r out st')
  then show ?case
    using code_page_world by (fastforce simp: process_code_response_def Let_def split: sum.splits prod.splits)
next
  case (3 st r out st')
  then show ?case by (auto simp: process_code_response_def Let_def split: sum.splits prod.splits)
qed (rule code_response_reaches)

interpretation verification: handler "stores_by svc" "process_verification_request svc mom ctx" for svc mom ctx
proof (unfold_locales, goal_cases)
  case (1 st r out st')
  then show ?case using user_with_result_reaches
    by (auto simp: process_verification_request_def application_verify_jwt_authentication_def Let_def split: prod.splits sum.splits)
qed (auto simp: process_verification_request_def Let_def split: prod.splits sum.splits)

interpretation login_get: handler "stores_by svc" "process_login_page_get svc mom req query_string" for svc mom req query_string
proof (unfold_locales, goal_cases)
  case (1 st r out st')
  then show ?case by (rule login_get_reaches)
qed (auto simp: process_login_page_get_def Let_def split: prod.splits sum.splits option.splits if_splits)

interpretation direct: handler "stores_by svc" "process_direct_token_auth_request svc mom ctx" for svc mom ctx
proof (unfold_locales, goal_cases)
  case (1 st r out st')
  then show ?case by (rule direct_reaches)
qed (auto simp: process_direct_token_auth_request_def Let_def split: prod.splits sum.splits option.splits)

interpretation debug: handler "stores_by svc" "process_debug_token_auth_request svc ctx" for svc ctx
  by unfold_locales (auto simp: process_debug_token_auth_request_def Let_def manager_reaches.start split: sum.splits)

interpretation logout: handler "stores_by svc" "process_logout_request svc ctx" for svc ctx
  by unfold_locales (auto simp: process_logout_request_def manager_reaches.start)

interpretation logout_debug: handler "stores_by svc" "process_logout_request_debug svc req ctx" for svc req ctx
  by unfold_locales (auto simp: process_logout_request_debug_def manager_reaches.start split: option.splits)

text \<open>The pages of the router itself: a status line.\<close>

definition status_answer :: "string \<Rightarrow> 'v app_state \<Rightarrow> 'v outcome" where
  "status_answer line st = (Inr 0, [Put (status_only line), Finish], st)"

interpretation status: handler "stores_by svc" "status_answer line" for svc line
  by unfold_locales (auto simp: status_answer_def manager_reaches.start)

lemma routedI: "handle st = (r0, out, st') \<Longrightarrow> r = bindE r0 (\<lambda>_. Inr 0) \<Longrightarrow> routed (handle st) = (r, out, st')"
  by (simp add: routed_iff)

text \<open>What a request can be answered with.\<close>

lemma request_cases:
  assumes "appauth_process_request svc mom req st = (r, out, st')"
  obtains (undefined) e where "r = Inl e" "out = []" "st' = st"
  | (fixed) s where "r = Inr 0" "out = [Put (status_only s), Finish]" "st' = st" "s = ''Status: 404'' \<or> s = ''Status: 403''"
  | (login_get) r0 where "process_login_page_get svc mom req (fcgi_params req ''QUERY_STRING'') st = (r0, out, st')"
      "r = bindE r0 (\<lambda>_. Inr 0)"
  | (login_post) r0 where "process_login_page_post svc mom req st = (r0, out, st')" "r = bindE r0 (\<lambda>_. Inr 0)"
      "fcgi_params req ''REQUEST_METHOD'' = Some ''POST''" "fcgi_params req ''PATH_INFO'' = Some ''login''"
  | (logout) ctx r0 where "process_logout_request svc ctx st = (r0, out, st')" "r = bindE r0 (\<lambda>_. Inr 0)"
      "fcgx_prepare_request_context svc mom req = Inr ctx"
  | (verify) ctx r0 where "process_verification_request svc mom ctx st = (r0, out, st')" "r = bindE r0 (\<lambda>_. Inr 0)"
  | (code) ctx r0 where "process_code_response svc mom ctx st = (r0, out, st')" "r = bindE r0 (\<lambda>_. Inr 0)"
      "fcgx_prepare_request_context svc mom req = Inr ctx"
  | (direct) ctx r0 where "process_direct_token_auth_request svc mom ctx st = (r0, out, st')" "r = bindE r0 (\<lambda>_. Inr 0)"
      "fcgx_prepare_request_context svc mom req = Inr ctx"
  | (debug) ctx r0 where "process_debug_token_auth_request svc ctx st = (r0, out, st')" "r = bindE r0 (\<lambda>_. Inr 0)"
proof (cases "fcgi_params req ''REQUEST_METHOD''")
  case None
  then show ?thesis using assms undefined by (auto simp: appauth_process_request_def)
next
  case (Some meth)
  show ?thesis
  proof (cases "meth = ''GET'' \<and> (fcgi_params req ''PATH_INFO'' = None \<or> fcgi_params req ''PATH_INFO'' = Some ''login'')")
    case True
    then show ?thesis using assms Some undefined login_get
      by (auto simp: appauth_process_request_def routed_iff)
  next
    case early: False
    show ?thesis
    proof (cases "fcgx_prepare_request_context svc mom req")
      case (Inl e)
      then show ?thesis using assms Some early undefined by (auto simp: appauth_process_request_def split: if_splits)
    next
      case (Inr ctx)
      note step = assms [unfolded appauth_process_request_def Some Inr Let_def option.case prod.case sum.case]
      show ?thesis
        using step early Some Inr
        by (auto simp: routed_iff split: if_split_asm intro: fixed login_post logout verify code direct debug)
    qed
  qed
qed

text \<open>So a request is undefined, a posted login form, or answered by a handler that keeps the contract.\<close>

lemma request_handled:
  assumes "appauth_process_request svc mom req st = (r, out, st')"
  obtains (undefined) e where "r = Inl e" "out = []" "st' = st"
  | (login_post) r0 where "process_login_page_post svc mom req st = (r0, out, st')" "r = bindE r0 (\<lambda>_. Inr 0)"
      "fcgi_params req ''REQUEST_METHOD'' = Some ''POST''" "fcgi_params req ''PATH_INFO'' = Some ''login''"
  | (handled) h where "handler (stores_by svc) h" "routed (h st) = (r, out, st')"
  using assms
proof (cases rule: request_cases)
  case (fixed s)
  then have "routed (status_answer s st) = (r, out, st')" by (simp add: routed_iff status_answer_def)
  with status.handler_axioms show ?thesis by (rule handled)
next
  case (login_get r0)
  then show ?thesis by (intro handled [OF login_get.handler_axioms] routedI)
next
  case (logout ctx r0)
  then show ?thesis by (intro handled [OF logout.handler_axioms] routedI)
next
  case (verify ctx r0)
  then show ?thesis by (intro handled [OF verification.handler_axioms] routedI)
next
  case (code ctx r0)
  then show ?thesis by (intro handled [OF code.handler_axioms] routedI)
next
  case (direct ctx r0)
  then show ?thesis by (intro handled [OF direct.handler_axioms] routedI)
next
  case (debug ctx r0)
  then show ?thesis by (intro handled [OF debug.handler_axioms] routedI)
qed (rule undefined login_post; assumption)+

lemma request_reaches:
  assumes "appauth_process_request svc mom req st = (r, out, st')"
  shows "stores_by svc (key_stores st) (key_stores st')"
  using assms
proof (cases rule: request_handled)
  case (login_post r0)
  then show ?thesis using login_post_stores manager_reaches.start by metis
next
  case (handled h)
  then show ?thesis using handler.routed_keeps by blast
qed (simp add: manager_reaches.start)

lemma serving_reaches:
  "serving svc st st' \<Longrightarrow> manager_reaches (jwt_lib svc) (parse_json svc) (key_stores st) (key_stores st')"
  by (induction rule: serving.induct) (auto intro: manager_reaches.start reaches_trans request_reaches)

end
