(* ===== verification/Appauth_safety.thy ===== *)
theory Appauth_safety
  imports Appauth_handlers
begin

section \<open>What the request handlers guarantee\<close>

text \<open>
  The properties of the handlers and the router: who gets a cookie, where a login returns to, what
  each request is answered.
\<close>

subsection \<open>Tokens and answers\<close>

lemma token_check_trusted:
  assumes "auth_startup (jwt_lib svc) (parse_json svc) env0 = Inr stores0" "serving svc (initial_state stores0 w) st"
    and "token_check svc mom tk (key_stores st) = (Inr 0, stores', saved)"
  shows "\<exists>jwt kid key v user. jwt_decode (jwt_lib svc) tk = Inr jwt \<and> get_key_id (jwt_lib svc) jwt = Inr kid \<and>
    key_entry (jwt_lib svc) key = Some (kid, v) \<and> jwt_verify (jwt_lib svc) v jwt (later_now (keys_env mom)) = Inr () \<and>
    payload_user (get_payload_json (jwt_lib svc) jwt) = Some user"
  using token_trusted [OF assms(1) _ assms(3)] serving_reaches [OF assms(2)] by (simp add: initial_state_def)

text \<open>A token some complete JWK vouches for at the time of the request, and that names a user.\<close>

definition trusted_token :: "('alg, 'v, 'j) jwt_ops \<Rightarrow> int \<Rightarrow> string \<Rightarrow> bool" where
  "trusted_token J time tk \<longleftrightarrow>
     (\<exists>jwt kid key v. jwt_decode J tk = Inr jwt \<and> get_key_id J jwt = Inr kid \<and> key_entry J key = Some (kid, v) \<and>
        jwt_verify J v jwt time = Inr () \<and> payload_user (get_payload_json J jwt) \<noteq> None)"

lemma code_response_out:
  assumes "process_code_response svc mom ctx st = (r, out, st')" "Put page \<in> set out"
  shows "\<exists>tok content d. code_page svc mom ctx tok content st = (Inr d, st') \<and> page = ds_bytes (dyn svc) d"
  using assms by (auto simp: process_code_response_def Let_def split: sum.splits prod.splits) blast+

lemma login_get_answer:
  assumes "process_login_page_get svc mom req query_string st = (Inr rc, out, st')"
  shows "\<exists>path. (path = [] \<or> hd path \<noteq> CHR ''/'') \<and> (path = [] \<or> query_string = Some (''return=/'' @ path)) \<and>
    out = (if \<exists>stores saved. (fcgi_params req ''HTTP_COOKIE'' \<noteq> None \<or> fcgi_params req ''HTTP_AUTHORIZATION'' \<noteq> None) \<and>
                verify_jwks_authentication (jwt_lib svc) (serialize_json svc) (parse_json svc) (keys_env mom) (cookie_malloc_ok mom)
                  (map_option (\<lambda>s. s @ [NUL]) (fcgi_params req ''HTTP_COOKIE'')) (fcgi_params req ''HTTP_AUTHORIZATION'')
                  (key_stores st) = Some (Inr 0, stores, saved)
           then [Put (login_follow (''/'' @ path))] else []) @
      [Put (ds_bytes (dyn svc) (login_form svc (''/'' @ path))), Close, Finish]"
proof -
  have "\<exists>path. (path = [] \<or> hd path \<noteq> CHR ''/'') \<and> (path = [] \<or> query_string = Some (''return=/'' @ path)) \<and>
      login_return_to query_string = ''/'' @ path"
  proof (cases query_string)
    case (Some s)
    show ?thesis
    proof (cases "length s \<ge> 8 \<and> strncmp0 7 s ''return='' \<and> s ! 7 = CHR ''/'' \<and> (length s = 8 \<or> s ! 8 \<noteq> CHR ''/'')")
      case True
      have d: "drop 7 s = ''/'' @ drop 8 s" using Cons_nth_drop_Suc [of 7 s] True by simp
      moreover have "s = ''return=/'' @ drop 8 s"
        using append_take_drop_id [of 7 s] d True by (simp add: strncmp0_def)
      moreover have "drop 8 s = [] \<or> hd (drop 8 s) \<noteq> CHR ''/''" using True by (auto simp: hd_drop_conv_nth)
      ultimately show ?thesis using True Some by (intro exI [of _ "drop 8 s"]) (simp add: login_return_to_def)
    next
      case False
      have "login_return_to query_string = ''/''"
        unfolding login_return_to_def Some option.case using False by (rule if_not_P)
      then show ?thesis by simp
    qed
  qed (simp add: login_return_to_def)
  then obtain path where p: "path = [] \<or> hd path \<noteq> CHR ''/''" "path = [] \<or> query_string = Some (''return=/'' @ path)"
    "login_return_to query_string = ''/'' @ path" by blast
  show ?thesis
    using assms p
    by (intro exI [of _ path] conjI) (auto simp: process_login_page_get_def Let_def split: option.splits prod.splits sum.splits if_splits)
qed

lemma post_out:
  assumes "process_login_page_post svc mom req st = (Inr rc, out, st')"
  shows "rc = 0 \<and> ((\<exists>page. out = [Put page, Finish]) \<or> (out = [] \<and>
    (\<exists>res fc rest. formdecoder_decodefcgirequest (forms svc) (form_request_of (fcgi_params req) (fcgi_in req))
        (1024 * 1024) None (form_world st) = Some (res, fc, rest) \<and> (res \<noteq> 0 \<or> fc = None))))"
  using assms by (auto simp: process_login_page_post_def Let_def split: option.splits if_splits prod.splits)

lemma login_state_eq:
  assumes "dynstring_laws (dyn svc)" "NUL \<notin> set send_to" "NUL \<notin> set (timefn_format svc (unix_now mom))"
  shows "login_state svc mom send_to = Some (send_to @ CHR ''.'' # timefn_format svc (unix_now mom) @ CHR ''.'' #
    state_tag (sha256_buf (junk mom)) (secret svc) (send_to @ ''.'' @ timefn_format svc (unix_now mom)))"
  using sha.create_eq [OF assms(1), of "send_to @ ''.'' @ timefn_format svc (unix_now mom)" "junk mom" "secret svc"] assms(2,3)
  by (simp add: login_state_def cstr_id)

lemma login_state_facts:
  assumes "dynstring_laws (dyn svc)" "NUL \<notin> set send_to" "NUL \<notin> set (timefn_format svc (unix_now mom))"
    "CHR ''.'' \<notin> set (timefn_format svc (unix_now mom))" "login_state svc mom send_to = Some s"
  shows "state_check svc mom' s = 0" "\<exists>rest. truncate_at_second_last_dot (Some s) = (Some send_to, Some rest)"
proof -
  let ?t = "timefn_format svc (unix_now mom)"
  let ?tag = "state_tag (sha256_buf (junk mom)) (secret svc) (send_to @ ''.'' @ ?t)"
  have s: "s = (send_to @ ''.'' @ ?t) @ CHR ''.'' # ?tag" using assms(5) login_state_eq [OF assms(1-3)] by simp
  have "take 16 ?tag = state_tag (sha256_buf (junk mom')) (secret svc) (send_to @ ''.'' @ ?t)"
    by (simp add: state_tag_sha256)
  then show "state_check svc mom' s = 0" unfolding s by (intro sha.verify_zeroI [OF assms(1) sha.tag_plain(2)])
  show "\<exists>rest. truncate_at_second_last_dot (Some s) = (Some send_to, Some rest)"
    using truncate_two_dots [OF assms(4) sha.tag_plain(2), of send_to] unfolding s by auto
qed

lemma code_response_accepted:
  assumes "argument svc ctx ''error'' = None" "argument svc ctx ''code'' = Some qs_code" "argument svc ctx ''state'' = Some s"
    and "state_check svc mom s = 0" "truncate_at_second_last_dot (Some s) = (Some send_to, Some sig)"
    and "HTTPUtils_get_cookie (ctx_cookies ctx) ''auth'' 0 = None"
    and "code_tokens svc mom qs_code (code_cache st) = (Inr (0, Some tk), cache)"
    and "token_check svc mom tk (key_stores st) = (Inr 0, stores, saved)"
  shows "process_code_response svc mom ctx st =
    (Inr 0, [Put (ds_bytes (dyn svc) (code_accepted_page (dyn svc) tk send_to send_to)), Flush, Close, Finish],
     set_stores stores saved (st\<lparr>code_cache := cache\<rparr>))"
proof -
  have "code_answer svc mom qs_code send_to send_to st =
      (Inr (code_accepted_page (dyn svc) tk send_to send_to), set_stores stores saved (st\<lparr>code_cache := cache\<rparr>))"
    using assms(7,8) by (simp add: code_answer_def Let_def)
  then show ?thesis using assms(1-6)
    by (simp add: process_code_response_def jwt_content_def code_page_def Let_def)
qed

lemma login_post_redirects:
  assumes "dynstring_laws (dyn svc)" "encoder_laws (dyn svc) html url"
    and "NUL \<notin> set (login_send_to r)" "NUL \<notin> set (timefn_format svc (unix_now mom))"
    and "formdecoder_decodefcgirequest (forms svc) (form_request_of (fcgi_params req) (fcgi_in req)) (1024 * 1024) None
      (form_world st) = Some (0, Some ctx, inp, w, ei)"
    and "formdecoder_getfield (form_map (forms svc)) (query svc) ctx ''provider'' w = Some p"
    and "formdecoder_getfield (form_map (forms svc)) (query svc) ctx ''redirect_to'' w = Some r"
    and "formdecoder_dispose (form_map (forms svc)) (Some ctx) w = Some w'"
    and "is_microsoft p"
  shows "\<exists>s page. login_state svc mom (login_send_to r) = Some s \<and>
    process_login_page_post svc mom req st = (Inr 0, [Put page, Finish], st\<lparr>form_world := w'\<rparr>) \<and>
    prefix (html_lines [''Status: 302'', ''Content-Type: text/html; charset=utf-8'', ''Location: '' @
      cstr (''https://login.microsoftonline.com/common/oauth2/v2.0/authorize?client_id='' @
        OAUTH2_DEFAULT_CLIENT_ID (config svc) @ ''&response_type=code&scope=openid%20profile%20email&redirect_uri='' @
        OAUTH2_DEFAULT_REDIRECT_URI (config svc) @ ''&state='' @ url s @ ''&prompt=select_account''), []]) page"
proof -
  from login_state_eq [OF assms(1,3,4)] obtain s where s: "login_state svc mom (login_send_to r) = Some s" by blast
  let ?page = "login_redirect_page (dyn svc) (login_redirect_uri (dyn svc) (config svc) s)"
  have "process_login_page_post svc mom req st = (Inr 0, [Put (ds_bytes (dyn svc) ?page), Finish], st\<lparr>form_world := w'\<rparr>)"
    using assms(5-9) s by (simp add: process_login_page_post_def Let_def)
  moreover have "ds_getcstring (dyn svc) (login_redirect_uri (dyn svc) (config svc) s) =
      cstr (''https://login.microsoftonline.com/common/oauth2/v2.0/authorize?client_id='' @
           OAUTH2_DEFAULT_CLIENT_ID (config svc) @ ''&response_type=code&scope=openid%20profile%20email&redirect_uri='' @
           OAUTH2_DEFAULT_REDIRECT_URI (config svc) @ ''&state='' @ url s @ ''&prompt=select_account'')"
    using assms(1,2) by (simp add: login_redirect_uri_def dynstring_lawsD(10) encoder_lawsD)
  ultimately show ?thesis using s assms(1)
    by (simp add: login_redirect_page_def Let_def del: cstr_Cons)
qed

definition sample_state :: string where
  "sample_state = ''/x.2024'' @ CHR ''.'' # state_tag (sha256_buf (\<lambda>_. 0)) ''secret'' ''/x.2024''"

definition sample_args :: "string querystring_ops" where
  "sample_args = \<lparr>querystring_decode_inplace = (\<lambda>s. s),
     querystring_getbykey = (\<lambda>q key. if key = ''code'' then Some ''c1'' else if key = ''state'' then Some sample_state
       else if key = ''token'' then Some ''axy'' else None)\<rparr>"

definition sample_reply :: "string \<Rightarrow> json" where
  "sample_reply s = (if s = ''{}'' then toy_document else JObject [(''id_token'', JString s)])"

definition sample_site :: site_texts where
  "sample_site = \<lparr>WELCOME_TO_COMPANY_NAME = ''Welcome'', APPLICATION_NAME = ''app'', PRIVACY_POLICY_URL = ''/privacy'',
     APPLICATION_LOGO_LIGHT = ''/l.svg'', APPLICATION_LOGO_DARK = ''/d.svg''\<rparr>"

definition sample_service ::
  "(string, string, string, string option, (string \<times> nat) list, string, string, unit) service" where
  "sample_service = \<lparr>jwt_lib = toy_jwt, serialize_json = (\<lambda>_. []), parse_json = sample_reply,
     forms = sample_form_env\<lparr>form_query := sample_args\<rparr>, config = sample_oauth, strutils_countchar = (\<lambda>_ _ _. 0),
     timefn_format = (\<lambda>_. ''2024''), login_page = application_template_init sample_site (new_template ''login''),
     logout_page = application_template_init sample_site (new_template ''bye''),
     authorisation_hook = None\<rparr>"

definition sample_moment :: moment where
  "sample_moment = \<lparr>keys_env = toy_env,
     codes_env = (sample_code_env 0)\<lparr>code_http := sample_http\<lparr>transfer := (\<lambda>_ _ _. ([(''axy'', 1, 3)], 0))\<rparr>\<rparr>,
     unix_now = 0, cookie_malloc_ok = True, junk = (\<lambda>_. 0)\<rparr>"

definition sample_context :: "string RequestContext" where
  "sample_context = \<lparr>ctx_request_method = ''GET'', ctx_request_uri = ''/auth/microsoft'', ctx_script_name = ''/auth/'',
     ctx_path_info = ''microsoft'', ctx_document_root = ''/'', ctx_base_loc = [], ctx_query_string = Some ''q'',
     ctx_request_id = None, ctx_cookie = None, ctx_cookies = Some [(''other'', ''1''), (''auth'', ''axz'')],
     ctx_authorisation = None, ctx_qs = Some ''q'', ctx_parsed_path = \<lparr>storage = [], ranges = []\<rparr>\<rparr>"

definition sample_store :: "string JWKSStore" where
  "sample_store = \<lparr>src_url = ''https://login.microsoftonline.com/common/discovery/v2.0/keys'',
     backing_file = ''./conf/microsoft.jwks.json'', last_fetch_time = nanoseconds, verifiers = [''a'' \<mapsto> ''xy'']\<rparr>"

abbreviation sample_start :: "string app_state" where
  "sample_start \<equiv> initial_state [''microsoft'' \<mapsto> sample_store] empty_world"

lemma sample_startup: "auth_startup toy_jwt sample_reply toy_files = Inr [''microsoft'' \<mapsto> sample_store]"
  using toy_key_entry
  by (auto simp: auth_startup_def get_or_create_store_def Let_def fetch_jwks_json_def toy_files_def new_store_def sample_store_def
      add_jwks_verifiers_from_string_def keys_of_document_def toy_document_def sample_reply_def add_key_eq try_emplace_def)

lemma sample_laws:
  "dynstring_laws (dyn sample_service)" "encoder_laws (dyn sample_service) (\<lambda>s. s) (filter (\<lambda>c. c \<noteq> LF))"
  by (simp_all add: sample_service_def sample_form_env_def list_dynstring_def)

lemma sample_argument:
  "argument sample_service ctx ''error'' = None" "argument sample_service ctx ''code'' = Some ''c1''"
  "argument sample_service ctx ''state'' = Some sample_state" "argument sample_service ctx ''token'' = Some ''axy''"
  by (simp_all add: sample_service_def sample_args_def)

lemma sample_parts:
  "jwt_lib sample_service = toy_jwt" "parse_json sample_service = sample_reply" "serialize_json sample_service = (\<lambda>_. [])"
  "keys_env sample_moment = toy_env" "secret sample_service = ''secret''" "timefn_format sample_service t = ''2024''"
  "config sample_service = sample_oauth" "dyn sample_service = list_dynstring" "authorisation_hook sample_service = None"
  "key_stores sample_start = [''microsoft'' \<mapsto> sample_store]" "code_cache sample_start = Map.empty"
  by (simp_all add: sample_service_def sample_moment_def sample_oauth_def initial_state_def sample_form_env_def)

lemma sample_token_check:
  "token_check sample_service sample_moment ''axy'' (key_stores sample_start) =
     (Inr 0, [''microsoft'' \<mapsto> sample_store], [])"
proof -
  have "jwtinterface_getusercontext toy_jwt (\<lambda>_. []) ''axy'' \<noteq> Inr None"
    "\<exists>r. jwtinterface_getusercontext toy_jwt (\<lambda>_. []) ''axy'' = Inr r"
    by (simp_all add: user_context_payload [where jwt = "''axy''"] toy_jwt_def payload_user_def claim_text_def)
  then show ?thesis
    unfolding sample_parts
    by (auto simp: verify_jwks_authentication_jwt_def read_token_claims_def toy_jwt_def verify_jwt_def sample_store_def
        find_store_def find_verifier_def finish_verification_def split: option.split)
qed

lemma sample_token_refused:
  "token_check sample_service sample_moment ''axz'' (key_stores sample_start) =
     (Inr 2, [''microsoft'' \<mapsto> sample_store], [])"
  unfolding sample_parts
  by (auto simp: verify_jwks_authentication_jwt_def read_token_claims_def toy_jwt_def verify_jwt_def sample_store_def
      find_store_def find_verifier_def std_exception_def)

lemma sample_tokens:
  "\<exists>cache. code_tokens sample_service sample_moment ''c1'' (code_cache sample_start) = (Inr (0, Some ''axy''), cache)"
proof -
  have "exchange list_dynstring sample_oauth sample_reply (code_http (codes_env sample_moment)) ''c1'' = Inr (0, Some ''axy'')"
    by (simp add: exchange_def http_post_def sample_http_def sample_reply_def id_token_def write_callback_def sample_moment_def
        MAX_RESPONSE_SIZE_def empty_response_def list_dynstring_def list_dynstring_enc_def append_parts_def buffer_text_def Let_def
        sample_code_env_def)
  moreover have "token_strdup_ok (codes_env sample_moment)" by (simp add: sample_moment_def sample_code_env_def)
  ultimately show ?thesis unfolding sample_parts by (simp add: get_tokens_miss Let_def)
qed

lemma sample_state_login: "login_state sample_service sample_moment ''/x'' = Some sample_state"
  by (subst login_state_eq) (simp_all add: sample_laws sample_parts sample_state_def sample_moment_def sample_oauth_def)

definition sample_post :: "string FCGX_Request" where
  "sample_post = \<lparr>fcgi_params = (\<lambda>n. if n = ''REQUEST_METHOD'' then Some ''POST'' else if n = ''PATH_INFO'' then Some ''login''
     else if n \<in> {''REQUEST_URI'', ''SCRIPT_NAME'', ''DOCUMENT_ROOT''} then Some ''/'' else None), fcgi_in = []\<rparr>"

lemma request_prepared:
  assumes "{''REQUEST_METHOD'', ''REQUEST_URI'', ''SCRIPT_NAME'', ''PATH_INFO'', ''DOCUMENT_ROOT''} \<subseteq> dom (fcgi_params req)"
    and "fcgi_params req ''HTTP_COOKIE'' = None"
  obtains ctx where "fcgx_prepare_request_context svc mom req = Inr ctx" "ctx_cookies ctx = None"
  using assms by (auto simp: fcgx_prepare_request_context_def HTTPUtils_parse_cookies_def Let_def)

lemma sample_post_params:
  "fcgi_params sample_post ''REQUEST_METHOD'' = Some ''POST''" "fcgi_params sample_post ''PATH_INFO'' = Some ''login''"
  "fcgi_params sample_post ''CONTENT_TYPE'' = None" "fcgi_params sample_post ''HTTP_COOKIE'' = None"
  "{''REQUEST_METHOD'', ''REQUEST_URI'', ''SCRIPT_NAME'', ''PATH_INFO'', ''DOCUMENT_ROOT''} \<subseteq> dom (fcgi_params sample_post)"
  by (auto simp: sample_post_def)

definition sample_login_form :: "string querystring_ops" where
  "sample_login_form = \<lparr>querystring_decode_inplace = (\<lambda>s. s),
     querystring_getbykey = (\<lambda>q key. if key = ''provider'' then Some ''microsoft'' else if key = ''redirect_to'' then Some ''/abc/''
       else None)\<rparr>"

abbreviation login_service ::
  "(string, string, string, string option, (string \<times> nat) list, string, string, unit) service" where
  "login_service \<equiv> sample_service\<lparr>forms := sample_form_env\<lparr>form_query := sample_login_form\<rparr>\<rparr>"

definition sample_login :: "string FCGX_Request" where
  "sample_login = \<lparr>fcgi_params = (\<lambda>n. if n = ''REQUEST_METHOD'' then Some ''POST''
     else if n = ''CONTENT_TYPE'' then Some ''application/x-www-form-urlencoded'' else None), fcgi_in = ''body''\<rparr>"

lemma sample_login_decoded:
  "\<exists>ctx. formdecoder_decodefcgirequest (forms login_service) (form_request_of (fcgi_params sample_login) (fcgi_in sample_login))
      (1024 * 1024) None (form_world sample_start) = Some (0, Some ctx, [], empty_world, None) \<and>
    form_type ctx = FORMDECODER_QUERYSTRING \<and> form_fields ctx = []"
proof -
  have "read_body list_getstr 1048576 ''body'' [] = Some (Some ''body'', [])"
    by (subst read_body.simps) (simp add: list_getstr_def)
  then have r: "read_body list_getstr 1048576 [] ''body'' = Some (Some ''body'', [])"
    by (subst read_body.simps) (simp add: list_getstr_def)
  show ?thesis
    using r
    by (simp add: formdecoder_decodefcgirequest_def form_request_of_def sample_login_def strncmp0_def sample_form_env_def
        formdecoder_decodefcgirequest_urlencoded_def formdecoder_init_def list_simplemap_def sample_login_form_def
        initial_state_def)
qed

subsection \<open>Properties\<close>

text \<open>
  C2. A browser gets the \<^verbatim>\<open>auth\<close> cookie from the answer to a login code only for a trusted
  token: after start-up and any requests, a redirecting page of \<^verbatim>\<open>process_code_response\<close> carries a token
  that the verifier of a complete JWK accepts now and that names a user; the request's state string verifies under
  the client secret, and the redirection goes to the text that string signs, cut at a dot.
\<close>

theorem cookie_only_for_trusted_token:
  assumes "auth_startup (jwt_lib svc) (parse_json svc) env0 = Inr stores0" "serving svc (initial_state stores0 w) st"
    and "dynstring_laws (dyn svc)" "encoder_laws (dyn svc) html url"
    and "process_code_response svc mom ctx st = (r, out, st')" "Put page \<in> set out" "prefix ''Status: 302'' page"
  shows "\<exists>tk redirect_url qs_state rest.
    page = html_lines [''Status: 302'', ''Set-Cookie: auth='' @ tk @ ''; Path=/; Secure; HttpOnly; SameSite=Lax'',
       ''Content-Type: text/html; charset=utf-8'', ''Location: '' @ redirect_url, []] @ rest \<and>
    argument svc ctx ''state'' = Some qs_state \<and> state_check svc mom qs_state = 0 \<and>
    (redirect_url = [] \<or> (\<exists>sg. qs_state = redirect_url @ CHR ''.'' # sg)) \<and>
    trusted_token (jwt_lib svc) (later_now (keys_env mom)) tk"
proof -
  from code_response_out [OF assms(5,6)] obtain tok content d where
    p: "code_page svc mom ctx tok content st = (Inr d, st')" "page = ds_bytes (dyn svc) d" by blast
  with assms(7) have pre: "prefix ''Status: 302'' (ds_bytes (dyn svc) d)" by simp
  from code_page_redirect [OF p(1) assms(3,4) pre] obtain qs_code qs_state shown redirect_url where
    s: "argument svc ctx ''state'' = Some qs_state" "state_check svc mom qs_state = 0"
      "redirect_url = [] \<or> (\<exists>rest. qs_state = redirect_url @ CHR ''.'' # rest)"
    and a: "code_answer svc mom qs_code shown redirect_url st = (Inr d, st')" by metis
  from code_answer_redirect [OF a assms(3) pre] obtain tk stores saved where
    t: "token_check svc mom tk (key_stores st) = (Inr 0, stores, saved)" "d = code_accepted_page (dyn svc) tk redirect_url shown"
    by blast
  have "trusted_token (jwt_lib svc) (later_now (keys_env mom)) tk"
    using token_check_trusted [OF assms(1,2) t(1)] unfolding trusted_token_def by blast
  moreover obtain rest where "page = html_lines [''Status: 302'', ''Set-Cookie: auth='' @ tk @ ''; Path=/; Secure; HttpOnly; SameSite=Lax'',
       ''Content-Type: text/html; charset=utf-8'', ''Location: '' @ redirect_url, []] @ rest"
    using accepted_page_bytes [OF assms(3)] p(2) t(2) by metis
  ultimately show ?thesis using s by blast
qed

theorem cookie_only_for_trusted_token_witness:
  "\<exists>tk. trusted_token toy_jwt (later_now toy_env) tk"
proof -
  let ?ctx = "sample_context\<lparr>ctx_cookies := None\<rparr>" and ?page = "code_accepted_page (dyn sample_service) ''axy'' ''/x'' ''/x''"
  obtain cache where c: "code_tokens sample_service sample_moment ''c1'' (code_cache sample_start) = (Inr (0, Some ''axy''), cache)"
    using sample_tokens by blast
  note f = login_state_facts [OF sample_laws(1) _ _ _ sample_state_login]
  have "state_check sample_service sample_moment sample_state = 0" by (rule f(1)) (simp_all add: sample_parts)
  moreover have "\<exists>sg. truncate_at_second_last_dot (Some sample_state) = (Some ''/x'', Some sg)"
    by (rule f(2)) (simp_all add: sample_parts)
  moreover have "HTTPUtils_get_cookie (ctx_cookies ?ctx) ''auth'' 0 = None" by (simp add: HTTPUtils_get_cookie_def)
  ultimately obtain st where p: "process_code_response sample_service sample_moment ?ctx sample_start =
      (Inr 0, [Put (ds_bytes (dyn sample_service) ?page), Flush, Close, Finish], st)"
    using code_response_accepted [where ctx = ?ctx, OF sample_argument(1-3) _ _ _ c sample_token_check] by blast
  have st: "auth_startup (jwt_lib sample_service) (parse_json sample_service) toy_files = Inr [''microsoft'' \<mapsto> sample_store]"
    unfolding sample_parts by (rule sample_startup)
  have "prefix ''Status: 302'' (ds_bytes (dyn sample_service) ?page)"
    using accepted_page_bytes [OF sample_laws(1), of "''axy''" "''/x''" "''/x''"] by auto
  then show ?thesis
    using cookie_only_for_trusted_token [OF st serving.started sample_laws p, of "ds_bytes (dyn sample_service) ?page"]
    unfolding sample_parts by auto
qed

text \<open>
  A login ends where it began: the state string made for a target, brought back by the browser with
  a code that is exchanged for a verified token, makes \<^verbatim>\<open>process_code_response\<close> set the cookie and redirect to
  that target, for every target and every content of uninitialised memory.
\<close>

theorem login_round_trip:
  assumes "dynstring_laws (dyn svc)" "NUL \<notin> set send_to" "NUL \<notin> set (timefn_format svc (unix_now mom0))"
    and "CHR ''.'' \<notin> set (timefn_format svc (unix_now mom0))"
    and "login_state svc mom0 send_to = argument svc ctx ''state''"
    and "argument svc ctx ''error'' = None" "argument svc ctx ''code'' = Some qs_code"
    and "HTTPUtils_get_cookie (ctx_cookies ctx) ''auth'' 0 = None"
    and "code_tokens svc mom qs_code (code_cache st) = (Inr (0, Some tk), cache)"
    and "token_check svc mom tk (key_stores st) = (Inr 0, stores, saved)"
  shows "\<exists>rest. process_code_response svc mom ctx st = (Inr 0, [Put
      (html_lines [''Status: 302'', ''Set-Cookie: auth='' @ tk @ ''; Path=/; Secure; HttpOnly; SameSite=Lax'',
         ''Content-Type: text/html; charset=utf-8'', ''Location: '' @ send_to, []] @ rest), Flush, Close, Finish],
    set_stores stores saved (st\<lparr>code_cache := cache\<rparr>))"
proof -
  obtain s where s: "login_state svc mom0 send_to = Some s" "argument svc ctx ''state'' = Some s"
    using login_state_eq [OF assms(1-3)] assms(5) by simp
  note f = login_state_facts [OF assms(1-4) s(1)]
  obtain sig where t: "truncate_at_second_last_dot (Some s) = (Some send_to, Some sig)" using f(2) by blast
  have "process_code_response svc mom ctx st =
      (Inr 0, [Put (ds_bytes (dyn svc) (code_accepted_page (dyn svc) tk send_to send_to)), Flush, Close, Finish],
       set_stores stores saved (st\<lparr>code_cache := cache\<rparr>))"
    by (rule code_response_accepted [OF assms(6,7) s(2) f(1) t assms(8-10)])
  with accepted_page_bytes [OF assms(1), of tk send_to send_to] show ?thesis by metis
qed

theorem login_round_trip_witness:
  "\<exists>rest st. process_code_response sample_service sample_moment (sample_context\<lparr>ctx_cookies := None\<rparr>) sample_start =
    (Inr 0, [Put
      (html_lines [''Status: 302'', ''Set-Cookie: auth=axy; Path=/; Secure; HttpOnly; SameSite=Lax'',
         ''Content-Type: text/html; charset=utf-8'', ''Location: /x'', []] @ rest), Flush, Close, Finish], st)"
proof -
  obtain cache where c: "code_tokens sample_service sample_moment ''c1'' (code_cache sample_start) = (Inr (0, Some ''axy''), cache)"
    using sample_tokens by blast
  have "\<exists>rest. process_code_response sample_service sample_moment (sample_context\<lparr>ctx_cookies := None\<rparr>) sample_start =
    (Inr 0, [Put
      (html_lines [''Status: 302'', ''Set-Cookie: auth='' @ ''axy'' @ ''; Path=/; Secure; HttpOnly; SameSite=Lax'',
         ''Content-Type: text/html; charset=utf-8'', ''Location: '' @ ''/x'', []] @ rest), Flush, Close, Finish],
     set_stores [''microsoft'' \<mapsto> sample_store] [] (sample_start\<lparr>code_cache := cache\<rparr>))"
    by (rule login_round_trip [where ?mom0.0 = sample_moment, OF sample_laws(1) _ _ _ _ sample_argument(1,2) _ c sample_token_check])
      (simp_all add: sample_parts sample_state_login sample_argument(3) HTTPUtils_get_cookie_def)
  then show ?thesis by auto
qed

text \<open>
  C12. A posted login form that decodes, and whose fields \<^verbatim>\<open>provider\<close> and \<^verbatim>\<open>redirect_to\<close> can be asked for, is
  answered by one page: for the provider \<^verbatim>\<open>microsoft\<close> a redirection to the provider whose \<^verbatim>\<open>state\<close> is the encoded
  state string of \<^verbatim>\<open>redirect_to\<close>, which is the slash when it is missing or of at most four characters, and otherwise
  a 400 page. The fields of the form are freed and the request is finished.
\<close>

theorem login_post_answer:
  assumes "dynstring_laws (dyn svc)" "encoder_laws (dyn svc) html url"
    and "NUL \<notin> set (login_send_to r)" "NUL \<notin> set (timefn_format svc (unix_now mom))"
    and "formdecoder_decodefcgirequest (forms svc) (form_request_of (fcgi_params req) (fcgi_in req)) (1024 * 1024) None
      (form_world st) = Some (0, Some ctx, inp, w, ei)"
    and "formdecoder_getfield (form_map (forms svc)) (query svc) ctx ''provider'' w = Some p"
    and "formdecoder_getfield (form_map (forms svc)) (query svc) ctx ''redirect_to'' w = Some r"
    and "formdecoder_dispose (form_map (forms svc)) (Some ctx) w = Some w'"
  shows "\<exists>page. process_login_page_post svc mom req st = (Inr 0, [Put page, Finish], st\<lparr>form_world := w'\<rparr>) \<and>
    (if is_microsoft p
     then \<exists>s. login_state svc mom (login_send_to r) = Some s \<and>
       prefix (html_lines [''Status: 302'', ''Content-Type: text/html; charset=utf-8'', ''Location: '' @
         cstr (''https://login.microsoftonline.com/common/oauth2/v2.0/authorize?client_id='' @
           OAUTH2_DEFAULT_CLIENT_ID (config svc) @ ''&response_type=code&scope=openid%20profile%20email&redirect_uri='' @
           OAUTH2_DEFAULT_REDIRECT_URI (config svc) @ ''&state='' @ url s @ ''&prompt=select_account''), []]) page
     else prefix (html_lines [''Status: 400 Bad Request'']) page)"
proof (cases "is_microsoft p")
  case False
  then have "process_login_page_post svc mom req st = (Inr 0, [Put login_bad_request, Finish], st\<lparr>form_world := w'\<rparr>)"
    using assms(5-8) by (simp add: process_login_page_post_def Let_def)
  then show ?thesis using False by (simp add: login_bad_request_def)
next
  case True
  then show ?thesis using login_post_redirects [OF assms True] by auto
qed

theorem login_post_answer_witness:
  "\<exists>page st. process_login_page_post login_service sample_moment sample_login sample_start = (Inr 0, [Put page, Finish], st) \<and>
    prefix (html_lines [''Status: 302'', ''Content-Type: text/html; charset=utf-8'']) page"
proof -
  have laws: "dynstring_laws (dyn login_service)" "encoder_laws (dyn login_service) (\<lambda>s. s) (filter (\<lambda>c. c \<noteq> LF))"
    by (simp_all add: sample_form_env_def list_dynstring_def)
  have t: "timefn_format login_service (unix_now sample_moment) = ''2024''" by (simp add: sample_service_def)
  obtain ctx where d: "formdecoder_decodefcgirequest (forms login_service)
      (form_request_of (fcgi_params sample_login) (fcgi_in sample_login)) (1024 * 1024) None (form_world sample_start) =
      Some (0, Some ctx, [], empty_world, None)" and c: "form_type ctx = FORMDECODER_QUERYSTRING" "form_fields ctx = []"
    using sample_login_decoded by blast
  have f: "formdecoder_getfield (form_map (forms login_service)) (query login_service) ctx ''provider'' empty_world =
      Some (0, Some (9, Some ''microsoft''))"
    "formdecoder_getfield (form_map (forms login_service)) (query login_service) ctx ''redirect_to'' empty_world =
      Some (0, Some (5, Some ''/abc/''))"
    using c by (simp_all add: formdecoder_getfield_def sample_login_form_def)
  have w: "formdecoder_dispose (form_map (forms login_service)) (Some ctx) empty_world = Some empty_world"
    using c by (simp add: formdecoder_dispose_def sample_form_env_def list_simplemap_def)
  have m: "is_microsoft (0, Some (9, Some ''microsoft''))" by (simp add: is_microsoft_def)
  have "NUL \<notin> set (login_send_to (0, Some (5, Some ''/abc/'')))" "NUL \<notin> set (timefn_format login_service (unix_now sample_moment))"
    unfolding t by (simp_all add: login_send_to_def)
  note a = login_post_answer [OF laws this d f w, unfolded if_P [OF m]]
  have "prefix (html_lines [''Status: 302'', ''Content-Type: text/html; charset=utf-8''])
      (html_lines [''Status: 302'', ''Content-Type: text/html; charset=utf-8'', loc, []])" for loc by simp
  from prefix_order.trans [OF this] a show ?thesis by (elim exE conjE) (intro exI conjI, assumption, blast)
qed

text \<open>
  Every request is answered and finished: when the router returns, it returns 0 and its last call, and
  no earlier one, is \<^verbatim>\<open>FCGX_Finish_r\<close>; the only exception is a posted login form that cannot be decoded, for
  which nothing is sent at all.
\<close>

theorem requests_are_finished:
  assumes "appauth_process_request svc mom req st = (Inr rc, out, st')"
  shows "rc = 0 \<and> ((\<exists>calls. out = calls @ [Finish] \<and> Finish \<notin> set calls) \<or>
    (out = [] \<and> fcgi_params req ''REQUEST_METHOD'' = Some ''POST'' \<and> fcgi_params req ''PATH_INFO'' = Some ''login'' \<and>
     (\<exists>res fc rest. formdecoder_decodefcgirequest (forms svc) (form_request_of (fcgi_params req) (fcgi_in req))
        (1024 * 1024) None (form_world st) = Some (res, fc, rest) \<and> (res \<noteq> 0 \<or> fc = None))))"
  using assms
proof (cases rule: request_handled)
  case (login_post r0)
  then obtain m where "r0 = Inr m" "rc = 0" by (cases r0) auto
  with login_post post_out [of svc mom req st m out st'] show ?thesis by auto
next
  case (handled h)
  then show ?thesis using handler.routed_finishes [OF handled] answered_calls by auto
qed simp

theorem requests_are_finished_witness:
  "\<exists>res fc rest. formdecoder_decodefcgirequest (forms sample_service)
      (form_request_of (fcgi_params sample_post) (fcgi_in sample_post)) (1024 * 1024) None (form_world sample_start) =
      Some (res, fc, rest) \<and> (res \<noteq> 0 \<or> fc = None)"
proof -
  obtain ctx where "fcgx_prepare_request_context sample_service sample_moment sample_post = Inr ctx"
    by (rule request_prepared [OF sample_post_params(5,4)])
  then have "appauth_process_request sample_service sample_moment sample_post sample_start = (Inr 0, [], sample_start)"
    using sample_post_params(1-3)
    by (simp add: appauth_process_request_def process_login_page_post_def formdecoder_decodefcgirequest_def
        form_request_of_def routed_def)
  from requests_are_finished [OF this] show ?thesis by simp
qed

text \<open>
  The exception happens: a POST to \<^verbatim>\<open>login\<close> without a content type makes the router return 0 without
  a call on the output stream, although the loop in \<^verbatim>\<open>main\<close> then reinitialises the request.
\<close>

theorem undecoded_post_unanswered:
  assumes "fcgi_params req ''REQUEST_METHOD'' = Some ''POST''" "fcgi_params req ''PATH_INFO'' = Some ''login''"
    and "fcgx_prepare_request_context svc mom req = Inr ctx" "fcgi_params req ''CONTENT_TYPE'' = None"
  shows "appauth_process_request svc mom req st = (Inr 0, [], st)"
  using assms
  by (simp add: appauth_process_request_def process_login_page_post_def formdecoder_decodefcgirequest_def
      form_request_of_def routed_def)

theorem undecoded_post_unanswered_witness:
  "appauth_process_request sample_service sample_moment sample_post sample_start = (Inr 0, [], sample_start)"
  by (rule request_prepared [OF sample_post_params(5,4)])
    (rule undecoded_post_unanswered [OF sample_post_params(1,2) _ sample_post_params(3)])

text \<open>
  \<^verbatim>\<open>process_direct_token_auth_request\<close> accepts a token, with a 200 page that sets the cookie, exactly
  when the query string has one and \<^verbatim>\<open>verify_jwks_authentication_jwt\<close> returns 0 for it.
\<close>

theorem direct_cookie_iff:
  assumes "process_direct_token_auth_request svc mom ctx st = (Inr rc, Put page # out, st')"
  shows "prefix ''Status: 200'' page \<longleftrightarrow>
    (\<exists>tk stores saved. argument svc ctx ''token'' = Some tk \<and> token_check svc mom tk (key_stores st) = (Inr 0, stores, saved))"
  using assms
  by (auto simp: process_direct_token_auth_request_def Let_def direct_missing_def direct_refused_def direct_accepted_def
      split: option.splits prod.splits sum.splits if_splits)

theorem direct_cookie_iff_witness:
  "\<exists>page out st. process_direct_token_auth_request sample_service sample_moment sample_context sample_start =
      (Inr 0, Put page # out, st) \<and> prefix ''Status: 200'' page"
proof -
  have "\<exists>page out st. process_direct_token_auth_request sample_service sample_moment sample_context sample_start =
      (Inr 0, Put page # out, st)"
    using sample_token_check sample_argument(4) by (simp add: process_direct_token_auth_request_def Let_def)
  then obtain page out st where "process_direct_token_auth_request sample_service sample_moment sample_context sample_start =
      (Inr 0, Put page # out, st)" by blast
  with direct_cookie_iff [OF this] sample_token_check sample_argument(4) show ?thesis by blast
qed

text \<open>
  C26. \<^verbatim>\<open>process_verification_request\<close> answers 200 for every token in the cookie that decodes and names a
  user, whatever the code of its verification, when the site defines no further check.
\<close>

theorem verification_ignores_result:
  assumes "authorisation_hook svc = None" "HTTPUtils_get_cookie (ctx_cookies ctx) ''auth'' 0 = Some tk"
    and "token_check svc mom tk (key_stores st) = (Inr n, stores, saved)" "tk \<noteq> []"
    and "jwt_decode (jwt_lib svc) tk = Inr jwt" "payload_user (get_payload_json (jwt_lib svc) jwt) = Some user"
  shows "process_verification_request svc mom ctx st =
    (Inr 0, [Put verification_ok, Flush, Close, Finish], set_stores stores saved st)"
  using assms
  by (auto simp: process_verification_request_def application_verify_jwt_authentication_def user_with_result_def
      user_context_payload split: option.splits)

theorem verification_ignores_result_witness:
  "token_check sample_service sample_moment ''axz'' (key_stores sample_start) = (Inr 2, [''microsoft'' \<mapsto> sample_store], []) \<and>
   process_verification_request sample_service sample_moment sample_context sample_start =
     (Inr 0, [Put verification_ok, Flush, Close, Finish], set_stores [''microsoft'' \<mapsto> sample_store] [] sample_start)"
proof -
  have "payload_user (get_payload_json (jwt_lib sample_service) ''axz'') = Some (''axz'', ''axz'')"
    "jwt_decode (jwt_lib sample_service) ''axz'' = Inr ''axz''"
    by (simp_all add: sample_parts toy_jwt_def payload_user_def claim_text_def)
  moreover have "HTTPUtils_get_cookie (ctx_cookies sample_context) ''auth'' 0 = Some ''axz''"
    by (simp add: sample_context_def get_cookie_eq)
  ultimately show ?thesis
    using verification_ignores_result [OF sample_parts(9) _ sample_token_refused] sample_token_refused by simp
qed

text \<open>
  C25. The login page redirects only within the site: whatever the query string, the target is a slash that
  no second slash follows, and it comes from a \<^verbatim>\<open>return\<close> argument. A verified user is redirected and then gets
  the login page as well; everybody else gets the login page alone.
\<close>

theorem login_get_stays_local:
  assumes "process_login_page_get svc mom req query_string st = (Inr rc, out, st')"
  shows "\<exists>path. (path = [] \<or> hd path \<noteq> CHR ''/'') \<and> (path = [] \<or> query_string = Some (''return=/'' @ path)) \<and>
    out = (if \<exists>stores saved. (fcgi_params req ''HTTP_COOKIE'' \<noteq> None \<or> fcgi_params req ''HTTP_AUTHORIZATION'' \<noteq> None) \<and>
                verify_jwks_authentication (jwt_lib svc) (serialize_json svc) (parse_json svc) (keys_env mom) (cookie_malloc_ok mom)
                  (map_option (\<lambda>s. s @ [NUL]) (fcgi_params req ''HTTP_COOKIE'')) (fcgi_params req ''HTTP_AUTHORIZATION'')
                  (key_stores st) = Some (Inr 0, stores, saved)
           then [Put (login_follow (''/'' @ path))] else []) @
      [Put (ds_bytes (dyn svc) (login_form svc (''/'' @ path))), Close, Finish]"
  using assms by (rule login_get_answer)

theorem login_get_stays_local_witness:
  "\<exists>path out st. process_login_page_get sample_service sample_moment sample_post (Some ''return=//evil'') sample_start =
      (Inr 0, out, st) \<and> out = [Put (ds_bytes (dyn sample_service) (login_form sample_service (''/'' @ path))), Close, Finish] \<and>
    (path = [] \<or> hd path \<noteq> CHR ''/'')"
proof -
  have none: "fcgi_params sample_post ''HTTP_COOKIE'' = None" "fcgi_params sample_post ''HTTP_AUTHORIZATION'' = None"
    by (simp_all add: sample_post_def)
  then obtain out st where p: "process_login_page_get sample_service sample_moment sample_post (Some ''return=//evil'') sample_start =
      (Inr 0, out, st)" by (simp add: process_login_page_get_def Let_def)
  from login_get_stays_local [OF this] none show ?thesis unfolding p by auto
qed

text \<open>
  C31. Logging out expires every cookie of the request: the header has, in order, one \<^verbatim>\<open>Set-Cookie\<close> line per
  cookie with an empty value and a lifetime of zero, and no request can fail to be answered.
\<close>

theorem logout_expires_cookies:
  assumes "dynstring_laws (dyn svc)" "encoder_laws (dyn svc) html url"
  shows "\<exists>page. process_logout_request svc ctx st =
    (Inr 0, [Put (html_lines [''Status: 200''] @
       concat (map (\<lambda>(name, _). ''Set-Cookie: '' @ html name @ ''=; Path=/; Max-Age=0; Expires=Thu, 01 Jan 1970 00:00:00 GMT; '' @
         (if name = ''auth'' then ''Secure; HttpOnly; SameSite=Lax'' else []) @ crlf) (case ctx_cookies ctx of None \<Rightarrow> [] | Some cs \<Rightarrow> cs)) @
       html_lines [''Cache-Control: no-cache'', ''Content-Type: text/html; charset=utf-8'', []]), Put page, Close, Finish], st)"
proof -
  let ?line = "\<lambda>(name, _). ''Set-Cookie: '' @ html name @ ''=; Path=/; Max-Age=0; Expires=Thu, 01 Jan 1970 00:00:00 GMT; '' @
         (if name = ''auth'' then ''Secure; HttpOnly; SameSite=Lax'' else []) @ crlf"
  have "ds_bytes (dyn svc) (logout_cookie (dyn svc) name d) = ds_bytes (dyn svc) d @ ?line (name, v)" for name d and v :: string
    using assms by (simp add: logout_cookie_def Let_def encoder_lawsD)
  then have "ds_bytes (dyn svc) (fold (\<lambda>(name, _). logout_cookie (dyn svc) name) cs d) =
      ds_bytes (dyn svc) d @ concat (map ?line cs)" for cs :: "(string \<times> string) list" and d
    by (induction cs arbitrary: d) auto
  then show ?thesis using assms
    by (simp add: process_logout_request_def logout_header_def Let_def split: option.split)
qed

theorem logout_expires_cookies_witness:
  "\<exists>page. process_logout_request sample_service sample_context sample_start =
    (Inr 0, [Put (html_lines [''Status: 200'',
         ''Set-Cookie: other=; Path=/; Max-Age=0; Expires=Thu, 01 Jan 1970 00:00:00 GMT; '',
         ''Set-Cookie: auth=; Path=/; Max-Age=0; Expires=Thu, 01 Jan 1970 00:00:00 GMT; Secure; HttpOnly; SameSite=Lax'',
         ''Cache-Control: no-cache'', ''Content-Type: text/html; charset=utf-8'', []]),
       Put page, Close, Finish], sample_start)"
  using logout_expires_cookies [OF sample_laws, of sample_context sample_start]
  by (simp add: sample_context_def)

end
