(* ===== verification/Appauth_headers.thy ===== *)
theory Appauth_headers
  imports Appauth_safety
begin

section \<open>What a browser reads of an answer\<close>

text \<open>
  A request is answered by the bytes of all the calls on the output stream together. Their header is read the
  way a web server does: the lines up to the first empty one, each ended by a line feed or a
  carriage return and a line feed. For every page of every handler the lemmas here give that header.
\<close>

subsection \<open>Header lines\<close>

definition response :: "fcgi_event list \<Rightarrow> string" where
  "response out = concat (map (\<lambda>e. case e of Put s \<Rightarrow> s | _ \<Rightarrow> []) out)"

fun text_lines :: "string \<Rightarrow> string list" where
  "text_lines [] = [[]]"
| "text_lines (c # s) =
     (if c = LF then [] # text_lines s
      else case text_lines s of [] \<Rightarrow> [[c]] | l # ls \<Rightarrow> (c # l) # ls)"

definition strip_cr :: "string \<Rightarrow> string" where
  "strip_cr l = (if l \<noteq> [] \<and> last l = CHR 0x0D then butlast l else l)"

definition header_lines :: "string \<Rightarrow> string list" where
  "header_lines s = takeWhile (\<lambda>l. l \<noteq> []) (map strip_cr (text_lines s))"

text \<open>The name of a header field, which has no case.\<close>

definition lower :: "char \<Rightarrow> char" where
  "lower c = (if (65::nat) \<le> of_char c \<and> of_char c \<le> (90::nat) then char_of (of_char c + 32 :: nat) else c)"

definition field_name :: "string \<Rightarrow> string" where
  "field_name l = map lower (takeWhile (\<lambda>c. c \<noteq> CHR '':'') l)"

definition cookie_field :: "string \<Rightarrow> bool" where
  "cookie_field l \<longleftrightarrow> field_name l = ''set-cookie''"

text \<open>The line that gives the \<^verbatim>\<open>auth\<close> cookie to the browser, and those that take a cookie away.\<close>

definition cookie_line :: "string \<Rightarrow> string" where
  "cookie_line tk = ''Set-Cookie: auth='' @ tk @ ''; Path=/; Secure; HttpOnly; SameSite=Lax''"

definition expiring_text :: "string \<Rightarrow> string \<Rightarrow> string" where
  "expiring_text name attributes =
     ''Set-Cookie: '' @ name @ ''=; Path=/; Max-Age=0; Expires=Thu, 01 Jan 1970 00:00:00 GMT; '' @ attributes"

definition expiring_line :: "string \<Rightarrow> bool" where
  "expiring_line l \<longleftrightarrow>
     (\<exists>name attributes. EQ \<notin> set name \<and> attributes \<in> {[], ''Secure; HttpOnly; SameSite=Lax''} \<and> l = expiring_text name attributes)"

subsection \<open>Reading lines that were written\<close>

lemma text_lines_ends: "LF \<notin> set l \<Longrightarrow> text_lines (l @ LF # s) = l # text_lines s"
  by (induction l) auto

lemma strip_cr_end [simp]: "strip_cr (l @ [CHR 0x0D]) = l"
  by (simp add: strip_cr_def)

lemma header_lines_Cons: "LF \<notin> set l \<Longrightarrow> header_lines (l @ crlf @ s) = (if l = [] then [] else l # header_lines s)"
  using text_lines_ends [of "l @ [CHR 0x0D]" s] strip_cr_end [of l] by (simp add: header_lines_def crlf_def)

lemma header_lines_Nil [simp]: "header_lines [] = []"
  by (simp add: header_lines_def strip_cr_def)

text \<open>A page whose header is the given lines.\<close>

definition header_is :: "string list \<Rightarrow> string \<Rightarrow> bool" where
  "header_is hs page \<longleftrightarrow> prefix (html_lines (hs @ [[]])) page"

lemma header_is_lines:
  assumes "header_is hs page" "\<forall>h \<in> set hs. h \<noteq> [] \<and> LF \<notin> set h"
  shows "header_lines (page @ s) = hs"
proof -
  have "header_lines (html_lines (hs @ [[]]) @ t) = hs" for t
    using assms(2) by (induction hs) (simp_all add: header_lines_Cons header_lines_Cons [of "[]", simplified])
  with assms(1) show ?thesis by (auto simp: header_is_def prefix_def)
qed

lemma response_simps [simp]:
  "response [] = []" "response (Put s # out) = s @ response out" "response (Flush # out) = response out"
  "response (Close # out) = response out" "response (Finish # out) = response out"
  by (simp_all add: response_def)

lemma field_names [simp]:
  "\<not> cookie_field (''Status: '' @ s)" "\<not> cookie_field (''Location: '' @ s)"
  "\<not> cookie_field ''Content-Type: text/html; charset=utf-8''" "\<not> cookie_field ''Cache-Control: no-cache''"
  by (simp_all add: cookie_field_def field_name_def lower_def)

lemma lower_letters: "lower CHR ''S'' = CHR ''s''" "lower CHR ''C'' = CHR ''c''"
  by code_simp+

lemma cookie_line_field: "cookie_field (cookie_line tk)" "cookie_field (expiring_text name attributes)"
  by (simp_all add: cookie_field_def field_name_def lower_letters cookie_line_def expiring_text_def, simp_all add: lower_def)

lemma cookie_line_inject [simp]: "cookie_line tk = cookie_line tk' \<longleftrightarrow> tk = tk'"
  by (simp add: cookie_line_def)

lemma cookie_line_kept: "\<not> expiring_line (cookie_line tk)"
proof
  assume "expiring_line (cookie_line tk)"
  then obtain name attributes where a: "attributes \<in> {[], ''Secure; HttpOnly; SameSite=Lax''}"
    and e: "cookie_line tk = expiring_text name attributes" by (auto simp: expiring_line_def)
  from arg_cong [OF e, of rev] a show False by (auto simp: cookie_line_def expiring_text_def)
qed

subsection \<open>The pages\<close>

abbreviation html_type :: string where
  "html_type \<equiv> ''Content-Type: text/html; charset=utf-8''"

lemma fixed_page_headers:
  "header_is [line, html_type] (status_only line)"
  "header_is [''Status: 400 Bad Request'', html_type] login_bad_request"
  "header_is [''Status: 302'', ''Location: '' @ return_to, html_type] (login_follow return_to)"
  "header_is [''Status: 200'', html_type] verification_ok"
  "header_is [''Status: 401 Unauthorized'', html_type] verification_unauthorized"
  "header_is [''Status: 403 Forbidden'', html_type] verification_forbidden"
  "header_is [''Status: 401 Unauthorized'', html_type] direct_missing"
  "header_is [''Status: 401'', html_type] (direct_refused n)"
  "header_is [''Status: 200'', cookie_line tk, html_type] (direct_accepted tk qs_state)"
  "header_is [''Status: 400'', html_type] code_unverifyable"
  "header_is [''Status: 500'', html_type] code_no_token"
  "header_is [''Status: 500'', html_type] code_null_token"
  "header_is [''Status: 401'', html_type] code_unauthorized"
  by (simp_all add: header_is_def status_only_def login_bad_request_def login_follow_def verification_ok_def
      verification_unauthorized_def verification_forbidden_def direct_missing_def direct_refused_def direct_accepted_def
      code_unverifyable_def code_no_token_def code_null_token_def code_unauthorized_def page_start_def crlf_def cookie_line_def)

lemma built_page_headers:
  assumes "dynstring_laws D" "encoder_laws D html url"
  shows "header_is [''Status: 200'', html_type] (ds_bytes D (code_error_page D e d))"
    "header_is [''Status: 400'', html_type] (ds_bytes D (code_missing_page D tok content))"
    "header_is [''Status: 302'', cookie_line tk, html_type, ''Location: '' @ redirect_url]
      (ds_bytes D (code_accepted_page D tk redirect_url qs_state))"
    "header_is [''Status: 302'', html_type, ''Location: '' @ ds_getcstring D uri] (ds_bytes D (login_redirect_page D uri))"
  using assms
  by (simp_all add: header_is_def code_error_page_def code_missing_page_def code_accepted_page_def login_redirect_page_def Let_def
      encoder_lawsD page_start_def crlf_def cookie_line_def split: option.split)

lemma login_form_header:
  "dynstring_laws (dyn svc) \<Longrightarrow> header_is [''Status: 200'', html_type] (ds_bytes (dyn svc) (login_form svc return_to))"
  by (simp add: header_is_def login_form_def crlf_def)

lemma logout_cookie_bytes:
  assumes "dynstring_laws D" "encoder_laws D html url"
  shows "ds_bytes D (logout_cookie D name d) = ds_bytes D d @
    expiring_text (html name) (if name = ''auth'' then ''Secure; HttpOnly; SameSite=Lax'' else []) @ crlf"
  using assms by (simp add: logout_cookie_def Let_def encoder_lawsD expiring_text_def)

lemma logout_page_header:
  assumes "dynstring_laws D" "encoder_laws D html url"
  shows "header_is (''Status: 200'' # map (\<lambda>(name, _). expiring_text (html name)
      (if name = ''auth'' then ''Secure; HttpOnly; SameSite=Lax'' else [])) (case cookies of None \<Rightarrow> [] | Some cs \<Rightarrow> cs) @
      [''Cache-Control: no-cache'', html_type]) (ds_bytes D (logout_header D cookies))"
proof -
  have "ds_bytes D (fold (\<lambda>(name, _). logout_cookie D name) cs d) = ds_bytes D d @ html_lines (map (\<lambda>(name, _).
      expiring_text (html name) (if name = ''auth'' then ''Secure; HttpOnly; SameSite=Lax'' else [])) cs)"
    for cs :: "(string \<times> string) list" and d
    by (induction cs arbitrary: d) (auto simp: logout_cookie_bytes [OF assms])
  then show ?thesis using assms(1)
    by (simp add: header_is_def logout_header_def Let_def split: option.split)
qed

end
