(* ===== verification/Appauth_cookies.thy ===== *)
theory Appauth_cookies
  imports Appauth_headers
begin

section \<open>Who is given a cookie\<close>

text \<open>
  Every line of the header of every answer, handler by handler; from this the router as a whole sets the
  \<^verbatim>\<open>auth\<close> cookie only to trusted tokens. The one way around it is a state string with a line break in it.
\<close>

text \<open>
  What the libraries and the settings keep out of a header: the HTML encoder brings in neither an equals sign nor a
  line feed, the URL encoder leaves no line feed, the site's settings have none, and no text with one
  is a token.
\<close>

definition line_safe ::
  "('alg, 'v, 'j, 'd, 'm, 'q, 'i, 'mi) service \<Rightarrow> (string \<Rightarrow> string) \<Rightarrow> (string \<Rightarrow> string) \<Rightarrow> bool" where
  "line_safe svc html url \<longleftrightarrow>
     (\<forall>s. EQ \<in> set (html s) \<longrightarrow> EQ \<in> set s) \<and> (\<forall>s. LF \<in> set (html s) \<longrightarrow> LF \<in> set s) \<and> (\<forall>s. LF \<notin> set (url s)) \<and>
     LF \<notin> set (OAUTH2_DEFAULT_CLIENT_ID (config svc)) \<and> LF \<notin> set (OAUTH2_DEFAULT_REDIRECT_URI (config svc)) \<and>
     (\<forall>s jwt. jwt_decode (jwt_lib svc) s = Inr jwt \<longrightarrow> LF \<notin> set s)"

text \<open>The request as a web server hands it on: texts of its header have no line break.\<close>

definition header_texts :: "'i FCGX_Request \<Rightarrow> bool" where
  "header_texts req \<longleftrightarrow>
     (\<forall>s. fcgi_params req ''HTTP_COOKIE'' = Some s \<longrightarrow> NUL \<notin> set s \<and> LF \<notin> set s) \<and>
     (\<forall>s. fcgi_params req ''QUERY_STRING'' = Some s \<longrightarrow> LF \<notin> set s)"

text \<open>
  The \<^verbatim>\<open>state\<close> argument of the request has a line feed in it, once decoded, and a valid tag: the redirection
  then writes it into the header as it is.
\<close>

definition breaking_state ::
  "('alg, 'v, 'j, 'd, 'm, 'q, 'i, 'mi) service \<Rightarrow> moment \<Rightarrow> 'i FCGX_Request \<Rightarrow> bool" where
  "breaking_state svc mom req \<longleftrightarrow>
     (\<exists>s. querystring_getbykey (query svc) (querystring_decode_inplace (query svc) (fcgi_params req ''QUERY_STRING'')) ''state'' = Some s \<and>
        LF \<in> set s \<and> state_check svc mom s = 0)"

subsection \<open>Pages without a cookie\<close>

definition plain_header :: "string \<Rightarrow> bool" where
  "plain_header page \<longleftrightarrow> (\<exists>line. prefix ''Status: '' line \<and> LF \<notin> set line \<and> header_is [line, html_type] page)"

lemma plain_headerI: "header_is [line, html_type] page \<Longrightarrow> prefix ''Status: '' line \<and> LF \<notin> set line \<Longrightarrow> plain_header page"
  by (auto simp: plain_header_def)

lemma status_line_field: "prefix ''Status: '' line \<Longrightarrow> line \<noteq> [] \<and> \<not> cookie_field line"
  by (auto simp: prefix_def cookie_field_def field_name_def lower_def)

lemma plain_header_fields:
  assumes "plain_header page" "l \<in> set (header_lines (page @ s))"
  shows "\<not> cookie_field l"
proof -
  obtain t where t: "prefix ''Status: '' t" "LF \<notin> set t" "header_is [t, html_type] page" using assms(1) by (auto simp: plain_header_def)
  have "header_lines (page @ s) = [t, html_type]"
    by (rule header_is_lines [OF t(3)]) (use t(2) status_line_field [OF t(1)] in auto)
  with assms(2) show ?thesis using status_line_field [OF t(1)] field_names(3) by auto
qed

lemma plain_pages:
  "plain_header (status_only ''Status: 404'')" "plain_header (status_only ''Status: 403'')" "plain_header login_bad_request"
  "plain_header verification_ok" "plain_header verification_unauthorized" "plain_header verification_forbidden"
  "plain_header direct_missing" "plain_header (direct_refused n)"
  "plain_header code_unverifyable" "plain_header code_no_token" "plain_header code_null_token" "plain_header code_unauthorized"
  by (rule plain_headerI [OF fixed_page_headers(1)] plain_headerI [OF fixed_page_headers(2)] plain_headerI [OF fixed_page_headers(4)]
      plain_headerI [OF fixed_page_headers(5)] plain_headerI [OF fixed_page_headers(6)] plain_headerI [OF fixed_page_headers(7)]
      plain_headerI [OF fixed_page_headers(8)] plain_headerI [OF fixed_page_headers(10)] plain_headerI [OF fixed_page_headers(11)]
      plain_headerI [OF fixed_page_headers(12)] plain_headerI [OF fixed_page_headers(13)]; simp)+

lemma plain_built_pages:
  assumes "dynstring_laws D" "encoder_laws D html url"
  shows "plain_header (ds_bytes D (code_error_page D e d))" "plain_header (ds_bytes D (code_missing_page D tok content))"
  by (rule plain_headerI [OF built_page_headers(1) [OF assms]] plain_headerI [OF built_page_headers(2) [OF assms]]; simp)+

lemma plain_login_form: "dynstring_laws (dyn svc) \<Longrightarrow> plain_header (ds_bytes (dyn svc) (login_form svc return_to))"
  by (rule plain_headerI [OF login_form_header]; simp)

subsection \<open>The handlers\<close>

lemma verify_auth_zero_parts:
  assumes "verify_jwks_authentication_jwt J serialize parse env s stores = (Inr 0, stores', saved)"
  shows "\<exists>jwt. read_token_claims J s = Inr jwt \<and> verify_jwt J parse env ''microsoft'' s stores = (Inr True, stores', saved) \<and>
    finish_verification J serialize s jwt = Inr 0"
proof (cases rule: verify_auth_cases [where J = J and s = s and parse = parse and env = env and stores = stores])
  case (unreadable e)
  then show ?thesis using assms catch_auth_Inl_not_zero [of e] by (simp add: verify_auth_unreadable)
next
  case (read jwt r st sv)
  note z = assms [unfolded verify_auth_read [OF read] prod.inject]
  show ?thesis
  proof (cases r)
    case (Inl e)
    then show ?thesis using z catch_auth_Inl_not_zero [of e] by simp
  next
    case (Inr b)
    then show ?thesis using z read by (cases b) (auto simp: catch_auth_zero)
  qed
qed

lemma checked_token_line:
  assumes "token_check svc mom tk stores = (Inr 0, stores', saved)" "line_safe svc html url"
  shows "LF \<notin> set tk"
  using verify_auth_zero_parts [OF assms(1)] read_claims_decode assms(2) unfolding line_safe_def by metis

text \<open>The answer to a code is without a cookie, or gives it to a checked token.\<close>

lemma code_page_header:
  assumes "code_page svc mom ctx tok content st = (Inr d, st')" "dynstring_laws (dyn svc)" "encoder_laws (dyn svc) html url"
  obtains (plain) "plain_header (ds_bytes (dyn svc) d)"
  | (accepted) tk redirect_url qs_state stores saved where
      "header_is [''Status: 302'', cookie_line tk, html_type, ''Location: '' @ redirect_url] (ds_bytes (dyn svc) d)"
      "token_check svc mom tk (key_stores st) = (Inr 0, stores, saved)" "key_stores st' = stores"
      "argument svc ctx ''state'' = Some qs_state" "state_check svc mom qs_state = 0" "set redirect_url \<subseteq> set qs_state"
proof -
  note pages = plain_pages plain_built_pages [OF assms(2,3)] plain_page_bytes [OF assms(2)] built_page_headers(3) [OF assms(2,3)]
  have answer: "plain_header (ds_bytes (dyn svc) d) \<or> (\<exists>tk stores saved.
      header_is [''Status: 302'', cookie_line tk, html_type, ''Location: '' @ u] (ds_bytes (dyn svc) d) \<and>
      token_check svc mom tk (key_stores st) = (Inr 0, stores, saved) \<and> key_stores st' = stores)"
    if "code_answer svc mom c s u st = (Inr d, st')" for c s u
    using that pages by (auto simp: code_answer_def Let_def split: prod.splits sum.splits option.splits if_splits)
  show thesis
  proof (cases "argument svc ctx ''error'' = None \<and> (\<exists>c s. argument svc ctx ''code'' = Some c \<and> argument svc ctx ''state'' = Some s \<and>
      state_check svc mom s = 0)")
    case False
    then have "plain_header (ds_bytes (dyn svc) d)"
      using assms(1) pages by (auto simp: code_page_def Let_def split: option.splits if_splits)
    then show thesis by (rule plain)
  next
    case True
    then obtain c s where a: "argument svc ctx ''error'' = None" "argument svc ctx ''code'' = Some c"
      "argument svc ctx ''state'' = Some s" "state_check svc mom s = 0" by blast
    have "\<exists>shown u. set u \<subseteq> set s \<and> code_answer svc mom c shown u st = (Inr d, st')"
    proof (cases rule: truncate_cases [of s])
      case whole
      then show ?thesis using assms(1) a by (intro exI [of _ s] exI [of _ "[]"]) (simp add: code_page_def)
    next
      case (cut kept rest)
      then show ?thesis using assms(1) a by (intro exI [of _ kept]) (auto simp: code_page_def)
    qed
    with answer a plain accepted show thesis by blast
  qed
qed

text \<open>The names in the cookie table are made of the bytes of the header, without equals signs.\<close>

lemma context_cookie_names:
  assumes "fcgx_prepare_request_context svc mom req = Inr ctx" "ctx_cookies ctx = Some cs" "(n, v) \<in> set cs"
    and "\<And>s. fcgi_params req ''HTTP_COOKIE'' = Some s \<Longrightarrow> NUL \<notin> set s"
  shows "EQ \<notin> set n \<and> (\<exists>s. fcgi_params req ''HTTP_COOKIE'' = Some s \<and> set n \<subseteq> set s)"
proof -
  obtain buf es where p: "HTTPUtils_parse_cookies (cookie_malloc_ok mom) (map_option (\<lambda>s. s @ [NUL]) (fcgi_params req ''HTTP_COOKIE'')) =
      Some (Some (buf, es))" "cs = cookie_view buf es"
    using assms(1,2) by (auto simp: fcgx_prepare_request_context_def Let_def split: option.splits)
  then obtain s where s: "fcgi_params req ''HTTP_COOKIE'' = Some s" "cookie_malloc_ok mom"
    by (auto simp: HTTPUtils_parse_cookies_def Let_def split: option.splits if_splits)
  from assms(4) [OF s(1)] obtain s' cs' where
    "HTTPUtils_parse_cookies True (Some (s @ [NUL])) = Some (Some (s' @ [NUL], cs'))" "cookie_view (s' @ [NUL]) cs' = cookie_pairs s"
    by (rule parse_cookies_result) (rule that)
  then have "cs = cookie_pairs s" using p s by simp
  with assms(3) s(1) cookie_pairs_names cookie_pairs_chars show ?thesis by blast
qed

lemma logout_lines:
  assumes "dynstring_laws (dyn svc)" "encoder_laws (dyn svc) html url" "line_safe svc html url" "header_texts req"
    and "fcgx_prepare_request_context svc mom req = Inr ctx" "l \<in> set (header_lines (ds_bytes (dyn svc) (logout_header (dyn svc) (ctx_cookies ctx)) @ s))"
    and "cookie_field l"
  shows "expiring_line l"
proof -
  let ?attributes = "\<lambda>name. if name = ''auth'' then ''Secure; HttpOnly; SameSite=Lax'' else []"
  let ?lines = "map (\<lambda>(name, _). expiring_text (html name) (?attributes name)) (case ctx_cookies ctx of None \<Rightarrow> [] | Some cs \<Rightarrow> cs)"
  have names: "EQ \<notin> set (html name) \<and> LF \<notin> set (html name)"
    if "(name, v) \<in> set (case ctx_cookies ctx of None \<Rightarrow> [] | Some cs \<Rightarrow> cs)" for name v
  proof -
    from that obtain cs where "ctx_cookies ctx = Some cs" "(name, v) \<in> set cs" by (cases "ctx_cookies ctx") auto
    from context_cookie_names [OF assms(5) this] assms(3,4) show ?thesis
      unfolding line_safe_def header_texts_def by blast
  qed
  have "\<forall>h \<in> set (''Status: 200'' # ?lines @ [''Cache-Control: no-cache'', html_type]). h \<noteq> [] \<and> LF \<notin> set h"
    using names by (auto simp: expiring_text_def)
  from header_is_lines [OF logout_page_header [OF assms(1,2)] this] assms(6) have
    "l \<in> set (''Status: 200'' # ?lines @ [''Cache-Control: no-cache'', html_type])" by simp
  then have "l \<in> set ?lines" using assms(7) field_names(1) [of "''200''"] field_names(3,4) by auto
  then show ?thesis using names by (fastforce simp: expiring_line_def)
qed

lemma login_return_to_plain: "LF \<notin> set s \<Longrightarrow> LF \<notin> set (login_return_to (Some s))" "LF \<notin> set (login_return_to None)"
  by (auto simp: login_return_to_def dest: in_set_dropD)

lemma login_get_lines:
  assumes "dynstring_laws (dyn svc)" "header_texts req"
    and "process_login_page_get svc mom req (fcgi_params req ''QUERY_STRING'') st = (r, out, st')"
    and "l \<in> set (header_lines (response out))"
  shows "\<not> cookie_field l"
proof -
  let ?to = "login_return_to (fcgi_params req ''QUERY_STRING'')"
  have t: "LF \<notin> set ?to"
    using assms(2) login_return_to_plain by (cases "fcgi_params req ''QUERY_STRING''") (auto simp: header_texts_def)
  have h: "header_lines (login_follow ?to @ s) = [''Status: 302'', ''Location: '' @ ?to, html_type]" for s
    by (rule header_is_lines [OF fixed_page_headers(3)]) (use t in auto)
  note plain = plain_header_fields [OF plain_login_form [OF assms(1)]]
  have n: "\<not> cookie_field ''Status: 302''" "\<not> cookie_field (''Location: '' @ ?to)" "\<not> cookie_field html_type"
    using field_names(1) [of "''302''"] field_names(2,3) by simp_all
  have "out = [] \<or> (\<exists>form. out = [Put (ds_bytes (dyn svc) (login_form svc ?to)), Close, Finish] \<or>
      out = [Put (login_follow ?to), Put form, Close, Finish])"
    using assms(3) by (auto simp: process_login_page_get_def Let_def split: option.splits prod.splits sum.splits if_splits)
  then show ?thesis using assms(4) plain [where l = l and s = "[]"] h n by (auto simp del: append.simps)
qed

lemma login_post_lines:
  assumes "dynstring_laws (dyn svc)" "encoder_laws (dyn svc) html url" "line_safe svc html url"
    and "process_login_page_post svc mom req st = (r, out, st')" "l \<in> set (header_lines (response out))"
  shows "\<not> cookie_field l"
proof -
  have u: "LF \<notin> set (ds_getcstring (dyn svc) (login_redirect_uri (dyn svc) (config svc) s))" for s
    using assms(1-3) unfolding line_safe_def
    by (auto simp: login_redirect_uri_def dynstring_lawsD(10) encoder_lawsD cstr_def dest!: set_takeWhileD)
  let ?page = "\<lambda>s. ds_bytes (dyn svc) (login_redirect_page (dyn svc) (login_redirect_uri (dyn svc) (config svc) s))"
  have h: "header_lines (?page s @ x) = [''Status: 302'', html_type, ''Location: '' @
      ds_getcstring (dyn svc) (login_redirect_uri (dyn svc) (config svc) s)]" for s x
    by (rule header_is_lines [OF built_page_headers(4) [OF assms(1,2)]]) (use u in auto)
  have n: "\<not> cookie_field ''Status: 302''" "\<not> cookie_field html_type" "\<not> cookie_field (''Location: '' @ t)" for t
    using field_names(1) [of "''302''"] field_names(2,3) by simp_all
  have "response out = [] \<or> response out = login_bad_request \<or> (\<exists>s. response out = ?page s)"
    using assms(4) by (auto simp: process_login_page_post_def Let_def split: option.splits prod.splits if_splits)
  then show ?thesis using assms(5) plain_header_fields [OF plain_pages(3), of l "[]"] h [of _ "[]"] n
    by (auto simp del: append.simps)
qed

subsection \<open>The router\<close>

text \<open>The lines of the header of an answer that set a cookie.\<close>

lemma request_cookie:
  assumes "dynstring_laws (dyn svc)" "encoder_laws (dyn svc) html url" "line_safe svc html url" "header_texts req"
    and "appauth_process_request svc mom req st = (r, out, st')"
    and "l \<in> set (header_lines (response out))" "cookie_field l"
  shows "expiring_line l \<or>
    (\<exists>tk stores saved. l = cookie_line tk \<and> token_check svc mom tk (key_stores st) = (Inr 0, stores, saved) \<and> key_stores st' = stores) \<or>
    breaking_state svc mom req"
  using assms(5)
proof (cases rule: request_cases)
  case (undefined e)
  then show ?thesis using assms(6) by simp
next
  case (fixed s)
  then show ?thesis using assms(6,7) plain_header_fields [of "status_only s" l "[]"] plain_pages(1,2) by auto
next
  case (login_get r0)
  then show ?thesis using login_get_lines [OF assms(1,4) login_get(1) assms(6)] assms(7) by blast
next
  case (login_post r0)
  then show ?thesis using login_post_lines [OF assms(1-3) login_post(1) assms(6)] assms(7) by blast
next
  case (logout ctx r0)
  then obtain page where "response out = ds_bytes (dyn svc) (logout_header (dyn svc) (ctx_cookies ctx)) @ page"
    by (auto simp: process_logout_request_def Let_def)
  then show ?thesis using logout_lines [OF assms(1-4) logout(3) _ assms(7)] assms(6) by auto
next
  case (verify ctx r0)
  then have "response out = [] \<or> plain_header (response out)"
    using plain_pages by (auto simp: process_verification_request_def Let_def split: option.splits prod.splits sum.splits if_splits)
  then show ?thesis using assms(6,7) plain_header_fields [of "response out" l "[]"] by auto
next
  case (code ctx r0)
  have q: "ctx_qs ctx = querystring_decode_inplace (query svc) (fcgi_params req ''QUERY_STRING'')"
    using code(3) by (auto simp: fcgx_prepare_request_context_def Let_def split: option.splits)
  show ?thesis
  proof (cases "out = []")
    case False
    then obtain tok content d where d: "code_page svc mom ctx tok content st = (Inr d, st')" "response out = ds_bytes (dyn svc) d"
      using code(1) by (auto simp: process_code_response_def Let_def split: sum.splits prod.splits)
    from d(1) assms(1,2) show ?thesis
    proof (cases rule: code_page_header)
      case plain
      then show ?thesis using assms(6,7) plain_header_fields [of "response out" l "[]"] d(2) by auto
    next
      case (accepted tk redirect_url qs_state stores saved)
      show ?thesis
      proof (cases "LF \<in> set redirect_url")
        case True
        then have "LF \<in> set qs_state" using accepted(6) by blast
        then show ?thesis using accepted(4,5) unfolding breaking_state_def q by blast
      next
        case no: False
        have "header_lines (ds_bytes (dyn svc) d @ []) = [''Status: 302'', cookie_line tk, html_type, ''Location: '' @ redirect_url]"
          by (rule header_is_lines [OF accepted(1)])
            (use no checked_token_line [OF accepted(2) assms(3)] in \<open>auto simp: cookie_line_def\<close>)
        then have "l = cookie_line tk"
          using assms(6,7) d(2) field_names(1) [of "''302''"] field_names(2,3) by auto
        then show ?thesis using accepted(2,3) by blast
      qed
    qed
  qed (use assms(6) in simp)
next
  case (direct ctx r0)
  show ?thesis
  proof (cases "response out = [] \<or> plain_header (response out)")
    case True
    then show ?thesis using assms(6,7) plain_header_fields [of "response out" l "[]"] by auto
  next
    case False
    then obtain tk qs_state stores saved where t: "token_check svc mom tk (key_stores st) = (Inr 0, stores, saved)"
      "key_stores st' = stores" "response out = direct_accepted tk qs_state"
      using direct(1) plain_pages default_bytes [OF assms(1)]
      by (auto simp: process_direct_token_auth_request_def Let_def split: option.splits prod.splits sum.splits if_splits)
    have "header_lines (direct_accepted tk qs_state @ []) = [''Status: 200'', cookie_line tk, html_type]"
      by (rule header_is_lines [OF fixed_page_headers(9)])
        (use checked_token_line [OF t(1) assms(3)] in \<open>auto simp: cookie_line_def\<close>)
    then have "l = cookie_line tk" using assms(6,7) t(3) field_names(1) [of "''200''"] field_names(3) by auto
    then show ?thesis using t(1,2) by blast
  qed
next
  case (debug ctx r0)
  have "header_is [''Status: 200'', html_type] (html_lines ([''Status: 200''] @ page_start @ ls))" for ls
    by (simp add: header_is_def page_start_def crlf_def)
  then have "plain_header (html_lines ([''Status: 200''] @ page_start @ ls))" for ls
    by (rule plain_headerI) simp
  then have "response out = [] \<or> plain_header (response out)"
    using debug(1) by (auto simp: process_debug_token_auth_request_def Let_def simp del: html_lines_simps html_lines_append split: sum.splits)
  then show ?thesis using assms(6,7) plain_header_fields [of "response out" l "[]"] by auto
qed

subsection \<open>Properties\<close>

text \<open>
  Through the whole router the \<^verbatim>\<open>auth\<close> cookie is given only to trusted tokens: after start-up and any
  requests, whatever request comes, a line of the header of its answer that sets a cookie either expires one or
  gives \<^verbatim>\<open>auth\<close> a token that the verifier of a complete JWK accepts at that time and that names a user, unless
  the request has a state string with a line break in it and a valid tag.
\<close>

theorem only_trusted_tokens_become_cookies:
  assumes "auth_startup (jwt_lib svc) (parse_json svc) env0 = Inr stores0" "serving svc (initial_state stores0 w) st"
    and "dynstring_laws (dyn svc)" "encoder_laws (dyn svc) html url" "line_safe svc html url" "header_texts req"
    and "appauth_process_request svc mom req st = (r, out, st')"
    and "l \<in> set (header_lines (response out))" "cookie_field l"
  shows "expiring_line l \<or> (\<exists>tk. l = cookie_line tk \<and> trusted_token (jwt_lib svc) (later_now (keys_env mom)) tk) \<or>
    breaking_state svc mom req"
proof -
  have "trusted_token (jwt_lib svc) (later_now (keys_env mom)) tk"
    if "token_check svc mom tk (key_stores st) = (Inr 0, stores, saved)" for tk stores saved
    using token_check_trusted [OF assms(1,2) that] by (auto simp: trusted_token_def)
  then show ?thesis using request_cookie [OF assms(3-9)] by blast
qed

definition sample_direct :: "string FCGX_Request" where
  "sample_direct = \<lparr>fcgi_params = (fcgi_params sample_post)(''REQUEST_METHOD'' \<mapsto> ''GET'', ''PATH_INFO'' \<mapsto> ''direct''), fcgi_in = []\<rparr>"

lemma sample_line_safe: "line_safe sample_service (\<lambda>s. s) (filter (\<lambda>c. c \<noteq> LF))"
  by (auto simp: line_safe_def sample_parts sample_oauth_def toy_jwt_def split: if_splits)

lemma sample_header_texts: "header_texts sample_direct"
  by (simp add: header_texts_def sample_direct_def sample_post_def)

lemma sample_not_breaking: "\<not> breaking_state sample_service mom req"
  using sha.tag_digits [of LF "junk sample_moment"] 
  by (auto simp: breaking_state_def sample_service_def sample_args_def sample_state_def sample_moment_def is_hex_def)

lemma sample_direct_answer:
  "\<exists>page out st'. appauth_process_request sample_service sample_moment sample_direct sample_start = (Inr 0, Put page # out, st') \<and>
    header_lines (response (Put page # out)) = [''Status: 200'', cookie_line ''axy'', html_type]"
proof -
  obtain ctx where "fcgx_prepare_request_context sample_service sample_moment sample_direct = Inr ctx"
    by (auto simp: sample_direct_def sample_post_def fcgx_prepare_request_context_def HTTPUtils_parse_cookies_def)
  moreover have "fcgi_params sample_direct ''REQUEST_METHOD'' = Some ''GET''" "fcgi_params sample_direct ''PATH_INFO'' = Some ''direct''"
    by (simp_all add: sample_direct_def)
  ultimately obtain qs_state out st' where r: "appauth_process_request sample_service sample_moment sample_direct sample_start =
      (Inr 0, Put (direct_accepted ''axy'' qs_state) # out, st')"
    using sample_token_check sample_argument(4)
    by (auto simp: appauth_process_request_def process_direct_token_auth_request_def routed_def Let_def)
  have "header_lines (direct_accepted ''axy'' qs_state @ response out) = [''Status: 200'', cookie_line ''axy'', html_type]"
    by (rule header_is_lines [OF fixed_page_headers(9)]) (simp add: cookie_line_def)
  with r show ?thesis by auto
qed

theorem only_trusted_tokens_become_cookies_witness:
  "\<exists>page out st'. appauth_process_request sample_service sample_moment sample_direct sample_start = (Inr 0, Put page # out, st') \<and>
    cookie_line ''axy'' \<in> set (header_lines (response (Put page # out))) \<and> trusted_token toy_jwt (later_now toy_env) ''axy''"
proof -
  obtain page out st' where r: "appauth_process_request sample_service sample_moment sample_direct sample_start =
      (Inr 0, Put page # out, st')" "cookie_line ''axy'' \<in> set (header_lines (response (Put page # out)))"
    using sample_direct_answer by auto
  have st: "auth_startup (jwt_lib sample_service) (parse_json sample_service) toy_files = Inr [''microsoft'' \<mapsto> sample_store]"
    unfolding sample_parts by (rule sample_startup)
  from only_trusted_tokens_become_cookies [OF st serving.started sample_laws sample_line_safe sample_header_texts r cookie_line_field(1)]
  have "trusted_token toy_jwt (later_now toy_env) ''axy''"
    using cookie_line_kept sample_not_breaking by (auto simp: sample_parts)
  with r show ?thesis by blast
qed

end
