(* ===== verification/Appauth_sessions.thy ===== *)
theory Appauth_sessions
  imports Appauth_cookies
begin

section \<open>A login lasts\<close>

text \<open>
  Two requests of one browser, through the router. The token the service gave it as a cookie is accepted again,
  because the key it was verified with stays in the store whatever requests come between; and a login form and
  the answer of the provider to it bring the browser back to the target it asked for.
\<close>

lemma known_key_accepts:
  assumes "get_verifier issuer kid stores = Some v" "jwt_decode J s = Inr jwt" "get_key_id J jwt = Inr kid"
    "jwt_verify J v jwt (later_now env) = Inr ()"
  shows "verify_jwt J parse env issuer s stores = (Inr True, stores, [])"
proof -
  obtain store where s: "stores issuer = Some store" "verifiers store kid = Some v"
    using assms(1) by (auto simp: get_verifier_def split: option.splits)
  then have "find_verifier J parse env kid store = (Inr (Some v), store, [])" by (simp add: find_verifier_def)
  from verify_jwt_known [where stores = stores and issuer = issuer, OF s(1) assms(2,3) this] show ?thesis
    using assms(4) s(1) by (simp add: fun_upd_idem)
qed

text \<open>A token that was accepted once, later, with the verifier it was accepted with.\<close>

lemma accepted_again:
  assumes "token_check svc mom tk stores = (Inr 0, stores', saved)"
  shows "\<exists>jwt kid v. jwt_decode (jwt_lib svc) tk = Inr jwt \<and> get_key_id (jwt_lib svc) jwt = Inr kid \<and>
    get_verifier ''microsoft'' kid stores' = Some v \<and> jwt_verify (jwt_lib svc) v jwt (later_now (keys_env mom)) = Inr () \<and>
    (\<forall>mom2 stores2. get_verifier ''microsoft'' kid stores2 = Some v \<and>
       jwt_verify (jwt_lib svc) v jwt (later_now (keys_env mom2)) = Inr () \<longrightarrow> token_check svc mom2 tk stores2 = (Inr 0, stores2, []))"
proof -
  from verify_auth_zero_parts [OF assms] obtain jwt where
    c: "read_token_claims (jwt_lib svc) tk = Inr jwt" "finish_verification (jwt_lib svc) (serialize_json svc) tk jwt = Inr 0"
    and v: "verify_jwt (jwt_lib svc) (parse_json svc) (keys_env mom) ''microsoft'' tk stores = (Inr True, stores', saved)"
    by blast
  from verify_jwt_accepted [OF v] read_claims_decode [OF c(1)] obtain kid w where
    k: "jwt_decode (jwt_lib svc) tk = Inr jwt" "get_key_id (jwt_lib svc) jwt = Inr kid" "get_verifier ''microsoft'' kid stores' = Some w"
      "jwt_verify (jwt_lib svc) w jwt (later_now (keys_env mom)) = Inr ()"
    by (metis Inr_inject)
  have "token_check svc mom2 tk stores2 = (Inr 0, stores2, [])"
    if "get_verifier ''microsoft'' kid stores2 = Some w" "jwt_verify (jwt_lib svc) w jwt (later_now (keys_env mom2)) = Inr ()" for mom2 stores2
    using verify_auth_read [OF c(1) known_key_accepts [OF that(1) k(1,2) that(2)]] c(2) by simp
  with k show ?thesis by blast
qed

lemma login_with_cookie:
  assumes "fcgi_params req ''REQUEST_METHOD'' = Some ''GET''" "fcgi_params req ''PATH_INFO'' = Some ''login''"
    and "fcgi_params req ''HTTP_COOKIE'' = Some (cookie_header cs)" "\<forall>c\<in>set cs. cookie_ok c" "cookie_values cs ''auth'' = [tk]"
    and "cookie_malloc_ok mom" "token_check svc mom tk (key_stores st) = (Inr 0, stores, saved)"
  shows "\<exists>form. appauth_process_request svc mom req st =
    (Inr 0, [Put (login_follow (login_return_to (fcgi_params req ''QUERY_STRING''))), Put form, Close, Finish],
     set_stores stores saved st)"
proof -
  obtain buf where "jwtinterface_get_token_from_cookie_or_authorization True (Some (cookie_header cs @ [NUL]))
      (fcgi_params req ''HTTP_AUTHORIZATION'') = Some (tk, buf)"
    using token_from_header_eq [OF assms(4)] assms(5) by fastforce
  then have "verify_jwks_authentication (jwt_lib svc) (serialize_json svc) (parse_json svc) (keys_env mom) (cookie_malloc_ok mom)
      (Some (cookie_header cs @ [NUL])) (fcgi_params req ''HTTP_AUTHORIZATION'') (key_stores st) = Some (Inr 0, stores, saved)"
    using assms(6,7) by (simp add: verify_jwks_authentication_def)
  then show ?thesis using assms(1-3)
    by (simp add: appauth_process_request_def process_login_page_get_def routed_def Let_def)
qed

subsection \<open>Properties\<close>

text \<open>
  C4. A cookie the service gave is honoured: when the header of an answer gave \<^verbatim>\<open>auth\<close> a token, to a request
  without a line break in its state, there is a verifier that accepted it then; after any requests since that
  verifier is still stored under the key id of the token, and as long as it accepts the token, a browser that asks
  for the login page with the token as its only \<^verbatim>\<open>auth\<close> cookie is redirected to where it wanted to go.
\<close>

theorem given_cookie_is_honoured:
  assumes "dynstring_laws (dyn svc)" "encoder_laws (dyn svc) html url" "line_safe svc html url" "header_texts req"
    and "appauth_process_request svc mom req st = (r, out, st1)" "cookie_line tk \<in> set (header_lines (response out))"
    and "\<not> breaking_state svc mom req"
    and "serving svc st1 st2" "cookie_malloc_ok mom2"
    and "fcgi_params req2 ''REQUEST_METHOD'' = Some ''GET''" "fcgi_params req2 ''PATH_INFO'' = Some ''login''"
    and "fcgi_params req2 ''HTTP_COOKIE'' = Some (cookie_header cs)" "\<forall>c\<in>set cs. cookie_ok c" "cookie_values cs ''auth'' = [tk]"
  shows "\<exists>jwt kid v. jwt_decode (jwt_lib svc) tk = Inr jwt \<and> get_key_id (jwt_lib svc) jwt = Inr kid \<and>
    get_verifier ''microsoft'' kid (key_stores st1) = Some v \<and> jwt_verify (jwt_lib svc) v jwt (later_now (keys_env mom)) = Inr () \<and>
    get_verifier ''microsoft'' kid (key_stores st2) = Some v \<and>
    (jwt_verify (jwt_lib svc) v jwt (later_now (keys_env mom2)) = Inr () \<longrightarrow>
       (\<exists>form st3. appauth_process_request svc mom2 req2 st2 =
          (Inr 0, [Put (login_follow (login_return_to (fcgi_params req2 ''QUERY_STRING''))), Put form, Close, Finish], st3)))"
proof -
  from request_cookie [OF assms(1-6) cookie_line_field(1)] assms(7) cookie_line_kept obtain stores saved where
    g: "token_check svc mom tk (key_stores st) = (Inr 0, stores, saved)" "key_stores st1 = stores"
    by auto
  from accepted_again [OF g(1)] obtain jwt kid v where
    a: "jwt_decode (jwt_lib svc) tk = Inr jwt" "get_key_id (jwt_lib svc) jwt = Inr kid" "get_verifier ''microsoft'' kid stores = Some v"
      "jwt_verify (jwt_lib svc) v jwt (later_now (keys_env mom)) = Inr ()"
    and again: "\<And>mom2 stores2. get_verifier ''microsoft'' kid stores2 = Some v \<Longrightarrow>
       jwt_verify (jwt_lib svc) v jwt (later_now (keys_env mom2)) = Inr () \<Longrightarrow> token_check svc mom2 tk stores2 = (Inr 0, stores2, [])"
    by blast
  have k: "get_verifier ''microsoft'' kid (key_stores st2) = Some v"
    using reaches_kept [OF serving_reaches [OF assms(8)]] a(3) g(2) by simp
  have "\<exists>form st3. appauth_process_request svc mom2 req2 st2 =
      (Inr 0, [Put (login_follow (login_return_to (fcgi_params req2 ''QUERY_STRING''))), Put form, Close, Finish], st3)"
    if "jwt_verify (jwt_lib svc) v jwt (later_now (keys_env mom2)) = Inr ()"
    using login_with_cookie [OF assms(10-14,9) again [OF k that]] by blast
  with a g(2) k show ?thesis by blast
qed

definition sample_return :: "string FCGX_Request" where
  "sample_return = \<lparr>fcgi_params = (fcgi_params sample_post)(''REQUEST_METHOD'' \<mapsto> ''GET'', ''PATH_INFO'' \<mapsto> ''login'',
     ''HTTP_COOKIE'' \<mapsto> cookie_header [(''auth'', ''axy'')]), fcgi_in = []\<rparr>"

theorem given_cookie_is_honoured_witness:
  "\<exists>page out st1. appauth_process_request sample_service sample_moment sample_direct sample_start = (Inr 0, Put page # out, st1) \<and>
    cookie_line ''axy'' \<in> set (header_lines (response (Put page # out))) \<and>
    get_verifier ''microsoft'' ''a'' (key_stores st1) = Some ''xy'' \<and>
    (\<exists>form st2. appauth_process_request sample_service sample_moment sample_return st1 =
       (Inr 0, [Put (login_follow ''/''), Put form, Close, Finish], st2))"
proof -
  obtain page out st1 where r: "appauth_process_request sample_service sample_moment sample_direct sample_start =
      (Inr 0, Put page # out, st1)" "cookie_line ''axy'' \<in> set (header_lines (response (Put page # out)))"
    using sample_direct_answer by auto
  have q: "fcgi_params sample_return ''REQUEST_METHOD'' = Some ''GET''" "fcgi_params sample_return ''PATH_INFO'' = Some ''login''"
    "fcgi_params sample_return ''HTTP_COOKIE'' = Some (cookie_header [(''auth'', ''axy'')])"
    and t: "login_return_to (fcgi_params sample_return ''QUERY_STRING'') = ''/''" and m: "cookie_malloc_ok sample_moment"
    by (simp_all add: sample_return_def sample_post_def login_return_to_def sample_moment_def)
  have c: "\<forall>c\<in>set [(''auth'', ''axy'')]. cookie_ok c" "cookie_values [(''auth'', ''axy'')] ''auth'' = [''axy'']"
    by (simp_all add: cookie_ok_def is_ws_def cookie_values_def)
  from given_cookie_is_honoured [OF sample_laws sample_line_safe sample_header_texts r sample_not_breaking serving.started m q c]
  obtain jwt kid v where h: "jwt_decode toy_jwt ''axy'' = Inr jwt" "get_key_id toy_jwt jwt = Inr kid"
      "get_verifier ''microsoft'' kid (key_stores st1) = Some v" "jwt_verify toy_jwt v jwt (later_now toy_env) = Inr ()"
    and again: "\<exists>form st2. appauth_process_request sample_service sample_moment sample_return st1 =
       (Inr 0, [Put (login_follow ''/''), Put form, Close, Finish], st2)"
    unfolding sample_parts t by blast
  from h have "kid = ''a''" "v = ''xy''" by (auto simp: toy_jwt_def split: if_splits)
  with r h(3) again show ?thesis by blast
qed

text \<open>
  C3. A login ends where it began, through the router: a posted form that decodes, asks for the provider and has a target is
  answered by a redirection to the provider with a state string. When the browser comes back, at any later time and to any
  state of the service, without an \<^verbatim>\<open>auth\<close> cookie, with that string and with a code that is exchanged for a verified
  token, the answer sets the cookie and redirects to the target of the form, or to the slash when the target has
  at most four characters.
\<close>

theorem login_returns_to_target:
  assumes "dynstring_laws (dyn svc)" "encoder_laws (dyn svc) html url"
    and "fcgi_params req ''REQUEST_METHOD'' = Some ''POST''" "fcgi_params req ''PATH_INFO'' = Some ''login''"
    and "fcgx_prepare_request_context svc mom req = Inr ctx"
    and "formdecoder_decodefcgirequest (forms svc) (form_request_of (fcgi_params req) (fcgi_in req)) (1024 * 1024) None
      (form_world st) = Some (0, Some fc, inp, w, ei)"
    and "formdecoder_getfield (form_map (forms svc)) (query svc) fc ''provider'' w = Some (0, Some (9, Some ''microsoft''))"
    and "formdecoder_getfield (form_map (forms svc)) (query svc) fc ''redirect_to'' w = Some (0, Some (length target, Some target))"
    and "formdecoder_dispose (form_map (forms svc)) (Some fc) w = Some w'"
    and "NUL \<notin> set target" "NUL \<notin> set (timefn_format svc (unix_now mom))" "CHR ''.'' \<notin> set (timefn_format svc (unix_now mom))"
    and "fcgi_params req2 ''REQUEST_METHOD'' = Some ''GET''" "fcgi_params req2 ''PATH_INFO'' = Some ''microsoft''"
    and "fcgx_prepare_request_context svc mom2 req2 = Inr ctx2" "HTTPUtils_get_cookie (ctx_cookies ctx2) ''auth'' 0 = None"
    and "argument svc ctx2 ''error'' = None" "argument svc ctx2 ''code'' = Some qs_code"
    and "code_tokens svc mom2 qs_code (code_cache st2) = (Inr (0, Some tk), cache)"
    and "token_check svc mom2 tk (key_stores st2) = (Inr 0, stores, saved)"
  shows "\<exists>page s. appauth_process_request svc mom req st = (Inr 0, [Put page, Finish], st\<lparr>form_world := w'\<rparr>) \<and>
    s = (if 4 < length target then target else ''/'') @ ''.'' @ timefn_format svc (unix_now mom) @ ''.'' @
      state_tag (sha256_buf (junk mom)) (secret svc) ((if 4 < length target then target else ''/'') @ ''.'' @ timefn_format svc (unix_now mom)) \<and>
    prefix (html_lines [''Status: 302'', ''Content-Type: text/html; charset=utf-8'', ''Location: '' @
      cstr (''https://login.microsoftonline.com/common/oauth2/v2.0/authorize?client_id='' @
        OAUTH2_DEFAULT_CLIENT_ID (config svc) @ ''&response_type=code&scope=openid%20profile%20email&redirect_uri='' @
        OAUTH2_DEFAULT_REDIRECT_URI (config svc) @ ''&state='' @ url s @ ''&prompt=select_account''), []]) page \<and>
    (argument svc ctx2 ''state'' = Some s \<longrightarrow>
      (\<exists>rest. appauth_process_request svc mom2 req2 st2 = (Inr 0, [Put
        (html_lines [''Status: 302'', ''Set-Cookie: auth='' @ tk @ ''; Path=/; Secure; HttpOnly; SameSite=Lax'',
           ''Content-Type: text/html; charset=utf-8'', ''Location: '' @ (if 4 < length target then target else ''/''), []] @ rest),
         Flush, Close, Finish],
      set_stores stores saved (st2\<lparr>code_cache := cache\<rparr>))))"
proof -
  let ?to = "if 4 < length target then target else ''/''" and ?r = "(0, Some (length target, Some target)) :: int \<times> (nat \<times> string option) option"
  have to: "login_send_to ?r = ?to" by (simp add: login_send_to_def)
  have n: "NUL \<notin> set (login_send_to ?r)" using assms(10) unfolding to by simp
  have m: "is_microsoft (0, Some (9, Some ''microsoft''))" by (simp add: is_microsoft_def)
  from login_post_redirects [OF assms(1,2) n assms(11,6,7,8,9) m] obtain s page where
    s: "login_state svc mom ?to = Some s"
    and p: "process_login_page_post svc mom req st = (Inr 0, [Put page, Finish], st\<lparr>form_world := w'\<rparr>)"
    "prefix (html_lines [''Status: 302'', ''Content-Type: text/html; charset=utf-8'', ''Location: '' @
      cstr (''https://login.microsoftonline.com/common/oauth2/v2.0/authorize?client_id='' @
        OAUTH2_DEFAULT_CLIENT_ID (config svc) @ ''&response_type=code&scope=openid%20profile%20email&redirect_uri='' @
        OAUTH2_DEFAULT_REDIRECT_URI (config svc) @ ''&state='' @ url s @ ''&prompt=select_account''), []]) page"
    unfolding to by blast
  have "appauth_process_request svc mom req st = (Inr 0, [Put page, Finish], st\<lparr>form_world := w'\<rparr>)"
    using assms(3-5) p(1) by (simp add: appauth_process_request_def routed_def)
  moreover have "s = ?to @ ''.'' @ timefn_format svc (unix_now mom) @ ''.'' @
      state_tag (sha256_buf (junk mom)) (secret svc) (?to @ ''.'' @ timefn_format svc (unix_now mom))"
    using s login_state_eq [OF assms(1) n [unfolded to] assms(11)] by auto
  moreover have "\<exists>rest. appauth_process_request svc mom2 req2 st2 = (Inr 0, [Put
        (html_lines [''Status: 302'', ''Set-Cookie: auth='' @ tk @ ''; Path=/; Secure; HttpOnly; SameSite=Lax'',
           ''Content-Type: text/html; charset=utf-8'', ''Location: '' @ ?to, []] @ rest), Flush, Close, Finish],
      set_stores stores saved (st2\<lparr>code_cache := cache\<rparr>))"
    if "argument svc ctx2 ''state'' = Some s"
  proof -
    have "login_state svc mom ?to = argument svc ctx2 ''state''" using s that by simp
    from login_round_trip [OF assms(1) n [unfolded to] assms(11,12) this assms(17,18,16,19,20)] obtain rest where
      "process_code_response svc mom2 ctx2 st2 = (Inr 0, [Put
        (html_lines [''Status: 302'', ''Set-Cookie: auth='' @ tk @ ''; Path=/; Secure; HttpOnly; SameSite=Lax'',
           ''Content-Type: text/html; charset=utf-8'', ''Location: '' @ ?to, []] @ rest), Flush, Close, Finish],
      set_stores stores saved (st2\<lparr>code_cache := cache\<rparr>))" by blast
    then show ?thesis using assms(13-15) by (simp add: appauth_process_request_def routed_def)
  qed
  ultimately show ?thesis using p(2) by blast
qed

text \<open>A form for \<^verbatim>\<open>/abc/\<close> and the answer of the provider to it.\<close>

definition session_state :: string where
  "session_state = ''/abc/.2024'' @ CHR ''.'' # state_tag (sha256_buf (\<lambda>_. 0)) ''secret'' ''/abc/.2024''"

definition session_query :: "string querystring_ops" where
  "session_query = \<lparr>querystring_decode_inplace = (\<lambda>s. s),
     querystring_getbykey = (\<lambda>q key. if key = ''provider'' then Some ''microsoft'' else if key = ''redirect_to'' then Some ''/abc/''
       else if key = ''code'' then Some ''c1'' else if key = ''state'' then Some session_state else None)\<rparr>"

abbreviation session_service ::
  "(string, string, string, string option, (string \<times> nat) list, string, string, unit) service" where
  "session_service \<equiv> sample_service\<lparr>forms := sample_form_env\<lparr>form_query := session_query\<rparr>\<rparr>"

definition session_post :: "string FCGX_Request" where
  "session_post = \<lparr>fcgi_params = (fcgi_params sample_post)(''CONTENT_TYPE'' \<mapsto> ''application/x-www-form-urlencoded''), fcgi_in = ''body''\<rparr>"

definition session_answer :: "string FCGX_Request" where
  "session_answer = \<lparr>fcgi_params = (fcgi_params sample_post)(''REQUEST_METHOD'' \<mapsto> ''GET'', ''PATH_INFO'' \<mapsto> ''microsoft''), fcgi_in = []\<rparr>"

lemma session_parts:
  "dyn session_service = list_dynstring" "config session_service = sample_oauth" "parse_json session_service = sample_reply"
  "jwt_lib session_service = toy_jwt" "serialize_json session_service = (\<lambda>_. [])" "timefn_format session_service t = ''2024''"
  "argument session_service ctx ''error'' = None" "argument session_service ctx ''code'' = Some ''c1''"
  "argument session_service ctx ''state'' = Some session_state"
  by (simp_all add: sample_form_env_def sample_service_def session_query_def)

lemma session_decoded:
  "\<exists>fc. formdecoder_decodefcgirequest (forms session_service) (form_request_of (fcgi_params session_post) (fcgi_in session_post))
      (1024 * 1024) None (form_world sample_start) = Some (0, Some fc, [], empty_world, None) \<and>
    formdecoder_getfield (form_map (forms session_service)) (query session_service) fc ''provider'' empty_world =
      Some (0, Some (9, Some ''microsoft'')) \<and>
    formdecoder_getfield (form_map (forms session_service)) (query session_service) fc ''redirect_to'' empty_world =
      Some (0, Some (5, Some ''/abc/'')) \<and>
    formdecoder_dispose (form_map (forms session_service)) (Some fc) empty_world = Some empty_world"
proof -
  have "read_body list_getstr 1048576 ''body'' [] = Some (Some ''body'', [])"
    by (subst read_body.simps) (simp add: list_getstr_def)
  then have r: "read_body list_getstr 1048576 [] ''body'' = Some (Some ''body'', [])"
    by (subst read_body.simps) (simp add: list_getstr_def)
  show ?thesis
    using r
    by (simp add: formdecoder_decodefcgirequest_def form_request_of_def session_post_def sample_post_def strncmp0_def
        sample_form_env_def formdecoder_decodefcgirequest_urlencoded_def formdecoder_init_def list_simplemap_def
        session_query_def initial_state_def formdecoder_getfield_def formdecoder_dispose_def)
qed

theorem login_returns_to_target_witness:
  "\<exists>page rest st2. appauth_process_request session_service sample_moment session_post sample_start =
      (Inr 0, [Put page, Finish], sample_start) \<and>
    appauth_process_request session_service sample_moment session_answer sample_start = (Inr 0, [Put
      (html_lines [''Status: 302'', ''Set-Cookie: auth=axy; Path=/; Secure; HttpOnly; SameSite=Lax'',
         ''Content-Type: text/html; charset=utf-8'', ''Location: /abc/'', []] @ rest), Flush, Close, Finish], st2)"
proof -
  obtain fc where f: "formdecoder_decodefcgirequest (forms session_service)
      (form_request_of (fcgi_params session_post) (fcgi_in session_post)) (1024 * 1024) None (form_world sample_start) =
      Some (0, Some fc, [], empty_world, None)"
    "formdecoder_getfield (form_map (forms session_service)) (query session_service) fc ''provider'' empty_world =
      Some (0, Some (9, Some ''microsoft''))"
    "formdecoder_getfield (form_map (forms session_service)) (query session_service) fc ''redirect_to'' empty_world =
      Some (0, Some (length ''/abc/'', Some ''/abc/''))"
    "formdecoder_dispose (form_map (forms session_service)) (Some fc) empty_world = Some empty_world"
    using session_decoded by auto
  obtain ctx where c: "fcgx_prepare_request_context session_service sample_moment session_post = Inr ctx"
    by (rule request_prepared [of session_post]) (auto simp: session_post_def sample_post_def)
  obtain ctx2 where c2: "fcgx_prepare_request_context session_service sample_moment session_answer = Inr ctx2"
    "ctx_cookies ctx2 = None"
    by (rule request_prepared [of session_answer]) (auto simp: session_answer_def sample_post_def)
  obtain cache where k: "code_tokens session_service sample_moment ''c1'' (code_cache sample_start) = (Inr (0, Some ''axy''), cache)"
    using sample_tokens unfolding session_parts sample_parts by blast
  have v: "token_check session_service sample_moment ''axy'' (key_stores sample_start) = (Inr 0, [''microsoft'' \<mapsto> sample_store], [])"
    using sample_token_check unfolding session_parts sample_parts .
  have laws: "dynstring_laws (dyn session_service)" "encoder_laws (dyn session_service) (\<lambda>s. s) (filter (\<lambda>c. c \<noteq> LF))"
    unfolding session_parts by (simp_all add: list_dynstring_def)
  have n: "NUL \<notin> set ''/abc/''" "NUL \<notin> set (timefn_format session_service (unix_now sample_moment))"
    "CHR ''.'' \<notin> set (timefn_format session_service (unix_now sample_moment))"
    unfolding session_parts by simp_all
  have q: "fcgi_params session_post ''REQUEST_METHOD'' = Some ''POST''" "fcgi_params session_post ''PATH_INFO'' = Some ''login''"
    "fcgi_params session_answer ''REQUEST_METHOD'' = Some ''GET''" "fcgi_params session_answer ''PATH_INFO'' = Some ''microsoft''"
    by (simp_all add: session_post_def session_answer_def sample_post_def)
  have a: "HTTPUtils_get_cookie (ctx_cookies ctx2) ''auth'' 0 = None" using c2(2) by (simp add: HTTPUtils_get_cookie_def)
  have t: "(if 4 < length ''/abc/'' then ''/abc/'' else ''/'') = ''/abc/''" by simp
  from login_returns_to_target [OF laws q(1,2) c f(1-4) n q(3,4) c2(1) a session_parts(7,8) k v, unfolded t session_parts(6)]
  obtain page s where
    r: "appauth_process_request session_service sample_moment session_post sample_start =
        (Inr 0, [Put page, Finish], sample_start\<lparr>form_world := empty_world\<rparr>)"
    and s: "s = ''/abc/'' @ ''.'' @ ''2024'' @ ''.'' @ state_tag (sha256_buf (junk sample_moment)) (secret session_service) (''/abc/'' @ ''.'' @ ''2024'')"
    and again: "argument session_service ctx2 ''state'' = Some s \<longrightarrow>
      (\<exists>rest. appauth_process_request session_service sample_moment session_answer sample_start = (Inr 0, [Put
        (html_lines [''Status: 302'', ''Set-Cookie: auth='' @ ''axy'' @ ''; Path=/; Secure; HttpOnly; SameSite=Lax'',
           ''Content-Type: text/html; charset=utf-8'', ''Location: '' @ ''/abc/'', []] @ rest),
         Flush, Close, Finish], set_stores [''microsoft'' \<mapsto> sample_store] [] (sample_start\<lparr>code_cache := cache\<rparr>)))"
    by blast
  have "secret session_service = ''secret''" "junk sample_moment = (\<lambda>_. 0)"
    by (simp_all add: sample_service_def sample_oauth_def sample_moment_def)
  with s have "s = session_state" by (simp add: session_state_def)
  moreover have "sample_start\<lparr>form_world := empty_world\<rparr> = sample_start" by (simp add: initial_state_def)
  ultimately show ?thesis using r again session_parts(9) by auto
qed

end
