(* ===== verification/Formdecoder_multipart.thy ===== *)
theory Formdecoder_multipart
  imports Formdecoder_fastcgi
begin

section \<open>Multipart forms from the stream to the fields (\<^verbatim>\<open>src/formdecoder_fastcgi.c\<close>)\<close>

text \<open>
  What \<^verbatim>\<open>formdecoder_decodefcgirequest\<close> makes of a multipart body: the pieces the stream is read
  in, the events the MIME decoder finds in them, and the form those events build. It ends on
  every finite stream, gives back the fields that were sent, and leaves no file or descriptor behind.
\<close>

subsection \<open>The MIME decoder\<close>

text \<open>Events handed to a callback, up to the first it refuses.\<close>

fun run_callback :: "('e \<Rightarrow> 's \<Rightarrow> (int \<times> 's) option) \<Rightarrow> 'e list \<Rightarrow> 's \<Rightarrow> (int \<times> 's) option" where
  "run_callback cb [] s = Some (0, s)"
| "run_callback cb (e # es) s =
     (case cb e s of
        None \<Rightarrow> None
      | Some (rc, s) \<Rightarrow> if rc \<noteq> 0 then Some (rc, s) else run_callback cb es s)"

text \<open>
  The decoder as a parser that a callback listens to: \<open>feed\<close> gives the events in a piece of the
  body, the decoder's own code and its next state, \<open>flush\<close> what is left at the end. The callback
  is given the events in order, and its refusal is returned.
\<close>

definition mime_laws ::
  "('mi, 's) mime_ops \<Rightarrow> ('mi \<Rightarrow> string \<Rightarrow> mime_event list \<times> int \<times> 'mi) \<Rightarrow> ('mi \<Rightarrow> mime_event list \<times> int) \<Rightarrow> bool" where
  "mime_laws M feed flush \<longleftrightarrow>
     (\<forall>cb mi s st. mimedecoder_decode M cb mi s st =
        (case feed mi s of (es, code, mi') \<Rightarrow>
           map_option (\<lambda>(rc, st'). (if rc \<noteq> 0 then rc else code, mi', st')) (run_callback cb es st))) \<and>
     (\<forall>cb mi st. mimedecoder_finalise M cb mi st =
        (case flush mi of (es, code) \<Rightarrow>
           map_option (\<lambda>(rc, st'). (if rc \<noteq> 0 then rc else code, st')) (run_callback cb es st)))"

lemma mime_lawsD:
  assumes "mime_laws M feed flush"
  shows "mimedecoder_decode M cb mi s st =
      (case feed mi s of (es, code, mi') \<Rightarrow>
         map_option (\<lambda>(rc, st'). (if rc \<noteq> 0 then rc else code, mi', st')) (run_callback cb es st))"
    "mimedecoder_finalise M cb mi st =
      (case flush mi of (es, code) \<Rightarrow>
         map_option (\<lambda>(rc, st'). (if rc \<noteq> 0 then rc else code, st')) (run_callback cb es st))"
  using assms by (simp_all add: mime_laws_def)

fun feed_all :: "('mi \<Rightarrow> string \<Rightarrow> mime_event list \<times> int \<times> 'mi) \<Rightarrow> 'mi \<Rightarrow> string list \<Rightarrow> mime_event list \<times> int \<times> 'mi" where
  "feed_all feed mi [] = ([], 0, mi)"
| "feed_all feed mi (c # cs) =
     (case feed mi c of (es, code, mi) \<Rightarrow>
        if code \<noteq> 0 then (es, code, mi) else apfst ((@) es) (feed_all feed mi cs))"

definition body_events ::
  "('mi \<Rightarrow> string \<Rightarrow> mime_event list \<times> int \<times> 'mi) \<Rightarrow> ('mi \<Rightarrow> mime_event list \<times> int) \<Rightarrow> 'mi \<Rightarrow> string list \<Rightarrow>
   mime_event list \<times> int" where
  "body_events feed flush mi chunks =
     (case feed_all feed mi chunks of (es, code, mi) \<Rightarrow> if code \<noteq> 0 then (es, code) else apfst ((@) es) (flush mi))"

text \<open>A body in the pieces it may be read in.\<close>

definition pieces :: "string list \<Rightarrow> string \<Rightarrow> bool" where
  "pieces chunks s \<longleftrightarrow> concat chunks = s \<and> [] \<notin> set chunks"

lemma pieces_simps [simp]: "pieces [] s \<longleftrightarrow> s = []" "pieces (c # cs) s \<longleftrightarrow> c \<noteq> [] \<and> (\<exists>t. s = c @ t \<and> pieces cs t)"
  by (auto simp: pieces_def)

lemma pieces_exist: "\<exists>cs. pieces cs s"
  by (cases "s = []") (auto intro: exI [of _ "[]"] exI [of _ "[s]"])

lemma run_callback_append:
  "run_callback cb (es @ es') s =
     (case run_callback cb es s of
        None \<Rightarrow> None
      | Some (rc, s) \<Rightarrow> if rc \<noteq> 0 then Some (rc, s) else run_callback cb es' s)"
  by (induction es arbitrary: s) (auto split: option.split)

text \<open>With the callback of the form decoder these are its events.\<close>

lemma run_callback_events:
  "run_callback (mime_callback env) es (ctx, w) = run_events (form_dyn env) (form_map env) (form_files env) es ctx w"
  by (induction es arbitrary: ctx w) (auto simp: mime_callback_def split: option.split)

subsection \<open>The read loop\<close>

lemma read_multipart_step:
  "read_multipart env mi st inp =
     (case form_getstr env READ_BUFFER_SIZE inp of (s, inp) \<Rightarrow>
        if s = [] then Some (0, mi, st, inp)
        else
          (case mimedecoder_decode (form_mime env) (mime_callback env) mi s st of
             None \<Rightarrow> None
           | Some (rc, mi, st) \<Rightarrow> if rc \<noteq> 0 then Some (rc, mi, st, inp) else read_multipart env mi st inp))"
  by (subst read_multipart.simps) (auto split: prod.split)

lemma feed_all_first:
  assumes "feed mi s = (es, code, mi1)"
  obtains es' code' mi' where "feed_all feed mi (s # cs) = (es @ es', code', mi')"
    "code \<noteq> 0 \<Longrightarrow> es' = [] \<and> code' = code \<and> mi' = mi1"
  using assms by (cases "feed_all feed mi1 cs"; cases "code = 0") (auto simp: apfst_def map_prod_def)

lemma read_multipart_result:
  assumes "stream_laws (form_getstr env) rest" "mime_laws (form_mime env) feed flush"
  shows "\<exists>chunks mi'' inp'. pieces chunks (rest inp) \<and>
    (case feed_all feed mi chunks of (es, code, mi') \<Rightarrow>
       read_multipart env mi st inp =
         map_option (\<lambda>(rc, st'). (if rc \<noteq> 0 then rc else code, if rc \<noteq> 0 then mi'' else mi', st', inp'))
           (run_callback (mime_callback env) es st))"
proof (induction "length (rest inp)" arbitrary: mi st inp rule: less_induct)
  case less
  obtain s inp1 where g: "form_getstr env READ_BUFFER_SIZE inp = (s, inp1)" by fastforce
  with assms(1) have s: "rest inp = s @ rest inp1" "s = [] \<Longrightarrow> READ_BUFFER_SIZE = 0 \<or> rest inp = []"
    unfolding stream_laws_def by blast+
  show ?case
  proof (cases "s = []")
    case True
    with g s show ?thesis
      by (intro exI [of _ "[]"]) (simp add: read_multipart_step [of env mi] READ_BUFFER_SIZE_def)
  next
    case False
    obtain es code mi1 where f: "feed mi s = (es, code, mi1)" by (metis prod_cases3)
    have d: "mimedecoder_decode (form_mime env) (mime_callback env) mi s st =
        map_option (\<lambda>(rc, st'). (if rc \<noteq> 0 then rc else code, mi1, st')) (run_callback (mime_callback env) es st)"
      by (simp add: mime_lawsD [OF assms(2)] f)
    show ?thesis
    proof (cases "\<exists>st1. run_callback (mime_callback env) es st = Some (0, st1) \<and> code = 0")
      case True
      then obtain st1 where c: "run_callback (mime_callback env) es st = Some (0, st1)" "code = 0" by blast
      have "length (rest inp1) < length (rest inp)" using s(1) False by simp
      from less [OF this, of mi1 st1] obtain cs mi'' inp' where
        "pieces cs (rest inp1)" and r: "case feed_all feed mi1 cs of (es, code, mi') \<Rightarrow>
          read_multipart env mi1 st1 inp1 =
            map_option (\<lambda>(rc, st'). (if rc \<noteq> 0 then rc else code, if rc \<noteq> 0 then mi'' else mi', st', inp'))
              (run_callback (mime_callback env) es st1)"
        by (elim exE conjE) (rule that)
      moreover have "read_multipart env mi st inp = read_multipart env mi1 st1 inp1"
        using g False d c by (simp add: read_multipart_step [of env mi])
      ultimately show ?thesis using s(1) False f c
        by (intro exI [of _ "s # cs"] exI [of _ mi''] exI [of _ inp']) (auto simp: run_callback_append split: prod.splits)
    next
      case stop: False
      obtain cs where cs: "pieces cs (rest inp1)" using pieces_exist by blast
      obtain es' code' mi' where
        r: "feed_all feed mi (s # cs) = (es @ es', code', mi')" "code \<noteq> 0 \<Longrightarrow> es' = [] \<and> code' = code \<and> mi' = mi1"
        by (rule feed_all_first [where feed = feed and cs = cs, OF f]) (rule that, assumption, blast)
      have "read_multipart env mi st inp =
          map_option (\<lambda>(rc, st'). (if rc \<noteq> 0 then rc else code, mi1, st', inp1)) (run_callback (mime_callback env) es st)"
        using g False d stop by (auto simp: read_multipart_step [of env mi] split: option.split)
      then show ?thesis using s(1) False cs r stop
        by (intro exI [of _ "s # cs"] exI [of _ mi1] exI [of _ inp1])
          (auto simp: run_callback_append simp del: feed_all.simps split: option.splits prod.splits)
    qed
  qed
qed


subsection \<open>The whole body\<close>

lemma decode_multipart_events:
  assumes "stream_laws (form_getstr env) rest" "mime_laws (form_mime env) feed flush" "buffer_malloc_ok env"
    and "formdecoder_init (form_dyn env) (form_map env) (init_malloc_ok env) = Some ctx0"
    and "mimedecoder_initsimple (form_mime env) = Some mi0"
    and "mimedecoder_setcontenttype (form_mime env) (set_max_size (form_mime env) max_size mi0) (content_type req) = (0, mi1)"
  obtains chunks es code inp' where "pieces chunks (rest (body req))"
    "body_events feed flush (set_body_state (form_mime env) mi1) chunks = (es, code)"
    "formdecoder_decodefcgirequest_multipart env req max_size ei w =
       (case run_events (form_dyn env) (form_map env) (form_files env) es (ctx0\<lparr>save_files := True\<rparr>) w of
          None \<Rightarrow> None
        | Some (rc, ctx, w') \<Rightarrow>
            if rc \<noteq> 0 \<or> code \<noteq> 0 then form_error (form_map env) ctx inp' w' ei else Some (0, Some ctx, inp', w', ei))"
proof -
  let ?run = "\<lambda>es ctx w. run_events (form_dyn env) (form_map env) (form_files env) es ctx w"
  let ?mi = "set_body_state (form_mime env) mi1" and ?ctx = "ctx0\<lparr>save_files := True\<rparr>"
  from read_multipart_result [OF assms(1,2), of "body req" ?mi "(?ctx, w)"] obtain chunks mi'' inp' where
    p: "pieces chunks (rest (body req))" and
    r: "case feed_all feed ?mi chunks of (es, code, mi') \<Rightarrow>
       read_multipart env ?mi (?ctx, w) (body req) =
         map_option (\<lambda>(rc, st'). (if rc \<noteq> 0 then rc else code, if rc \<noteq> 0 then mi'' else mi', st', inp'))
           (run_callback (mime_callback env) es (?ctx, w))"
    by (elim exE conjE) (rule that)
  obtain es code mi' where f: "feed_all feed ?mi chunks = (es, code, mi')" by (metis prod_cases3)
  note whole = that [OF p, of _ _ inp', unfolded body_events_def f prod.case]
  have "formdecoder_decodefcgirequest_multipart env req max_size ei w =
      (case ?run es ?ctx w of
         None \<Rightarrow> None
       | Some (rc, ctx, w) \<Rightarrow>
           if rc \<noteq> 0 \<or> code \<noteq> 0 then form_error (form_map env) ctx inp' w ei
           else
             (case mimedecoder_finalise (form_mime env) (mime_callback env) mi' (ctx, w) of
                None \<Rightarrow> None
              | Some (rc, ctx, w) \<Rightarrow>
                  if rc \<noteq> 0 then form_error (form_map env) ctx inp' w ei else Some (0, Some ctx, inp', w, ei)))"
    using assms(3-6) r f
    by (auto simp: formdecoder_decodefcgirequest_multipart_def run_callback_events split: option.splits)
  note step = this
  show thesis
  proof (cases "code = 0")
    case False
    then show ?thesis using step by (intro whole [of es code]) (auto split: option.splits)
  next
    case True
    obtain es2 code2 where l: "flush mi' = (es2, code2)" by fastforce
    show ?thesis
      using step True l
      by (intro whole [of "es @ es2" code2])
        (auto simp: mime_lawsD [OF assms(2)] run_callback_events run_append split: option.splits)
  qed
qed


subsection \<open>Descriptors and temporary files of a request\<close>

definition restores :: "world \<Rightarrow> world \<Rightarrow> bool" where
  "restores w w' \<longleftrightarrow> open_fds w' = open_fds w \<and> temp_files w' = temp_files w"

lemma restores_refl [simp]: "restores w w"
  by (simp add: restores_def)

text \<open>A refused form has left nothing behind; an accepted one owns what it holds.\<close>

definition form_kept :: "'m simplemap_ops \<Rightarrow> world \<Rightarrow> ('d, 'm, 'q, 'i) form_result \<Rightarrow> bool" where
  "form_kept S w r \<longleftrightarrow>
     (\<forall>res fdc inp w' ei. r = Some (res, fdc, inp, w', ei) \<longrightarrow>
        (case fdc of None \<Rightarrow> res \<noteq> 0 \<and> restores w w' | Some ctx \<Rightarrow> res = 0 \<and> form_inv S w ctx w'))"

lemma form_keptD:
  assumes "form_kept S w (Some (res, fdc, inp, w', ei))"
  obtains (refused) "fdc = None" "res \<noteq> 0" "restores w w'"
  | (accepted) ctx where "fdc = Some ctx" "res = 0" "form_inv S w ctx w'"
  using assms by (cases fdc) (auto simp: form_kept_def)

lemma form_kept_simps [simp]:
  "form_kept S w None"
  "form_kept S w (Some (res, None, inp, w', ei)) \<longleftrightarrow> res \<noteq> 0 \<and> restores w w'"
  "form_kept S w (Some (res, Some ctx, inp, w', ei)) \<longleftrightarrow> res = 0 \<and> form_inv S w ctx w'"
  by (simp_all add: form_kept_def)

lemma form_error_kept:
  assumes "form_inv S w ctx w'"
  shows "form_kept S w (form_error S ctx inp w' ei)"
proof -
  from dispose_restores [OF assms] obtain w'' where
    "formdecoder_dispose S (Some ctx) w' = Some w''" "restores w w''"
    unfolding restores_def by blast
  then show ?thesis by (simp add: form_error_def)
qed

lemma urlencoded_kept:
  fixes env :: "('d, 'm, 'q, 'i, 'mi) form_env"
  assumes "simplemap_laws (form_map env)"
  shows "form_kept (form_map env) w (formdecoder_decodefcgirequest_urlencoded env req max_size ei w)"
proof (cases "formdecoder_init (form_dyn env) (form_map env) (init_malloc_ok env) :: ('d, 'm, 'q) formdecoder_context option")
  case None
  then show ?thesis by (simp add: formdecoder_decodefcgirequest_urlencoded_def)
next
  case (Some ctx)
  have inv: "form_inv (form_map env) w (ctx\<lparr>form_type := FORMDECODER_QUERYSTRING\<rparr>) w"
    "form_inv (form_map env) w (ctx\<lparr>form_type := FORMDECODER_QUERYSTRING, qsctx := q, form_buf := b\<rparr>) w" for q b
    by (rule inv_context [OF init_inv(1) [OF assms Some]]; simp)+
  then show ?thesis
    using form_error_kept [OF inv(1)]
    by (auto simp: formdecoder_decodefcgirequest_urlencoded_def Some Let_def split: option.split)
qed

definition single_dispositions ::
  "('mi \<Rightarrow> string \<Rightarrow> mime_event list \<times> int \<times> 'mi) \<Rightarrow> ('mi \<Rightarrow> mime_event list \<times> int) \<Rightarrow> string \<Rightarrow> bool" where
  "single_dispositions feed flush s \<longleftrightarrow>
     (\<forall>mi chunks. pieces chunks s \<longrightarrow> one_disposition False (fst (body_events feed flush mi chunks)))"

lemma multipart_kept:
  fixes env :: "('d, 'm, 'q, 'i, 'mi) form_env"
  assumes "simplemap_laws (form_map env)" "fresh_files (form_files env)"
    and "stream_laws (form_getstr env) rest" "mime_laws (form_mime env) feed flush"
    and "single_dispositions feed flush (rest (body req))"
  shows "form_kept (form_map env) w (formdecoder_decodefcgirequest_multipart env req max_size ei w)"
proof (cases "formdecoder_init (form_dyn env) (form_map env) (init_malloc_ok env) :: ('d, 'm, 'q) formdecoder_context option")
  case None
  then show ?thesis by (simp add: formdecoder_decodefcgirequest_multipart_def)
next
  case (Some ctx0)
  let ?ctx = "ctx0\<lparr>save_files := True\<rparr>"
  have inv: "form_inv (form_map env) w ?ctx w" "current_field ?ctx = None"
    using init_inv [OF assms(1) Some] inv_context [of _ _ ctx0 _ ?ctx] by simp_all
  note err = form_error_kept [OF inv(1)]
  show ?thesis
  proof (cases "buffer_malloc_ok env \<and> (\<exists>mi0 mi1. mimedecoder_initsimple (form_mime env) = Some mi0 \<and>
      mimedecoder_setcontenttype (form_mime env) (set_max_size (form_mime env) max_size mi0) (content_type req) = (0, mi1))")
    case False
    then show ?thesis using err
      by (auto simp: formdecoder_decodefcgirequest_multipart_def Some Let_def split: option.split prod.split)
  next
    case True
    then obtain mi0 mi1 where m: "buffer_malloc_ok env" "mimedecoder_initsimple (form_mime env) = Some mi0"
      "mimedecoder_setcontenttype (form_mime env) (set_max_size (form_mime env) max_size mi0) (content_type req) = (0, mi1)"
      by blast
    obtain chunks es code inp' where
      e: "pieces chunks (rest (body req))"
        "body_events feed flush (set_body_state (form_mime env) mi1) chunks = (es, code)" and
      d: "formdecoder_decodefcgirequest_multipart env req max_size ei w =
       (case run_events (form_dyn env) (form_map env) (form_files env) es ?ctx w of
          None \<Rightarrow> None
        | Some (rc, ctx, w') \<Rightarrow>
            if rc \<noteq> 0 \<or> code \<noteq> 0 then form_error (form_map env) ctx inp' w' ei else Some (0, Some ctx, inp', w', ei))"
      by (rule decode_multipart_events [OF assms(3,4) m(1) Some m(2,3), of ei w]) (rule that)
    have one: "one_disposition False es"
      using assms(5) e unfolding single_dispositions_def by (metis fst_conv)
    show ?thesis
    proof (cases "run_events (form_dyn env) (form_map env) (form_files env) es ?ctx w")
      case None
      then show ?thesis by (simp add: d)
    next
      case (Some res)
      obtain rc ctx w' where r: "res = (rc, ctx, w')" by (metis prod_cases3)
      have "form_inv (form_map env) w ctx w'"
        by (rule run_inv [OF assms(1,2) inv(1) one _ Some [unfolded r]]) (rule disjI2, rule inv(2))
      then show ?thesis by (simp add: d Some r form_error_kept)
    qed
  qed
qed

lemma decode_kept:
  assumes "simplemap_laws (form_map env)" "fresh_files (form_files env)"
    and "stream_laws (form_getstr env) rest" "mime_laws (form_mime env) feed flush"
    and "single_dispositions feed flush (rest (body req))"
  shows "form_kept (form_map env) w (formdecoder_decodefcgirequest env req max_size ei w)"
  using multipart_kept [OF assms] urlencoded_kept [OF assms(1)]
  by (auto simp: formdecoder_decodefcgirequest_def split: option.split)


subsection \<open>Properties\<close>

text \<open>
  C13. Decoding a posted multipart body comes to an end on any stream that ends, in whatever pieces it is read: its result
  is that of the callback run over the events the MIME decoder finds in pieces of the whole body. It is undefined only where the
  callback is, accepted when neither the callback nor the decoder refuses, uploaded files included, and otherwise
  refused through the common error exit. When the events are those of plain named parts, every
  field name has the content of its first part, other names are not found, and the fields are counted.
\<close>

theorem multipart_form_decoded:
  fixes env :: "('d, 'm, 'q, 'i, 'mi) form_env"
  assumes "stream_laws (form_getstr env) rest" "mime_laws (form_mime env) feed flush"
    and "dynstring_laws (form_dyn env)" "simplemap_laws (form_map env)"
    and "formdecoder_init (form_dyn env) (form_map env) (init_malloc_ok env) = Some ctx0"
    and "buffer_malloc_ok env" "malloc_works (form_files env)"
    and "request_method req = Some ''POST''" "content_type req = Some (''multipart/form-data'' @ params)"
    and "mimedecoder_initsimple (form_mime env) = Some mi0"
    and "mimedecoder_setcontenttype (form_mime env) (set_max_size (form_mime env) max_size mi0) (content_type req) = (0, mi1)"
  shows "\<exists>chunks es code inp. pieces chunks (rest (body req)) \<and>
    body_events feed flush (set_body_state (form_mime env) mi1) chunks = (es, code) \<and>
    formdecoder_decodefcgirequest env req max_size ei w =
      (case run_events (form_dyn env) (form_map env) (form_files env) es (ctx0\<lparr>save_files := True\<rparr>) w of
         None \<Rightarrow> None
       | Some (rc, ctx, w') \<Rightarrow>
           if rc \<noteq> 0 \<or> code \<noteq> 0 then form_error (form_map env) ctx inp w' ei else Some (0, Some ctx, inp, w', ei)) \<and>
    (\<forall>ps. es = concat (map part_events ps) \<and> code = 0 \<and> (\<forall>p\<in>set ps. plain_name (fst p)) \<longrightarrow>
      (\<exists>ctx w'. formdecoder_decodefcgirequest env req max_size ei w = Some (0, Some ctx, inp, w', ei) \<and>
        (\<forall>key. formdecoder_getfield (form_map env) (form_query env) ctx key w' =
           Some (case map_of (map (apsnd concat) ps) key of None \<Rightarrow> (-1, None) | Some v \<Rightarrow> (0, Some (length v, Some v)))) \<and>
        formdecoder_fieldcount (form_map env) ctx = length ps))"
proof -
  obtain chunks es code inp' where e: "pieces chunks (rest (body req))"
      "body_events feed flush (set_body_state (form_mime env) mi1) chunks = (es, code)"
    and m: "formdecoder_decodefcgirequest_multipart env req max_size ei w =
       (case run_events (form_dyn env) (form_map env) (form_files env) es (ctx0\<lparr>save_files := True\<rparr>) w of
          None \<Rightarrow> None
        | Some (rc, ctx, w') \<Rightarrow>
            if rc \<noteq> 0 \<or> code \<noteq> 0 then form_error (form_map env) ctx inp' w' ei else Some (0, Some ctx, inp', w', ei))"
    by (rule decode_multipart_events [OF assms(1,2,6,5,10,11), of ei w]) (rule that)
  have "formdecoder_decodefcgirequest env req max_size ei w = formdecoder_decodefcgirequest_multipart env req max_size ei w"
    using assms(8,9) by (simp add: formdecoder_decodefcgirequest_def strncmp0_def)
  note d = this [unfolded m]
  have h0: "holds_parts (form_dyn env) (form_map env) [] (ctx0\<lparr>save_files := True\<rparr>) w"
    using assms(5) dynstring_lawsD(11) [OF assms(3)]
    by (auto simp: formdecoder_init_def holds_parts_def simplemap_lawsD [OF assms(4)] split: if_splits)
  have "\<exists>ctx w'. formdecoder_decodefcgirequest env req max_size ei w = Some (0, Some ctx, inp', w', ei) \<and>
      (\<forall>key. formdecoder_getfield (form_map env) (form_query env) ctx key w' =
         Some (case map_of (map (apsnd concat) ps) key of None \<Rightarrow> (-1, None) | Some v \<Rightarrow> (0, Some (length v, Some v)))) \<and>
      formdecoder_fieldcount (form_map env) ctx = length ps"
    if ps: "es = concat (map part_events ps) \<and> code = 0 \<and> (\<forall>p\<in>set ps. plain_name (fst p))" for ps
  proof -
    from run_parts [OF assms(3,4,7) _ h0, of ps] ps obtain ctx w' where
      "run_events (form_dyn env) (form_map env) (form_files env) es (ctx0\<lparr>save_files := True\<rparr>) w = Some (0, ctx, w')"
      and h: "holds_parts (form_dyn env) (form_map env) (map (apsnd concat) ps) ctx w'"
      by auto
    with d ps holds_parts_get [OF assms(4) h] show ?thesis by simp
  qed
  with e d show ?thesis by blast
qed

text \<open>A decoder that takes the whole body as one field.\<close>

definition sample_feed :: "string \<Rightarrow> string \<Rightarrow> mime_event list \<times> int \<times> string" where
  "sample_feed mi s = ([], 0, mi @ s)"

definition sample_flush :: "string \<Rightarrow> mime_event list \<times> int" where
  "sample_flush mi = (part_events (''provider'', [mi]), 0)"

definition sample_mime :: "(string, 's) mime_ops" where
  "sample_mime = \<lparr>mimedecoder_initsimple = Some [], set_max_size = (\<lambda>_ m. m), mimedecoder_setcontenttype = (\<lambda>m _. (0, m)),
     set_body_state = (\<lambda>m. m), mimedecoder_decode = (\<lambda>_ m s st. Some (0, m @ s, st)),
     mimedecoder_finalise = (\<lambda>cb m st. run_callback cb (part_events (''provider'', [m])) st)\<rparr>"

lemma sample_mime_simps [simp]:
  "mimedecoder_initsimple sample_mime = Some []" "set_max_size sample_mime n m = m"
  "mimedecoder_setcontenttype sample_mime m s = (0, m)" "set_body_state sample_mime m = m"
  by (simp_all add: sample_mime_def)

lemma map_option_same_code: "map_option (\<lambda>(rc, st). (if rc \<noteq> 0 then rc else 0, st)) r = r"
  by (cases r) auto

lemma sample_mime_laws: "mime_laws sample_mime sample_feed sample_flush"
  by (simp add: mime_laws_def sample_mime_def sample_feed_def sample_flush_def map_option_same_code)

lemma sample_feed_all: "feed_all sample_feed mi chunks = ([], 0, mi @ concat chunks)"
  by (induction chunks arbitrary: mi) (simp_all add: sample_feed_def)

lemma sample_body_events:
  "body_events sample_feed sample_flush mi chunks = (part_events (''provider'', [mi @ concat chunks]), 0)"
  by (simp add: body_events_def sample_feed_all sample_flush_def)

definition sample_multipart_env :: "(string option, (string \<times> nat) list, string, string, string) form_env" where
  "sample_multipart_env = \<lparr>form_dyn = list_dynstring, form_map = list_simplemap, form_query = sample_query,
     form_mime = sample_mime, form_files = sample_files, form_getstr = list_getstr, make_error = Some,
     init_malloc_ok = True, buffer_malloc_ok = True\<rparr>"

lemma sample_multipart_env_simps [simp]:
  "form_dyn sample_multipart_env = list_dynstring" "form_map sample_multipart_env = list_simplemap"
  "form_mime sample_multipart_env = sample_mime" "form_files sample_multipart_env = sample_files"
  "form_getstr sample_multipart_env = list_getstr" "init_malloc_ok sample_multipart_env"
  "buffer_malloc_ok sample_multipart_env"
  by (simp_all add: sample_multipart_env_def)

theorem multipart_form_decoded_witness:
  "\<exists>ctx inp w'. formdecoder_decodefcgirequest sample_multipart_env
      \<lparr>request_method = Some ''POST'', content_type = Some ''multipart/form-data; boundary=x'', body = ''microsoft''\<rparr>
      100 None empty_world = Some (0, Some ctx, inp, w', None) \<and>
    formdecoder_getfield list_simplemap sample_query ctx ''provider'' w' = Some (0, Some (9, Some ''microsoft''))"
proof -
  let ?req = "\<lparr>request_method = Some ''POST'', content_type = Some ''multipart/form-data; boundary=x'', body = ''microsoft''\<rparr>"
  have r: "request_method ?req = Some ''POST''" "content_type ?req = Some (''multipart/form-data'' @ ''; boundary=x'')" by simp_all
  have l: "stream_laws (form_getstr sample_multipart_env) (\<lambda>s. s)" "mime_laws (form_mime sample_multipart_env) sample_feed sample_flush"
    "dynstring_laws (form_dyn sample_multipart_env)" "simplemap_laws (form_map sample_multipart_env)"
    "malloc_works (form_files sample_multipart_env)"
    by (simp_all add: list_getstr_laws sample_mime_laws list_dynstring_laws list_simplemap_laws sample_files_simps)
  obtain ctx0 :: "(string option, (string \<times> nat) list, string) formdecoder_context" where
    c: "formdecoder_init (form_dyn sample_multipart_env) (form_map sample_multipart_env) (init_malloc_ok sample_multipart_env) = Some ctx0"
    by (simp add: formdecoder_init_def)
  have m: "mimedecoder_initsimple (form_mime sample_multipart_env) = Some []"
    "mimedecoder_setcontenttype (form_mime sample_multipart_env) (set_max_size (form_mime sample_multipart_env) 100 [])
      (content_type ?req) = (0, [])" by simp_all
  obtain chunks es code inp where
    p: "pieces chunks (body ?req)" "body_events sample_feed sample_flush (set_body_state (form_mime sample_multipart_env) []) chunks = (es, code)"
    and f: "\<forall>ps. es = concat (map part_events ps) \<and> code = 0 \<and> (\<forall>p\<in>set ps. plain_name (fst p)) \<longrightarrow>
      (\<exists>ctx w'. formdecoder_decodefcgirequest sample_multipart_env ?req 100 None empty_world = Some (0, Some ctx, inp, w', None) \<and>
        (\<forall>key. formdecoder_getfield (form_map sample_multipart_env) (form_query sample_multipart_env) ctx key w' =
           Some (case map_of (map (apsnd concat) ps) key of None \<Rightarrow> (-1, None) | Some v \<Rightarrow> (0, Some (length v, Some v)))) \<and>
        formdecoder_fieldcount (form_map sample_multipart_env) ctx = length ps)"
    using multipart_form_decoded [OF l(1-4) c sample_multipart_env_simps(7) l(5) r m, of None empty_world]
    by (elim exE conjE) (rule that; assumption)
  from p have "es = concat (map part_events [(''provider'', [''microsoft''])])" "code = 0"
    by (simp_all add: sample_body_events pieces_def)
  with f [rule_format, of "[(''provider'', [''microsoft''])]"] show ?thesis
    by (auto simp: plain_name_def sample_multipart_env_def)
qed

end
