(* ===== verification/Appauth_resources.thy ===== *)
theory Appauth_resources
  imports Appauth_safety Formdecoder_multipart
begin

section \<open>Files and descriptors of the service\<close>

text \<open>
  What is left of a request in the file system and the descriptor table: the form decoder's invariant
  carried through the login handler and the router.
\<close>

lemma login_post_restores:
  assumes "\<And>w. form_kept (form_map (forms svc)) w
      (formdecoder_decodefcgirequest (forms svc) (form_request_of (fcgi_params req) (fcgi_in req)) (1024 * 1024) None w)"
    and "process_login_page_post svc mom req st = (r, out, st')" "r \<noteq> Inl Undefined"
  shows "restores (form_world st) (form_world st')"
proof (cases "formdecoder_decodefcgirequest (forms svc) (form_request_of (fcgi_params req) (fcgi_in req))
    (1024 * 1024) None (form_world st)")
  case None
  then show ?thesis using assms(2,3) by (auto simp: process_login_page_post_def)
next
  case (Some res)
  obtain rc fdc inp w ei where d: "res = (rc, fdc, inp, w, ei)" by (metis prod_cases5)
  from assms(1) [of "form_world st", unfolded Some d] show ?thesis
  proof (cases rule: form_keptD)
    case refused
    then show ?thesis using assms(2) Some d by (auto simp: process_login_page_post_def)
  next
    case (accepted fc)
    from dispose_restores [OF accepted(3)] obtain w' where
      w': "formdecoder_dispose (form_map (forms svc)) (Some fc) w = Some w'" "restores (form_world st) w'"
      unfolding restores_def by blast
    have "form_world st' = w'"
      using assms(2,3) Some d accepted(1,2) w'(1)
      by (auto simp: process_login_page_post_def Let_def split: option.splits if_splits)
    with w'(2) show ?thesis by simp
  qed
qed

subsection \<open>Properties\<close>

text \<open>
  No request leaves a file behind: on every path through the router that is defined, answered or
  not, the service has the same open descriptors and temporary files after a request as
  before it, uploads that are broken off included, when no part of the body has two
  \<^verbatim>\<open>Content-Disposition\<close> headers.
\<close>

theorem requests_release_files:
  assumes "simplemap_laws (form_map (forms svc))" "fresh_files (form_files (forms svc))"
    and "stream_laws (form_getstr (forms svc)) rest" "mime_laws (form_mime (forms svc)) piece_events last_events"
    and "single_dispositions piece_events last_events (rest (fcgi_in req))"
    and "appauth_process_request svc mom req st = (r, out, st')" "r \<noteq> Inl Undefined"
  shows "open_fds (form_world st') = open_fds (form_world st) \<and> temp_files (form_world st') = temp_files (form_world st)"
proof -
  have "restores (form_world st) (form_world st')"
    using assms(6)
  proof (cases rule: request_handled)
    case (login_post r0)
    have "single_dispositions piece_events last_events (rest (body (form_request_of (fcgi_params req) (fcgi_in req))))"
      using assms(5) by (simp add: form_request_of_def)
    note kept = decode_kept [OF assms(1-4) this]
    have "r0 \<noteq> Inl Undefined" using login_post(2) assms(7) by auto
    from login_post_restores [OF kept login_post(1) this] show ?thesis .
  next
    case (handled h)
    then show ?thesis using handler.routed_keeps by (metis restores_refl)
  qed simp
  then show ?thesis by (simp add: restores_def)
qed

text \<open>A decoder that gives up in the middle of an upload.\<close>

definition broken_events :: "string \<Rightarrow> mime_event list" where
  "broken_events s = [upload_header [(''name'', ''a''), (''filename'', ''f'')], ELEMENT_BEGIN, ELEMENT_CHUNK s]"

definition broken_feed :: "unit \<Rightarrow> string \<Rightarrow> mime_event list \<times> int \<times> unit" where
  "broken_feed mi s = (broken_events s, 5, mi)"

definition broken_flush :: "unit \<Rightarrow> mime_event list \<times> int" where
  "broken_flush mi = ([], 5)"

definition broken_mime :: "(unit, 's) mime_ops" where
  "broken_mime = \<lparr>mimedecoder_initsimple = Some (), set_max_size = (\<lambda>_ m. m), mimedecoder_setcontenttype = (\<lambda>m _. (0, m)),
     set_body_state = (\<lambda>m. m),
     mimedecoder_decode = (\<lambda>cb m s st. map_option (\<lambda>(rc, st'). (if rc \<noteq> 0 then rc else 5, m, st')) (run_callback cb (broken_events s) st)),
     mimedecoder_finalise = (\<lambda>_ _ st. Some (5, st))\<rparr>"

lemma broken_mime_laws: "mime_laws broken_mime broken_feed broken_flush"
  by (simp add: mime_laws_def broken_mime_def broken_feed_def broken_flush_def)

lemma broken_single: "single_dispositions broken_feed broken_flush s"
proof -
  have "one_disposition False (fst (body_events broken_feed broken_flush mi chunks))" for mi chunks
    by (cases chunks) (simp_all add: body_events_def broken_feed_def broken_flush_def broken_events_def upload_header_def)
  then show ?thesis by (simp add: single_dispositions_def)
qed

definition upload_service ::
  "(string, string, string, string option, (string \<times> nat) list, string, string, unit) service" where
  "upload_service = sample_service\<lparr>forms := sample_form_env\<lparr>form_mime := broken_mime\<rparr>\<rparr>"

definition sample_upload :: "string FCGX_Request" where
  "sample_upload = \<lparr>fcgi_params = (fcgi_params sample_post)(''CONTENT_TYPE'' \<mapsto> ''multipart/form-data; boundary=x''), fcgi_in = ''xy''\<rparr>"

lemma upload_laws:
  "simplemap_laws (form_map (forms upload_service))" "fresh_files (form_files (forms upload_service))"
  "stream_laws (form_getstr (forms upload_service)) (\<lambda>s. s)"
  "mime_laws (form_mime (forms upload_service)) broken_feed broken_flush"
  by (simp_all add: upload_service_def sample_form_env_def list_simplemap_laws sample_files_fresh list_getstr_laws broken_mime_laws)

lemma broken_upload:
  "\<exists>st'. process_login_page_post upload_service sample_moment sample_upload sample_start = (Inr 0, [], st')"
proof -
  let ?env = "forms upload_service" and ?req = "form_request_of (fcgi_params sample_upload) (fcgi_in sample_upload)"
  have e: "form_dyn ?env = list_dynstring" "form_map ?env = list_simplemap" "form_files ?env = sample_files"
    "buffer_malloc_ok ?env" "init_malloc_ok ?env" "form_mime ?env = broken_mime"
    by (simp_all add: upload_service_def sample_form_env_def)
  obtain ctx0 :: "(string option, (string \<times> nat) list, string) formdecoder_context" where
    i: "formdecoder_init (form_dyn ?env) (form_map ?env) (init_malloc_ok ?env) = Some ctx0"
    and c0: "current_field ctx0 = None" "form_fields ctx0 = []" "\<not> ds_allocated list_dynstring (current_field_data ctx0)"
    using e dynstring_lawsD(11) [OF list_dynstring_laws] by (simp add: formdecoder_init_def list_simplemap_def)
  have m: "mimedecoder_initsimple (form_mime ?env) = Some ()"
    "mimedecoder_setcontenttype (form_mime ?env) (set_max_size (form_mime ?env) (1024 * 1024) ()) (form_request.content_type ?req) = (0, ())"
    by (simp_all add: e broken_mime_def)
  obtain chunks es code inp' where p: "pieces chunks (body ?req)"
      "body_events broken_feed broken_flush (set_body_state (form_mime ?env) ()) chunks = (es, code)"
    and d: "formdecoder_decodefcgirequest_multipart ?env ?req (1024 * 1024) None empty_world =
       (case run_events (form_dyn ?env) (form_map ?env) (form_files ?env) es (ctx0\<lparr>save_files := True\<rparr>) empty_world of
          None \<Rightarrow> None
        | Some (rc, ctx, w') \<Rightarrow>
            if rc \<noteq> 0 \<or> code \<noteq> 0 then form_error (form_map ?env) ctx inp' w' None else Some (0, Some ctx, inp', w', None))"
    by (rule decode_multipart_events [OF upload_laws(3,4) e(4) i m, of None empty_world]) (rule that)
  obtain c cs where c: "chunks = c # cs" using p(1) by (cases chunks) (auto simp: form_request_of_def sample_upload_def)
  have es: "es = broken_events c" "code = 5" using p(2) c by (simp_all add: body_events_def broken_feed_def)
  have "plain_name ''a''" "plain_name ''f''" by (simp_all add: plain_name_def)
  note h = upload_header_new [OF list_dynstring_laws this, of "ctx0\<lparr>save_files := True\<rparr>" sample_files empty_world "''/tmp/a''" 7 list_simplemap]
  have "\<exists>ctx w'. run_events list_dynstring list_simplemap sample_files es (ctx0\<lparr>save_files := True\<rparr>) empty_world =
      Some (0, ctx, w') \<and> formdecoder_dispose list_simplemap (Some ctx) w' \<noteq> None"
    using h c0
    by (simp add: es broken_events_def sample_files_simps empty_world_def alloc_def store_field_def
        formdecoder_mimedecoder_callback_def begin_event_def chunk_event_def zero_field_def formdecoder_dispose_def
        formdecoder_dispose_formfield_def list_simplemap_simps Let_def)
  then have "\<exists>w'. formdecoder_decodefcgirequest_multipart ?env ?req (1024 * 1024) None empty_world =
      Some (-1, None, inp', w', None)"
    using d es(2) by (auto simp: e form_error_def)
  then show ?thesis
    by (auto simp: process_login_page_post_def formdecoder_decodefcgirequest_def form_request_of_def sample_upload_def
        sample_post_def strncmp0_def initial_state_def)
qed

lemma sample_upload_answer:
  "\<exists>st'. appauth_process_request upload_service sample_moment sample_upload sample_start = (Inr 0, [], st')"
proof -
  obtain ctx where "fcgx_prepare_request_context upload_service sample_moment sample_upload = Inr ctx"
    by (rule request_prepared [of sample_upload]) (auto simp: sample_upload_def sample_post_def)
  then show ?thesis
    using broken_upload by (auto simp: appauth_process_request_def sample_upload_def sample_post_def routed_def)
qed

theorem requests_release_files_witness:
  "\<exists>out st'. appauth_process_request upload_service sample_moment sample_upload sample_start = (Inr 0, out, st') \<and>
    open_fds (form_world st') = {0, 1, 2} \<and> temp_files (form_world st') = Map.empty"
proof -
  obtain st' where r: "appauth_process_request upload_service sample_moment sample_upload sample_start = (Inr 0, [], st')"
    using sample_upload_answer by blast
  have "single_dispositions broken_feed broken_flush (fcgi_in sample_upload)" by (rule broken_single)
  from requests_release_files [OF upload_laws this r] show ?thesis
    using r by (auto simp: initial_state_def empty_world_def)
qed

end
