(* ===== verification/Authmain.thy ===== *)
theory Authmain
  imports Appauth_cookies Appauth_resources Jwks_book
begin

section \<open>The main program (\<^verbatim>\<open>appsrc/auth.cpp\<close>)\<close>

text \<open>
  The whole life of \<^verbatim>\<open>authmain\<close>: the templates are read before \<^verbatim>\<open>main\<close>, the key store and the database are
  set up, and the accept loop hands every request to the router. What holds of single requests is
  lifted here to whatever the program is asked.
\<close>

subsection \<open>The code\<close>

text \<open>One round of the loop: the result of \<^verbatim>\<open>FCGX_Accept_r\<close>, and what the request finds.\<close>

record 'i round =
  accept_rc :: int
  round_moment :: moment
  round_request :: "'i FCGX_Request"

text \<open>
  How the program ends; \<open>Waiting\<close> is a program whose list of rounds is used up, so that it
  waits in \<^verbatim>\<open>FCGX_Accept_r\<close>.
\<close>

datatype program_end = Returns int | Escapes exn | Waiting

fun accept_loop ::
  "('alg, 'v, 'j, 'd, 'm, 'q, 'i, 'mi) service \<Rightarrow> 'v app_state \<Rightarrow> 'i round list \<Rightarrow>
   program_end \<times> fcgi_event list list \<times> 'v app_state" where
  "accept_loop svc st [] = (Waiting, [], st)"
| "accept_loop svc st (r # rounds) =
     (if accept_rc r \<noteq> 0 then (Returns 0, [], st)
      else case appauth_process_request svc (round_moment r) (round_request r) st of
        (Inl e, out, st) \<Rightarrow> (Escapes e, [out], st)
      | (Inr rc, out, st) \<Rightarrow>
          if rc \<noteq> 0 then (Returns 0, [out], st)
          else (case accept_loop svc st rounds of (x, outs, st) \<Rightarrow> (x, out # outs, st)))"

text \<open>What the program finds when it is started.\<close>

record boot_env =
  startup_env :: jwks_env
  template_file :: "string \<Rightarrow> string option option"
  file_exists :: "string \<Rightarrow> bool"
  init_statements :: "database \<Rightarrow> database"
  site_config :: site_texts
  request_malloc_ok :: bool

text \<open>
  The two page templates are static objects made from files; \<^verbatim>\<open>*\<close> of an empty optional is undefined. Their
  variables are set by \<^verbatim>\<open>application_template_init\<close>.
\<close>

definition page_templates :: "boot_env \<Rightarrow> exn + TemplateEngine \<times> TemplateEngine" where
  "page_templates env =
     (case (FromFile (template_file env) ''htdocs/login_template.html'',
            FromFile (template_file env) ''htdocs/logout_template.html'') of
        (Some login, Some logout) \<Rightarrow> Inr (login, logout)
      | _ \<Rightarrow> Inl Undefined)"

definition with_templates ::
  "boot_env \<Rightarrow> TemplateEngine \<times> TemplateEngine \<Rightarrow> ('alg, 'v, 'j, 'd, 'm, 'q, 'i, 'mi) service \<Rightarrow>
   ('alg, 'v, 'j, 'd, 'm, 'q, 'i, 'mi) service" where
  "with_templates env pages svc =
     svc\<lparr>login_page := application_template_init (site_config env) (fst pages),
         logout_page := application_template_init (site_config env) (snd pages)\<rparr>"

definition authmain ::
  "('alg, 'v, 'j, 'd, 'm, 'q, 'i, 'mi) service \<Rightarrow> boot_env \<Rightarrow> database \<Rightarrow> world \<Rightarrow> 'i round list \<Rightarrow>
   program_end \<times> fcgi_event list list \<times> 'v app_state \<times> database" where
  "authmain svc env db w rounds =
     (case page_templates env of
        Inl e \<Rightarrow> (Escapes e, [], initial_state Map.empty w, db)
      | Inr pages \<Rightarrow>
          (case auth_startup (jwt_lib svc) (parse_json svc) (startup_env env) of
             Inl e \<Rightarrow> (Escapes e, [], initial_state Map.empty w, db)
           | Inr stores \<Rightarrow>
               let db = snd (application_database_init (file_exists env) (init_statements env) ''data/filemanager.db'' db)
               in if \<not> request_malloc_ok env then (Returns 1, [], initial_state stores w, db)
                  else (case accept_loop (with_templates env pages svc) (initial_state stores w) rounds of
                          (x, outs, st) \<Rightarrow> (x, outs, st, db))))"

subsection \<open>Its requests are those of the service\<close>

lemma with_templates_simps [simp]:
  "jwt_lib (with_templates env pages svc) = jwt_lib svc" "parse_json (with_templates env pages svc) = parse_json svc"
  "serialize_json (with_templates env pages svc) = serialize_json svc" "forms (with_templates env pages svc) = forms svc"
  "config (with_templates env pages svc) = config svc" "timefn_format (with_templates env pages svc) = timefn_format svc"
  by (simp_all add: with_templates_def)

lemma serving_after:
  assumes "appauth_process_request svc mom req st = (Inr 0, out, st1)" "serving svc st1 st2"
  shows "serving svc st st2"
  using assms(2,1) by (induction rule: serving.induct) (blast intro: serving.intros)+

lemma router_returns_zero:
  assumes "appauth_process_request svc mom req st = (Inr rc, out, st')"
  shows "rc = 0"
  using assms
proof (cases rule: request_handled)
  case (login_post r0)
  then show ?thesis by (cases r0) auto
next
  case (handled h)
  then show ?thesis using handler.routed_finishes by fastforce
qed auto

text \<open>A round of the loop, as far as it gets.\<close>

lemma accept_loop_Cons:
  assumes "accept_loop svc st (r # rounds) = (x, outs, st')"
  obtains (refused) "accept_rc r \<noteq> 0" "x = Returns 0" "outs = []" "st' = st"
  | (raised) e out where "accept_rc r = 0" "appauth_process_request svc (round_moment r) (round_request r) st = (Inl e, out, st')"
      "x = Escapes e" "outs = [out]"
  | (served) out st1 outs' where "accept_rc r = 0"
      "appauth_process_request svc (round_moment r) (round_request r) st = (Inr 0, out, st1)"
      "accept_loop svc st1 rounds = (x, outs', st')" "outs = out # outs'"
proof (cases "accept_rc r = 0")
  case False
  then show ?thesis using assms refused by simp
next
  case True
  obtain res out st1 where p: "appauth_process_request svc (round_moment r) (round_request r) st = (res, out, st1)"
    by (metis prod_cases3)
  show ?thesis
  proof (cases res)
    case (Inl e)
    then show ?thesis using assms True p raised by simp
  next
    case (Inr rc)
    with p have "rc = 0" using router_returns_zero by simp
    then show ?thesis using assms True p Inr served by (simp split: prod.splits)
  qed
qed

lemma accept_loop_request:
  assumes "accept_loop svc st rounds = (x, outs, st')" "i < length outs"
  obtains r st1 st2 where "i < length rounds" "serving svc st st1"
    "appauth_process_request svc (round_moment (rounds ! i)) (round_request (rounds ! i)) st1 = (r, outs ! i, st2)"
    "\<And>rc. r = Inr rc \<Longrightarrow> rc = 0" "r \<noteq> Inr 0 \<Longrightarrow> (\<exists>e. x = Escapes e) \<and> Suc i = length outs"
proof -
  have "\<exists>r st1 st2. i < length rounds \<and> serving svc st st1 \<and>
    appauth_process_request svc (round_moment (rounds ! i)) (round_request (rounds ! i)) st1 = (r, outs ! i, st2) \<and>
    (\<forall>rc. r = Inr rc \<longrightarrow> rc = 0) \<and> (r \<noteq> Inr 0 \<longrightarrow> (\<exists>e. x = Escapes e) \<and> Suc i = length outs)"
    using assms
  proof (induction rounds arbitrary: st outs i)
    case (Cons r rounds)
    from Cons.prems(1) show ?case
    proof (cases rule: accept_loop_Cons)
      case (raised e out)
      with Cons.prems(2) show ?thesis using serving.started by fastforce
    next
      case (served out st1 outs')
      show ?thesis
      proof (cases i)
        case 0
        with served show ?thesis using serving.started by fastforce
      next
        case (Suc j)
        from Cons.IH [OF served(3), of j] Cons.prems(2) Suc served(4) obtain q s1 s2 where
          "j < length rounds" "serving svc st1 s1"
          "appauth_process_request svc (round_moment (rounds ! j)) (round_request (rounds ! j)) s1 = (q, outs' ! j, s2)"
          "\<forall>rc. q = Inr rc \<longrightarrow> rc = 0" "q \<noteq> Inr 0 \<longrightarrow> (\<exists>e. x = Escapes e) \<and> Suc j = length outs'"
          by auto
        with Suc served(4) show ?thesis
          by (intro exI [of _ q] exI [of _ s1] exI [of _ s2] conjI serving_after [OF served(2)]) simp_all
      qed
    qed (use Cons.prems in simp)
  qed simp
  then show ?thesis using that by blast
qed

text \<open>The same of the whole program.\<close>

lemma authmain_cases:
  assumes "authmain svc env db w rounds = (x, outs, st, db')"
  obtains (unbooted) e where "x = Escapes e" "outs = []" "form_world st = w"
  | (no_memory) "x = Returns 1" "outs = []" "form_world st = w" "\<not> request_malloc_ok env"
  | (looped) pages stores where "auth_startup (jwt_lib svc) (parse_json svc) (startup_env env) = Inr stores"
      "accept_loop (with_templates env pages svc) (initial_state stores w) rounds = (x, outs, st)"
  using assms by (auto simp: authmain_def initial_state_def Let_def split: sum.splits if_splits prod.splits)

lemma accept_loop_end:
  assumes "accept_loop svc st rounds = (x, outs, st')"
  shows "case x of
      Waiting \<Rightarrow> length outs = length rounds \<and> (\<forall>r \<in> set rounds. accept_rc r = 0)
    | Returns n \<Rightarrow> n = 0 \<and> length outs < length rounds \<and> accept_rc (rounds ! length outs) \<noteq> 0
    | Escapes e \<Rightarrow> outs \<noteq> []"
  using assms
proof (induction rounds arbitrary: st outs)
  case (Cons r rounds)
  from Cons.prems show ?case
  proof (cases rule: accept_loop_Cons)
    case (served out st1 outs')
    with Cons.IH [OF served(3)] show ?thesis by (auto split: program_end.splits)
  qed simp_all
qed auto

text \<open>What a request leaves in the world the loop leaves, unless the loop ends in undefined behaviour.\<close>

lemma accept_loop_world:
  assumes "accept_loop svc st rounds = (x, outs, st')" "x \<noteq> Escapes Undefined"
    and "\<And>r st1 res out st2. r \<in> set rounds \<Longrightarrow>
      appauth_process_request svc (round_moment r) (round_request r) st1 = (res, out, st2) \<Longrightarrow> res \<noteq> Inl Undefined \<Longrightarrow>
      restores (form_world st1) (form_world st2)"
  shows "restores (form_world st) (form_world st')"
  using assms
proof (induction rounds arbitrary: st outs)
  case (Cons r rounds)
  note step = Cons.prems(3) [of r]
  from Cons.prems(1) show ?case
  proof (cases rule: accept_loop_Cons)
    case (raised e out)
    with step [OF _ raised(2)] Cons.prems(2) show ?thesis by simp
  next
    case (served out st1 outs')
    have "restores (form_world st) (form_world st1)" using step [OF _ served(2)] by simp
    moreover have "restores (form_world st1) (form_world st')"
      by (rule Cons.IH [OF served(3) Cons.prems(2)]) (rule Cons.prems(3); simp)
    ultimately show ?thesis by (simp add: restores_def)
  qed simp
qed simp

subsection \<open>Properties\<close>

text \<open>
  C1. Whatever \<^verbatim>\<open>authmain\<close> is asked after it was started, the \<^verbatim>\<open>auth\<close> cookie is given only to trusted tokens:
  every line that sets a cookie in the header of any of its answers, all bytes of the answer taken together,
  either expires a cookie or gives \<^verbatim>\<open>auth\<close> a token that the verifier of a complete JWK accepts at the time of
  that request and that names a user. The one exception is a request whose \<^verbatim>\<open>state\<close> argument has a valid tag and a line
  break, which is written into the header as it is.
\<close>

theorem authmain_gives_trusted_cookies:
  assumes "authmain svc env db w rounds = (x, outs, st, db')"
    and "dynstring_laws (dyn svc)" "encoder_laws (dyn svc) html url" "line_safe svc html url"
    and "\<And>r. r \<in> set rounds \<Longrightarrow> header_texts (round_request r)"
    and "i < length outs" "l \<in> set (header_lines (response (outs ! i)))" "cookie_field l"
  shows "i < length rounds \<and> (expiring_line l \<or>
    (\<exists>tk. l = cookie_line tk \<and> trusted_token (jwt_lib svc) (later_now (keys_env (round_moment (rounds ! i)))) tk) \<or>
    breaking_state svc (round_moment (rounds ! i)) (round_request (rounds ! i)))"
  using assms(1)
proof (cases rule: authmain_cases)
  case (looped pages stores)
  let ?svc = "with_templates env pages svc"
  obtain r st1 st2 where q: "i < length rounds" "serving ?svc (initial_state stores w) st1"
    "appauth_process_request ?svc (round_moment (rounds ! i)) (round_request (rounds ! i)) st1 = (r, outs ! i, st2)"
    by (rule accept_loop_request [OF looped(2) assms(6)])
  have start: "auth_startup (jwt_lib ?svc) (parse_json ?svc) (startup_env env) = Inr stores" using looped(1) by simp
  have safe: "line_safe ?svc html url" "breaking_state ?svc = breaking_state svc"
    using assms(4) by (simp_all add: line_safe_def breaking_state_def fun_eq_iff)
  have "expiring_line l \<or>
      (\<exists>tk. l = cookie_line tk \<and> trusted_token (jwt_lib ?svc) (later_now (keys_env (round_moment (rounds ! i)))) tk) \<or>
      breaking_state ?svc (round_moment (rounds ! i)) (round_request (rounds ! i))"
    by (rule only_trusted_tokens_become_cookies [OF start q(2) _ _ safe(1) assms(5) q(3) assms(7,8)])
      (use assms(2,3) q(1) in simp_all)
  with q(1) safe(2) show ?thesis by simp
qed (use assms(6) in simp_all)

text \<open>The sample service as it is after its start.\<close>

definition sample_boot :: boot_env where
  "sample_boot = \<lparr>startup_env = toy_files,
     template_file = (\<lambda>f. Some (Some (if f = ''htdocs/login_template.html'' then ''login'' else ''bye''))),
     file_exists = (\<lambda>_. True), init_statements = (\<lambda>db. db), site_config = sample_site, request_malloc_ok = True\<rparr>"

abbreviation sample_db :: database where
  "sample_db \<equiv> \<lparr>users = [], groups = []\<rparr>"

lemma sample_boots:
  assumes "svc = sample_service\<lparr>forms := f\<rparr>"
  shows "authmain svc sample_boot db empty_world rounds =
    (case accept_loop svc sample_start rounds of (x, outs, st) \<Rightarrow> (x, outs, st, db))"
proof -
  have "page_templates sample_boot = Inr (new_template ''login'', new_template ''bye'')"
    by (simp add: page_templates_def sample_boot_def FromFile_def)
  moreover have "with_templates sample_boot (new_template ''login'', new_template ''bye'') svc = svc"
    by (simp add: assms with_templates_def sample_boot_def sample_service_def)
  moreover have "auth_startup (jwt_lib svc) (parse_json svc) (startup_env sample_boot) = Inr [''microsoft'' \<mapsto> sample_store]"
    using sample_startup by (simp add: assms sample_boot_def sample_parts)
  moreover have "request_malloc_ok sample_boot" "snd (application_database_init (file_exists sample_boot) i n db) = db" for i n
    by (simp_all add: sample_boot_def application_database_init_def)
  ultimately show ?thesis by (simp add: authmain_def)
qed

lemma sample_service_forms: "sample_service = sample_service\<lparr>forms := forms sample_service\<rparr>"
  by simp

definition direct_round :: "string round" where
  "direct_round = \<lparr>accept_rc = 0, round_moment = sample_moment, round_request = sample_direct\<rparr>"

theorem authmain_gives_trusted_cookies_witness:
  "\<exists>page out st. authmain sample_service sample_boot sample_db empty_world [direct_round] =
      (Waiting, [Put page # out], st, sample_db) \<and> cookie_line ''axy'' \<in> set (header_lines (response (Put page # out))) \<and>
    trusted_token toy_jwt (later_now toy_env) ''axy''"
proof -
  obtain page out st where r: "appauth_process_request sample_service sample_moment sample_direct sample_start =
      (Inr 0, Put page # out, st)" "cookie_line ''axy'' \<in> set (header_lines (response (Put page # out)))"
    using sample_direct_answer by auto
  have a: "authmain sample_service sample_boot sample_db empty_world [direct_round] = (Waiting, [Put page # out], st, sample_db)"
    using r(1) by (simp add: sample_boots [OF sample_service_forms] direct_round_def)
  have i: "0 < length [Put page # out]" by simp
  have h: "\<And>r. r \<in> set [direct_round] \<Longrightarrow> header_texts (round_request r)" by (simp add: direct_round_def sample_header_texts)
  have l: "cookie_line ''axy'' \<in> set (header_lines (response ([Put page # out] ! 0)))" using r(2) by simp
  from authmain_gives_trusted_cookies [OF a sample_laws sample_line_safe h i l cookie_line_field(1)]
  have "trusted_token toy_jwt (later_now toy_env) ''axy''"
    using cookie_line_kept sample_not_breaking by (auto simp: direct_round_def sample_parts)
  with a r(2) show ?thesis by blast
qed

text \<open>
  C7. \<^verbatim>\<open>authmain\<close> serves until it cannot: it returns 1 only when there is no memory at the start and 0 only when
  \<^verbatim>\<open>FCGX_Accept_r\<close> fails, and otherwise has answered every round, unless an exception leaves it. Every
  request it went on from was finished exactly once, by the last call, or is a posted login form that was not
  answered at all.
\<close>

theorem authmain_serves:
  assumes "authmain svc env db w rounds = (x, outs, st, db')"
  shows "(case x of
      Waiting \<Rightarrow> length outs = length rounds \<and> (\<forall>r \<in> set rounds. accept_rc r = 0)
    | Returns n \<Rightarrow> (n = 1 \<and> outs = [] \<and> \<not> request_malloc_ok env) \<or>
        (n = 0 \<and> length outs < length rounds \<and> accept_rc (rounds ! length outs) \<noteq> 0)
    | Escapes e \<Rightarrow> True) \<and>
    (\<forall>i < length outs. (\<exists>e. x = Escapes e) \<and> Suc i = length outs \<or>
      (\<exists>calls. outs ! i = calls @ [Finish] \<and> Finish \<notin> set calls) \<or>
      (outs ! i = [] \<and> fcgi_params (round_request (rounds ! i)) ''REQUEST_METHOD'' = Some ''POST'' \<and>
       fcgi_params (round_request (rounds ! i)) ''PATH_INFO'' = Some ''login''))"
  using assms
proof (cases rule: authmain_cases)
  case (looped pages stores)
  let ?svc = "with_templates env pages svc"
  have "(\<exists>calls. outs ! i = calls @ [Finish] \<and> Finish \<notin> set calls) \<or>
      (outs ! i = [] \<and> fcgi_params (round_request (rounds ! i)) ''REQUEST_METHOD'' = Some ''POST'' \<and>
       fcgi_params (round_request (rounds ! i)) ''PATH_INFO'' = Some ''login'')"
    if i: "i < length outs" and n: "\<not> ((\<exists>e. x = Escapes e) \<and> Suc i = length outs)" for i
  proof -
    obtain st1 st2 where "appauth_process_request ?svc (round_moment (rounds ! i)) (round_request (rounds ! i)) st1 =
        (Inr 0, outs ! i, st2)"
      using accept_loop_request [OF looped(2) i] n by metis
    from requests_are_finished [OF this] show ?thesis by auto
  qed
  with accept_loop_end [OF looped(2)] show ?thesis by (auto split: program_end.splits)
qed simp_all

theorem authmain_serves_witness:
  "\<exists>calls st. authmain sample_service sample_boot sample_db empty_world [direct_round, direct_round\<lparr>accept_rc := -1\<rparr>] =
      (Returns 0, [calls @ [Finish]], st, sample_db) \<and> Finish \<notin> set calls"
proof -
  obtain page out st where r: "appauth_process_request sample_service sample_moment sample_direct sample_start =
      (Inr 0, Put page # out, st)"
    using sample_direct_answer by blast
  then have a: "authmain sample_service sample_boot sample_db empty_world [direct_round, direct_round\<lparr>accept_rc := -1\<rparr>] =
      (Returns 0, [Put page # out], st, sample_db)"
    by (simp add: sample_boots [OF sample_service_forms] direct_round_def)
  from authmain_serves [OF a] obtain calls where "Put page # out = calls @ [Finish]" "Finish \<notin> set calls" by auto
  with a show ?thesis by auto
qed

text \<open>
  C8. \<^verbatim>\<open>authmain\<close> leaves no file behind: whatever it is asked and however it ends, short of undefined behaviour,
  its open descriptors and temporary files are those it was started with, when no part of a
  body has two \<^verbatim>\<open>Content-Disposition\<close> headers.
\<close>

theorem authmain_releases_files:
  assumes "simplemap_laws (form_map (forms svc))" "fresh_files (form_files (forms svc))"
    and "stream_laws (form_getstr (forms svc)) rest" "mime_laws (form_mime (forms svc)) piece_events last_events"
    and "\<And>r. r \<in> set rounds \<Longrightarrow> single_dispositions piece_events last_events (rest (fcgi_in (round_request r)))"
    and "authmain svc env db w rounds = (x, outs, st, db')" "x \<noteq> Escapes Undefined"
  shows "open_fds (form_world st) = open_fds w \<and> temp_files (form_world st) = temp_files w"
  using assms(6)
proof (cases rule: authmain_cases)
  case (looped pages stores)
  have "restores (form_world (initial_state stores w)) (form_world st)"
  proof (rule accept_loop_world [OF looped(2) assms(7)], goal_cases)
    case (1 r st1 res out st2)
    from requests_release_files [of "with_templates env pages svc", unfolded with_templates_simps, OF assms(1-4) assms(5) 1(2,3)] 1(1)
    show ?case by (simp add: restores_def)
  qed
  then show ?thesis by (simp add: restores_def initial_state_def)
qed simp_all

definition upload_round :: "string round" where
  "upload_round = \<lparr>accept_rc = 0, round_moment = sample_moment, round_request = sample_upload\<rparr>"

theorem authmain_releases_files_witness:
  "\<exists>outs st. authmain upload_service sample_boot sample_db empty_world [upload_round] = (Waiting, outs, st, sample_db) \<and>
    open_fds (form_world st) = {0, 1, 2} \<and> temp_files (form_world st) = Map.empty"
proof -
  obtain st where "appauth_process_request upload_service sample_moment sample_upload sample_start = (Inr 0, [], st)"
    using sample_upload_answer by blast
  then have a: "authmain upload_service sample_boot sample_db empty_world [upload_round] = (Waiting, [[]], st, sample_db)"
    by (simp add: sample_boots [OF upload_service_def] upload_round_def)
  have "open_fds (form_world st) = open_fds empty_world \<and> temp_files (form_world st) = temp_files empty_world"
    by (rule authmain_releases_files [OF upload_laws _ a]) (simp_all add: broken_single)
  with a show ?thesis by (auto simp: empty_world_def)
qed

end
