(* ===== verification/Fileman.thy ===== *)
theory Fileman
  imports Appauth
begin

section \<open>The file manager (\<^verbatim>\<open>src/appfileman.cpp\<close>)\<close>

text \<open>
  A second FastCGI application over the same tokens: it shows the groups of the user a token
  names and lists the directories of these groups. The SQL library, \<^verbatim>\<open>filesystem.h\<close> and the
  formatted printing of \<^verbatim>\<open>libgreen\<close> are not part of the repository.
\<close>

subsection \<open>The code\<close>

record fileitem =
  file_name :: string
  file_attrs :: u32

text \<open>
  \<open>printed_int\<close> is what the libraries print for \<^verbatim>\<open>%d\<close> when they are given the
  64-bit group number.
\<close>

record ('alg, 'v, 'j, 'd, 'q) fileman_env =
  fm_jwt :: "('alg, 'v, 'j) jwt_ops"
  fm_serialize :: "json \<Rightarrow> string"
  fm_dyn :: "'d dynstring_ops"
  fm_query :: "'q querystring_ops"
  fm_malloc_ok :: bool
  printed_int :: "int \<Rightarrow> string"
  filesystemex_list :: "string \<Rightarrow> string \<Rightarrow> int \<Rightarrow> int \<Rightarrow> fileitem list"
  FILESYSTEM_ATTR_DIRECTORY :: u32
  FILESYSTEM_ATTR_SYMBOLICLINK :: u32

record 'q fileman_context =
  fm_request_method :: "string option"
  fm_script_name :: "string option"
  fm_path_info :: "string option"
  fm_document_root :: "string option"
  fm_query_string :: "string option"
  fm_request_id :: "string option"
  fm_cookie :: "char list option"
  fm_authorisation :: "string option"
  fm_qs :: "'q option"

text \<open>The flag that makes it drop both tables is a constant of the function.\<close>

definition fileman_init :: "database \<Rightarrow> int \<times> database" where
  "fileman_init db =
     (let initialise_database = True
      in (0, if initialise_database then db\<lparr>users := [], groups := []\<rparr> else db))"

text \<open>\<^verbatim>\<open>SELECT groupid FROM users WHERE username = ?\<close>, in the order of the table.\<close>

definition groups_of_user :: "database \<Rightarrow> string \<Rightarrow> int list" where
  "groups_of_user db user = map snd (filter (\<lambda>(username, groupid). username = user) (users db))"

text \<open>The user of the request's token; \<open>Undefined\<close> where the null context is read.\<close>

definition fileman_user ::
  "('alg, 'v, 'j, 'd, 'q) fileman_env \<Rightarrow> 'q fileman_context \<Rightarrow> exn + JWTUserContext" where
  "fileman_user env ctx =
     (case jwtinterface_get_token_from_cookie_or_authorization (fm_malloc_ok env) (fm_cookie ctx) (fm_authorisation ctx) of
        None \<Rightarrow> Inl Undefined
      | Some (jwt_str, _) \<Rightarrow>
          bindE (jwtinterface_getusercontext (fm_jwt env) (fm_serialize env) jwt_str) (\<lambda>user.
            case user of None \<Rightarrow> Inl Undefined | Some u \<Rightarrow> Inr u))"

definition fileman_process_index_get_request ::
  "('alg, 'v, 'j, 'd, 'q) fileman_env \<Rightarrow> 'q fileman_context \<Rightarrow> database \<Rightarrow> (exn + int) \<times> fcgi_event list" where
  "fileman_process_index_get_request env ctx db =
     (case fileman_user env ctx of
        Inl e \<Rightarrow> (Inl e, [])
      | Inr u \<Rightarrow>
          (Inr 0,
           [Put (html_lines [''Status: 200'', ''Content-Type: text/plain; charset=utf-8'', [], ''user parsed from jwt ----'',
              ''email address: ['' @ cstr (email_address u) @ '']'', ''friendly name: '' @ cstr (friendly_name u)]),
            Put (html_lines [''Group membership:''])] @
           map (\<lambda>gid. Put (html_lines [printed_int env gid])) (groups_of_user db (cstr (email_address u))) @
           [Flush, Close, Finish]))"

text \<open>It is declared and defined but no route leads to it.\<close>

definition fileman_process_index_post_request ::
  "('d, 'm, 'q, 'i, 'mi) form_env \<Rightarrow> 'i FCGX_Request \<Rightarrow> world \<Rightarrow> (exn + int) \<times> world" where
  "fileman_process_index_post_request F req w =
     (case formdecoder_decodefcgirequest F (form_request_of (fcgi_params req) (fcgi_in req)) (1024 * 1024) None w of
        None \<Rightarrow> (Inl Undefined, w)
      | Some (_, None, _, w, _) \<Rightarrow> (Inr 0, w)
      | Some (_, Some fd_ctx, _, w, _) \<Rightarrow>
          (case formdecoder_dispose (form_map F) (Some fd_ctx) w of
             None \<Rightarrow> (Inl Undefined, w)
           | Some w \<Rightarrow> (Inr 0, w)))"

text \<open>
  The names of the files go into the page as they are. \<^verbatim>\<open>file_location\<close> and
  \<^verbatim>\<open>filename\<close> are emptied and printed into, and only read back as C strings.
\<close>

definition append_file :: "('alg, 'v, 'j, 'd, 'q) fileman_env \<Rightarrow> int \<Rightarrow> fileitem \<Rightarrow> 'd \<Rightarrow> 'd" where
  "append_file env client_id file html =
     (let D = fm_dyn env;
          filename = printed_int env client_id @ ''/'' @ cstr (file_name file);
          html = (if and (file_attrs file) (FILESYSTEM_ATTR_DIRECTORY env) \<noteq> 0 then append_parts D [''DIR ''] html else html);
          html = (if and (file_attrs file) (FILESYSTEM_ATTR_SYMBOLICLINK env) \<noteq> 0 then append_parts D [''SYM ''] html else html)
      in append_parts D [''<a href=\"'', filename, ''\">'', filename, ''</a><br/>'' @ crlf] html)"

definition append_directory :: "('alg, 'v, 'j, 'd, 'q) fileman_env \<Rightarrow> int \<Rightarrow> 'd \<Rightarrow> 'd" where
  "append_directory env client_id html =
     (let file_location = ''data/'' @ printed_int env client_id @ ''/''
      in fold (append_file env client_id) (filesystemex_list env file_location file_location 1 64) html)"

definition fileman_process_list_get_request ::
  "('alg, 'v, 'j, 'd, 'q) fileman_env \<Rightarrow> 'q fileman_context \<Rightarrow> database \<Rightarrow> (exn + int) \<times> fcgi_event list" where
  "fileman_process_list_get_request env ctx db =
     (case fileman_user env ctx of
        Inl e \<Rightarrow> (Inl e, [])
      | Inr u \<Rightarrow>
          let D = fm_dyn env;
              file_listing_html = fold (append_directory env) (groups_of_user db (cstr (email_address u))) (ds_default D);
              http_headers = append_parts D
                [html_lines [''Status: 200 OK'', ''Content-Type: text/html; charset=utf-8'', []]] (ds_default D)
          in (Inr 0, [Put (ds_bytes D http_headers), Put (ds_bytes D file_listing_html), Flush, Finish]))"

definition fileman_context_of ::
  "('alg, 'v, 'j, 'd, 'q) fileman_env \<Rightarrow> (string \<Rightarrow> string option) \<Rightarrow> 'q fileman_context" where
  "fileman_context_of env param =
     \<lparr>fm_request_method = param ''REQUEST_METHOD'', fm_script_name = param ''SCRIPT_NAME'',
      fm_path_info = param ''PATH_INFO'', fm_document_root = param ''DOCUMENT_ROOT'',
      fm_query_string = param ''QUERY_STRING'', fm_request_id = param ''REQUEST_ID'',
      fm_cookie = map_option (\<lambda>s. s @ [NUL]) (param ''HTTP_COOKIE''),
      fm_authorisation = param ''HTTP_AUTHORIZATION'',
      fm_qs = querystring_decode_inplace (fm_query env) (param ''QUERY_STRING'')\<rparr>"

text \<open>
  The router. A standard exception is answered by the error page; a request of no route is
  neither answered nor finished. A null pointer is undefined where \<^verbatim>\<open>strcmp\<close> reads it; the log line
  before, which prints it, is taken to show it as text.
\<close>

definition fileman_error_page :: string where
  "fileman_error_page = html_lines [''Status: 500'', ''Content-Type: text/plain; charset=utf-8'', [],
     ''500 Internal Server Error'', ''Please see logs'']"

definition fileman_process_request ::
  "('alg, 'v, 'j, 'd, 'q) fileman_env \<Rightarrow> 'i FCGX_Request \<Rightarrow> database \<Rightarrow> (exn + int) \<times> fcgi_event list" where
  "fileman_process_request env req db =
     (let req_ctx = fileman_context_of env (fcgi_params req);
          routed = (\<lambda>(res, out).
            case res of
              Inr _ \<Rightarrow> (Inr 0, out)
            | Inl e \<Rightarrow> if std_exception e then (Inr 0, out @ [Put fileman_error_page, Flush, Close, Finish]) else (Inl e, out))
      in case fm_request_method req_ctx of
           None \<Rightarrow> (Inl Undefined, [])
         | Some meth \<Rightarrow>
             if meth = ''GET'' then
               (case fm_path_info req_ctx of
                  None \<Rightarrow> (Inl Undefined, [])
                | Some path_info \<Rightarrow>
                    if path_info = ''index'' then routed (fileman_process_index_get_request env req_ctx db)
                    else if path_info = ''list'' then routed (fileman_process_list_get_request env req_ctx db)
                    else (Inr 0, []))
             else (Inr 0, []))"

subsection \<open>What is listed\<close>

text \<open>The page as text: one line for each file of each group.\<close>

definition listing_line :: "('alg, 'v, 'j, 'd, 'q) fileman_env \<Rightarrow> int \<Rightarrow> fileitem \<Rightarrow> string" where
  "listing_line env gid file =
     (let path = printed_int env gid @ ''/'' @ cstr (file_name file)
      in (if and (file_attrs file) (FILESYSTEM_ATTR_DIRECTORY env) = 0 then [] else ''DIR '') @
         (if and (file_attrs file) (FILESYSTEM_ATTR_SYMBOLICLINK env) = 0 then [] else ''SYM '') @
         ''<a href=\"'' @ path @ ''\">'' @ path @ ''</a><br/>'' @ crlf)"

definition listing :: "('alg, 'v, 'j, 'd, 'q) fileman_env \<Rightarrow> int list \<Rightarrow> string" where
  "listing env gs = concat (map (\<lambda>gid. concat (map (listing_line env gid)
     (let dir = ''data/'' @ printed_int env gid @ ''/'' in filesystemex_list env dir dir 1 64))) gs)"

definition list_page :: "string \<Rightarrow> fcgi_event list" where
  "list_page html =
     [Put (html_lines [''Status: 200 OK'', ''Content-Type: text/html; charset=utf-8'', []]), Put html, Flush, Finish]"

lemma append_file_bytes:
  "dynstring_laws (fm_dyn env) \<Longrightarrow>
    ds_bytes (fm_dyn env) (append_file env gid file d) = ds_bytes (fm_dyn env) d @ listing_line env gid file"
  by (simp add: append_file_def listing_line_def Let_def append_parts_bytes)

lemma append_files_bytes:
  "dynstring_laws (fm_dyn env) \<Longrightarrow>
    ds_bytes (fm_dyn env) (fold (append_file env gid) files d) =
      ds_bytes (fm_dyn env) d @ concat (map (listing_line env gid) files)"
  by (induction files arbitrary: d) (simp_all add: append_file_bytes)

lemma append_directories_bytes:
  "dynstring_laws (fm_dyn env) \<Longrightarrow>
    ds_bytes (fm_dyn env) (fold (append_directory env) gs d) = ds_bytes (fm_dyn env) d @ listing env gs"
  by (induction gs arbitrary: d) (simp_all add: append_directory_def append_files_bytes listing_def Let_def)

lemma list_request_page:
  "dynstring_laws (fm_dyn env) \<Longrightarrow> fileman_user env ctx = Inr u \<Longrightarrow>
    fileman_process_list_get_request env ctx db =
      (Inr 0, list_page (listing env (groups_of_user db (cstr (email_address u)))))"
  by (simp add: fileman_process_list_get_request_def list_page_def append_directories_bytes append_parts_bytes
      dynstring_lawsD Let_def)

text \<open>The cookies of a request, as a browser writes them.\<close>

lemma fileman_user_of_cookies:
  assumes "fm_malloc_ok env" "\<forall>c\<in>set cs. cookie_ok c" "cookie_values cs ''auth'' \<noteq> []"
    "jwt_decode (fm_jwt env) (last (cookie_values cs ''auth'')) = Inr jwt"
    "payload_user (get_payload_json (fm_jwt env) jwt) = Some (email, name)" "last (cookie_values cs ''auth'') \<noteq> []"
    "fm_cookie ctx = Some (cookie_header cs @ [NUL])"
  shows "\<exists>u. fileman_user env ctx = Inr u \<and> email_address u = email"
proof -
  from token_from_header_eq [OF assms(2)] assms obtain buf where
    "jwtinterface_get_token_from_cookie_or_authorization (fm_malloc_ok env) (fm_cookie ctx) (fm_authorisation ctx) =
      Some (last (cookie_values cs ''auth''), buf)" by fastforce
  then show ?thesis using assms user_context_payload [OF assms(6,4)] by (simp add: fileman_user_def)
qed

subsection \<open>Property\<close>

text \<open>
  C38. A request for the list that carries, in its last \<^verbatim>\<open>auth\<close> cookie, any token that can
  be decoded and names a user is answered with the files of all that user's groups: the token's
  signature is not looked at. After \<^verbatim>\<open>fileman_init\<close> nobody has a group, and the list is empty.
\<close>

theorem fileman_lists_for_any_token:
  assumes "dynstring_laws (fm_dyn env)" "fm_malloc_ok env" "\<forall>c\<in>set cs. cookie_ok c"
    "fcgi_params req ''REQUEST_METHOD'' = Some ''GET''" "fcgi_params req ''PATH_INFO'' = Some ''list''"
    "fcgi_params req ''HTTP_COOKIE'' = Some (cookie_header cs)"
    "cookie_values cs ''auth'' \<noteq> []" "last (cookie_values cs ''auth'') \<noteq> []"
    "jwt_decode (fm_jwt env) (last (cookie_values cs ''auth'')) = Inr jwt"
    "payload_user (get_payload_json (fm_jwt env) jwt) = Some (email, name)"
  shows "fileman_process_request env req db = (Inr 0, list_page (listing env (groups_of_user db (cstr email)))) \<and>
    fileman_process_request env req (snd (fileman_init db)) = (Inr 0, list_page [])"
proof -
  let ?ctx = "fileman_context_of env (fcgi_params req)"
  have "fm_cookie ?ctx = Some (cookie_header cs @ [NUL])" using assms(6) by (simp add: fileman_context_of_def)
  from fileman_user_of_cookies [OF assms(2,3,7,9,10,8) this] obtain u where
    u: "fileman_user env ?ctx = Inr u" "email_address u = email" by blast
  have "fileman_process_request env req db' = (Inr 0, list_page (listing env (groups_of_user db' (cstr email))))" for db'
    using assms(4,5) list_request_page [OF assms(1) u(1)] u(2)
    by (simp add: fileman_process_request_def fileman_context_of_def Let_def)
  then show ?thesis by (simp add: fileman_init_def groups_of_user_def listing_def)
qed

text \<open>A user of group 7 whose directory holds one directory.\<close>

definition sample_fileman :: "(string, string, string, string option, string) fileman_env" where
  "sample_fileman = \<lparr>fm_jwt = toy_jwt, fm_serialize = (\<lambda>_. []), fm_dyn = list_dynstring,
     fm_query = \<lparr>querystring_decode_inplace = (\<lambda>s. s), querystring_getbykey = (\<lambda>_ _. None)\<rparr>, fm_malloc_ok = True,
     printed_int = (\<lambda>_. ''7''), filesystemex_list = (\<lambda>_ _ _ _. [\<lparr>file_name = ''sub'', file_attrs = 1\<rparr>]),
     FILESYSTEM_ATTR_DIRECTORY = 1, FILESYSTEM_ATTR_SYMBOLICLINK = 2\<rparr>"

definition sample_list_request :: "unit FCGX_Request" where
  "sample_list_request = \<lparr>fcgi_params = [''REQUEST_METHOD'' \<mapsto> ''GET'', ''PATH_INFO'' \<mapsto> ''list'',
     ''HTTP_COOKIE'' \<mapsto> cookie_header [(''auth'', ''axz'')]], fcgi_in = ()\<rparr>"

theorem fileman_lists_for_any_token_witness:
  "fileman_process_request sample_fileman sample_list_request \<lparr>users = [(''axz'', 7)], groups = []\<rparr> =
     (Inr 0, list_page (''DIR <a href=\"7/sub\">7/sub</a><br/>'' @ crlf))"
proof -
  let ?db = "\<lparr>users = [(''axz'', 7)], groups = []\<rparr>"
  have "listing sample_fileman (groups_of_user ?db (cstr ''axz'')) = ''DIR <a href=\"7/sub\">7/sub</a><br/>'' @ crlf"
    by (simp add: sample_fileman_def groups_of_user_def listing_def listing_line_def)
  moreover have "fileman_process_request sample_fileman sample_list_request ?db =
      (Inr 0, list_page (listing sample_fileman (groups_of_user ?db (cstr ''axz''))))"
    by (rule conjunct1, rule fileman_lists_for_any_token [of sample_fileman "[(''auth'', ''axz'')]" _ "''axz''" _ "''axz''"])
      (simp_all add: sample_fileman_def sample_list_request_def toy_jwt_def cookie_ok_def is_ws_def cookie_values_def
        payload_user_def claim_text_def)
  ultimately show ?thesis by (simp only:)
qed

end
