(* ===== verification/Filemannospawn.thy ===== *)
theory Filemannospawn
  imports Prelude
begin

section \<open>Starting the file manager without a spawner (\<^verbatim>\<open>appsrc/filemannospawn.cpp\<close>)\<close>

text \<open>
  The program opens its socket as root, gives the socket away, drops its privileges and serves
  requests. The kernel's idea of who the process is, its credentials, is a type parameter with the calls
  that change and read it; \<^verbatim>\<open>getopt_long\<close> is the list of options it delivers and the arguments it
  leaves. The model returns the exit status and what the process did, in order.
\<close>

subsection \<open>The code\<close>

datatype cli_option = Opt_U string | Opt_G string | Opt_N | Opt_unknown

fun parse_options :: "cli_option list \<Rightarrow> string option \<Rightarrow> string option \<Rightarrow> bool \<Rightarrow>
    (string option \<times> string option \<times> bool) option" where
  "parse_options [] username groupname drop_privileges = Some (username, groupname, drop_privileges)"
| "parse_options (Opt_U s # opts) username groupname drop_privileges = parse_options opts (Some s) groupname drop_privileges"
| "parse_options (Opt_G s # opts) username groupname drop_privileges = parse_options opts username (Some s) drop_privileges"
| "parse_options (Opt_N # opts) username groupname drop_privileges = parse_options opts username groupname False"
| "parse_options (Opt_unknown # opts) username groupname drop_privileges = None"

record 'c kernel =
  getpwnam :: "string \<Rightarrow> int option"
  getgrnam :: "string \<Rightarrow> int option"
  geteuid :: "'c \<Rightarrow> int"
  getegid :: "'c \<Rightarrow> int"
  fcgx_init :: int
  open_socket :: "string \<Rightarrow> nat \<Rightarrow> int"
  chmod_result :: int
  chown_result :: int
  initgroups :: "string \<Rightarrow> int \<Rightarrow> 'c \<Rightarrow> int \<times> 'c"
  setgid :: "int \<Rightarrow> 'c \<Rightarrow> int \<times> 'c"
  setuid :: "int \<Rightarrow> 'c \<Rightarrow> int \<times> 'c"
  sigaction_int :: int
  sigaction_term :: int
  init_request :: int

datatype 'c deed = Usage string | Open_socket string | Chmod string int | Chown string int int
  | Init_database 'c | Serve 'c | Close_socket

text \<open>The text for the user, with the name of the program.\<close>

abbreviation NL :: string where
  "NL \<equiv> [CHR 0x0A]"

definition usage :: "string \<Rightarrow> string" where
  "usage prog =
     ''Usage: '' @ prog @ '' [-U username] [-G group] [-N] <unix_socket_path>'' @ NL @ NL @
     ''Options:'' @ NL @
     ''  -U username          User to run as'' @ NL @
     ''  -G group             Group to run as'' @ NL @
     ''  -N, --no-drop        Do not change socket ownership or drop privileges'' @ NL @ NL @
     ''When -N/--no-drop is supplied, -U and -G are not required and the'' @ NL @
     ''process continues running with its current user/group privileges.'' @ NL @ NL @
     ''Examples:'' @ NL @
     ''  '' @ prog @ '' -U www-data -G www-data /run/fileman_fastcgi.sock'' @ NL @
     ''  '' @ prog @ '' -N /run/fileman_fastcgi.sock'' @ NL"

text \<open>\<^verbatim>\<open>S_IRWXU\<close>, \<^verbatim>\<open>S_IRWXG\<close> and \<^verbatim>\<open>S_IRWXO\<close>, bit by bit as the source has them.\<close>

definition socket_mode :: int where
  "socket_mode = 256 + 128 + 64 + 32 + 16 + 8 + 4 + 2 + 1"

text \<open>The signal handler sets the flag and closes the socket the loop is waiting on.\<close>

definition handle_shutdown :: "bool \<times> 'c deed list" where
  "handle_shutdown = (True, [Close_socket])"

text \<open>The flag and what the handler did, after that many signals.\<close>

fun deliver :: "nat \<Rightarrow> bool \<Rightarrow> bool \<times> 'c deed list" where
  "deliver 0 shutdown_requested = (shutdown_requested, [])"
| "deliver (Suc n) shutdown_requested =
     (case handle_shutdown of (shutdown_requested, closed) \<Rightarrow>
        case deliver n shutdown_requested of (shutdown_requested, again) \<Rightarrow> (shutdown_requested, closed @ again))"

text \<open>
  A round of the loop: the signals that came before the flag is read, those that come while
  \<^verbatim>\<open>FCGX_Accept_r\<close> waits, and its result. A request that was accepted is still served when a signal came with it.
  The end of the list is a process that is waiting, unless the flag ends the loop. After the loop the
  socket is closed, also when the handler has closed it.
\<close>

record accept_round =
  signals_before :: nat
  signals_during :: nat
  accept_rc :: int

fun serve_loop :: "'c \<Rightarrow> bool \<Rightarrow> accept_round list \<Rightarrow> 'c deed list" where
  "serve_loop c shutdown_requested [] = (if shutdown_requested then [Close_socket] else [])"
| "serve_loop c shutdown_requested (r # rounds) =
     (case deliver (signals_before r) shutdown_requested of (shutdown_requested, closed) \<Rightarrow>
        if shutdown_requested then closed @ [Close_socket]
        else (case deliver (signals_during r) shutdown_requested of (shutdown_requested, closed') \<Rightarrow>
          closed @ closed' @
          (if accept_rc r < 0 then [Close_socket] else Serve c # serve_loop c shutdown_requested rounds)))"

text \<open>
  The user and group to become; \<open>None\<close> is an error message and the end.
\<close>

definition find_ids :: "'c kernel \<Rightarrow> string \<Rightarrow> string \<Rightarrow> (int \<times> int) option" where
  "find_ids K username groupname =
     (case getpwnam K username of
        None \<Rightarrow> None
      | Some target_uid \<Rightarrow>
          (case getgrnam K groupname of None \<Rightarrow> None | Some target_gid \<Rightarrow> Some (target_uid, target_gid)))"

text \<open>Becoming the user: \<open>None\<close> when a step fails, otherwise the new credentials.\<close>

definition drop_to :: "'c kernel \<Rightarrow> string \<Rightarrow> int \<Rightarrow> int \<Rightarrow> 'c \<Rightarrow> 'c option" where
  "drop_to K username target_uid target_gid c =
     (case initgroups K username target_gid c of (rc, c) \<Rightarrow>
      if rc \<noteq> 0 then None
      else case setgid K target_gid c of (rc, c) \<Rightarrow>
      if rc \<noteq> 0 then None
      else case setuid K target_uid c of (rc, c) \<Rightarrow>
      if rc \<noteq> 0 then None
      else if geteuid K c \<noteq> target_uid \<or> getegid K c \<noteq> target_gid then None
      else Some c)"

definition run_service :: "'c kernel \<Rightarrow> 'c \<Rightarrow> accept_round list \<Rightarrow> 'c deed list" where
  "run_service K c rounds =
     Init_database c #
     (if sigaction_int K \<noteq> 0 \<or> sigaction_term K \<noteq> 0 \<or> init_request K \<noteq> 0 then [Close_socket]
      else serve_loop c False rounds)"

text \<open>Every path returns \<^verbatim>\<open>EXIT_FAILURE\<close>, a requested shutdown included.\<close>

definition filemannospawn_main ::
  "'c kernel \<Rightarrow> string \<Rightarrow> cli_option list \<Rightarrow> string list \<Rightarrow> accept_round list \<Rightarrow> 'c \<Rightarrow> int \<times> 'c deed list" where
  "filemannospawn_main K prog opts args rounds c =
     (1,
      case parse_options opts None None True of
        None \<Rightarrow> [Usage (usage prog)]
      | Some (username, groupname, drop_privileges) \<Rightarrow>
          (case args of
             [] \<Rightarrow> [Usage (usage prog)]
           | socket_path # _ \<Rightarrow>
               let opened = (\<lambda>k. if fcgx_init K \<noteq> 0 \<or> open_socket K socket_path 32 < 0 then []
                     else Open_socket socket_path # (if chmod_result K \<noteq> 0 then [] else Chmod socket_path socket_mode # k))
               in if drop_privileges then
                    (case (username, groupname) of
                       (Some username, Some groupname) \<Rightarrow>
                         if geteuid K c \<noteq> 0 then []
                         else (case find_ids K username groupname of
                             None \<Rightarrow> []
                           | Some (target_uid, target_gid) \<Rightarrow>
                               opened
                                 (if chown_result K \<noteq> 0 then [Close_socket]
                                  else Chown socket_path target_uid target_gid #
                                    (case drop_to K username target_uid target_gid c of
                                       None \<Rightarrow> [Close_socket]
                                     | Some c \<Rightarrow> run_service K c rounds)))
                     | _ \<Rightarrow> [Usage (usage prog)])
                  else opened (run_service K c rounds)))"

subsection \<open>Who serves\<close>

lemma drop_to_SomeD:
  "drop_to K username uid gid c = Some c' \<Longrightarrow> geteuid K c' = uid \<and> getegid K c' = gid \<and>
    (\<exists>c1 c2. initgroups K username gid c = (0, c1) \<and> setgid K gid c1 = (0, c2) \<and> setuid K uid c2 = (0, c'))"
  by (auto simp: drop_to_def split: prod.splits if_splits)

lemma parse_options_drop:
  "parse_options opts u g d = Some (u', g', d') \<Longrightarrow> d' \<longleftrightarrow> d \<and> Opt_N \<notin> set opts"
  by (induction opts u g d rule: parse_options.induct) auto

lemma parse_options_names:
  "parse_options opts u g d = Some (u', g', d') \<Longrightarrow>
    (u' = u \<or> (\<exists>s. u' = Some s \<and> Opt_U s \<in> set opts)) \<and> (g' = g \<or> (\<exists>s. g' = Some s \<and> Opt_G s \<in> set opts))"
  by (induction opts u g d rule: parse_options.induct) auto

text \<open>The credentials under which the process touches the database or serves a request.\<close>

fun acts_as :: "'c deed \<Rightarrow> 'c option" where
  "acts_as (Init_database c) = Some c"
| "acts_as (Serve c) = Some c"
| "acts_as _ = None"

text \<open>After a signal nothing is served but the request that came with it.\<close>

lemma deliver_eq: "deliver n flag = (flag \<or> 0 < n, replicate n Close_socket)"
  by (induction n arbitrary: flag) (simp_all add: handle_shutdown_def)

lemma serve_loop_round:
  "serve_loop c flag (r # rounds) = replicate (signals_before r) Close_socket @
     (if flag \<or> 0 < signals_before r then [Close_socket]
      else replicate (signals_during r) Close_socket @
        (if accept_rc r < 0 then [Close_socket]
         else Serve c # (if 0 < signals_during r then replicate (case rounds of [] \<Rightarrow> 0 | r # _ \<Rightarrow> signals_before r) Close_socket @ [Close_socket]
                         else serve_loop c False rounds)))"
  by (cases rounds) (simp_all add: deliver_eq)

declare serve_loop.simps(2) [simp del]

lemma serve_loop_acts: "d \<in> set (serve_loop c flag rounds) \<Longrightarrow> acts_as d = Some c' \<Longrightarrow> c' = c"
  by (induction rounds arbitrary: flag) (auto simp: serve_loop_round split: if_splits)

lemma run_service_acts: "d \<in> set (run_service K c rounds) \<Longrightarrow> acts_as d = Some c' \<Longrightarrow> c' = c"
  by (auto simp: run_service_def serve_loop_acts split: if_splits)

subsection \<open>Properties\<close>

text \<open>
  C36. Unless \<^verbatim>\<open>-N\<close> is given, the process opens the database and serves requests only after it
  started as root, took the groups, the group and the user of its options, each step with success, and
  found that its effective ids are theirs; with \<^verbatim>\<open>-N\<close> it acts under the credentials it started with.
\<close>

theorem serves_without_privileges:
  assumes "filemannospawn_main K prog opts args rounds c = (rc, deeds)" "d \<in> set deeds" "acts_as d = Some c'"
  shows "if Opt_N \<in> set opts then c' = c
    else geteuid K c = 0 \<and> (\<exists>user grp uid gid c1 c2.
      Opt_U user \<in> set opts \<and> Opt_G grp \<in> set opts \<and> getpwnam K user = Some uid \<and> getgrnam K grp = Some gid \<and>
      initgroups K user gid c = (0, c1) \<and> setgid K gid c1 = (0, c2) \<and> setuid K uid c2 = (0, c') \<and>
      geteuid K c' = uid \<and> getegid K c' = gid)"
proof -
  obtain u g dp where o: "parse_options opts None None True = Some (u, g, dp)"
    using assms by (cases "parse_options opts None None True") (auto simp: filemannospawn_main_def)
  note names = parse_options_names [OF o] and dp = parse_options_drop [OF o]
  obtain path rest where a: "args = path # rest"
    using assms o by (cases args) (auto simp: filemannospawn_main_def)
  show ?thesis
  proof (cases dp)
    case False
    then have "d \<in> set (run_service K c rounds)"
      using assms o a by (auto simp: filemannospawn_main_def Let_def split: if_splits)
    then show ?thesis using False dp run_service_acts assms(3) by fastforce
  next
    case True
    then obtain user grp where ug: "u = Some user" "g = Some grp"
      using assms o a by (auto simp: filemannospawn_main_def split: option.splits)
    have root: "geteuid K c = 0"
      using assms o a True ug by (auto simp: filemannospawn_main_def split: if_splits)
    obtain uid gid where ids: "find_ids K user grp = Some (uid, gid)"
      using assms o a True ug root by (auto simp: filemannospawn_main_def split: option.splits)
    obtain c2 where c2: "drop_to K user uid gid c = Some c2" "d \<in> set (run_service K c2 rounds)"
      using assms o a True ug root ids by (auto simp: filemannospawn_main_def Let_def split: option.splits if_splits)
    with run_service_acts assms(3) have "c' = c2" by fast
    moreover have "getpwnam K user = Some uid" "getgrnam K grp = Some gid"
      using ids by (auto simp: find_ids_def split: option.splits)
    moreover have "Opt_U user \<in> set opts" "Opt_G grp \<in> set opts" "Opt_N \<notin> set opts" using names ug True dp by auto
    ultimately show ?thesis using drop_to_SomeD [OF c2(1)] root by (simp only: if_False simp_thms) blast
  qed
qed

text \<open>A kernel whose credentials are the effective ids, and \<^verbatim>\<open>-U www -G web\<close>.\<close>

definition sample_kernel :: "(int \<times> int) kernel" where
  "sample_kernel = \<lparr>getpwnam = [''www'' \<mapsto> 33], getgrnam = [''web'' \<mapsto> 44], geteuid = fst, getegid = snd, fcgx_init = 0,
     open_socket = (\<lambda>_ _. 3), chmod_result = 0, chown_result = 0, initgroups = (\<lambda>_ _ c. (0, c)),
     setgid = (\<lambda>g c. (if fst c = 0 then (0, (fst c, g)) else (-1, c))),
     setuid = (\<lambda>u c. (if fst c = 0 then (0, (u, snd c)) else (-1, c))), sigaction_int = 0, sigaction_term = 0, init_request = 0\<rparr>"

text \<open>A request alone, and one with which a signal comes.\<close>

definition sample_rounds :: "accept_round list" where
  "sample_rounds = [\<lparr>signals_before = 0, signals_during = 0, accept_rc = 0\<rparr>, \<lparr>signals_before = 0, signals_during = 1, accept_rc = 0\<rparr>]"

theorem serves_without_privileges_witness:
  "filemannospawn_main sample_kernel ''fm'' [Opt_U ''www'', Opt_G ''web''] [''/run/s''] sample_rounds (0, 0) =
     (1, [Open_socket ''/run/s'', Chmod ''/run/s'' 511, Chown ''/run/s'' 33 44, Init_database (33, 44), Serve (33, 44),
       Close_socket, Serve (33, 44), Close_socket]) \<and>
   (\<exists>user grp uid gid. getpwnam sample_kernel user = Some uid \<and> getgrnam sample_kernel grp = Some gid \<and> (33, 44) = (uid, gid))"
proof -
  have m: "filemannospawn_main sample_kernel ''fm'' [Opt_U ''www'', Opt_G ''web''] [''/run/s''] sample_rounds (0, 0) =
     (1, [Open_socket ''/run/s'', Chmod ''/run/s'' 511, Chown ''/run/s'' 33 44, Init_database (33, 44), Serve (33, 44),
       Close_socket, Serve (33, 44), Close_socket])"
    by (simp add: filemannospawn_main_def serve_loop_round sample_rounds_def sample_kernel_def find_ids_def drop_to_def
        run_service_def socket_mode_def)
  from serves_without_privileges [OF m, of "Serve (33, 44)" "(33, 44)"] m show ?thesis
    by (auto simp: sample_kernel_def)
qed

end
