(* ===== verification/Simplestream.thy ===== *)
theory Simplestream
  imports Formdecoder_fastcgi
begin

section \<open>The small servers (\<^verbatim>\<open>appsrc/simplestream.c\<close>, \<^verbatim>\<open>appsrc/authnospawn.cpp\<close>)\<close>

text \<open>
  \<^verbatim>\<open>simplestream\<close> saves what a request sends to a file named after the second and streams ten calls of a
  callback; \<^verbatim>\<open>authnospawn\<close>, and a handler of \<^verbatim>\<open>filemannospawn\<close> that is switched off, answer with the time.
  The clock, the file system calls and the FastCGI library are parameters; \<open>None\<close> is undefined
  behaviour, a null pointer from \<^verbatim>\<open>localtime\<close> or an integer overflow.
\<close>

subsection \<open>Numbers and dates\<close>

text \<open>\<^verbatim>\<open>%0wd\<close> of \<^verbatim>\<open>printf\<close>.\<close>

definition fmt_0d :: "nat \<Rightarrow> int \<Rightarrow> string" where
  "fmt_0d w n =
     (let sign = (if n < 0 then ''-'' else []); digits = nat_text (nat \<bar>n\<bar>)
      in sign @ replicate (w - length sign - length digits) (CHR ''0'') @ digits)"

definition c_isspace :: "char \<Rightarrow> bool" where
  "c_isspace c \<longleftrightarrow> c \<in> {CHR '' '', CHR 0x09, CHR 0x0A, CHR 0x0B, CHR 0x0C, CHR 0x0D}"

definition INT_MAX :: int where
  "INT_MAX = 2147483647"

text \<open>The value must fit an \<^verbatim>\<open>int\<close>.\<close>

definition atoi :: "string \<Rightarrow> int option" where
  "atoi str =
     (let s = dropWhile c_isspace str;
          (neg, s) = (case s of
             [] \<Rightarrow> (False, s)
           | c # t \<Rightarrow> if c = CHR ''-'' then (True, t) else if c = CHR ''+'' then (False, t) else (False, s));
          n = int (dec_val (takeWhile is_digit s));
          v = (if neg then - n else n)
      in if v < - INT_MAX - 1 \<or> v > INT_MAX then None else Some v)"

record tm =
  tm_year :: int
  tm_mon :: int
  tm_mday :: int
  tm_hour :: int
  tm_min :: int
  tm_sec :: int

subsection \<open>Saving a request\<close>

text \<open>The buffer of 256 bytes takes 255 characters.\<close>

definition generate_filename :: "tm \<Rightarrow> string" where
  "generate_filename t =
     take 255 (''./requests/request_'' @ fmt_0d 4 (tm_year t + 1900) @ ''-'' @ fmt_0d 2 (tm_mon t + 1) @ ''-'' @ fmt_0d 2 (tm_mday t) @
       ''_'' @ fmt_0d 2 (tm_hour t) @ ''-'' @ fmt_0d 2 (tm_min t) @ ''-'' @ fmt_0d 2 (tm_sec t) @ ''.txt'')"

text \<open>What one save finds: the local time, and which calls succeed; a short write goes unnoticed.\<close>

record save_env =
  local_time :: "tm option"
  fopen_ok :: bool
  fwrite_taken :: "nat \<Rightarrow> nat"
  stat_dir_ok :: bool
  chown_ok :: bool

text \<open>The directory of saved requests, \<open>None\<close> when it is not there.\<close>

type_synonym files = "(string \<rightharpoonup> string) option"

text \<open>That the directory cannot be made goes unnoticed.\<close>

definition ensure_output_dir :: "bool \<Rightarrow> files \<Rightarrow> files" where
  "ensure_output_dir mkdir_ok fs =
     (case fs of None \<Rightarrow> if mkdir_ok then Some Map.empty else None | Some m \<Rightarrow> Some m)"

text \<open>The code, whether a failed change of owner was reported, and the files.\<close>

definition save_request_data :: "save_env \<Rightarrow> string \<Rightarrow> files \<Rightarrow> (int \<times> bool \<times> files) option" where
  "save_request_data env dat fs =
     (case local_time env of
        None \<Rightarrow> None
      | Some t \<Rightarrow>
          let name = generate_filename t
          in (case fs of
                None \<Rightarrow> Some (-1, False, fs)
              | Some m \<Rightarrow>
                  if \<not> fopen_ok env then Some (-1, False, fs)
                  else
                    let m = m(name \<mapsto> take (fwrite_taken env (length dat)) dat)
                    in if \<not> stat_dir_ok env then Some (-1, False, Some (m(name := None)))
                       else Some (0, \<not> chown_ok env, Some m)))"

subsection \<open>The stream\<close>

text \<open>\<^verbatim>\<open>strstr\<close>: the text from the first occurrence on, as what precedes it and what follows.\<close>

fun strstr :: "string \<Rightarrow> string \<Rightarrow> (string \<times> string) option" where
  "strstr needle [] = (if needle = [] then Some ([], []) else None)"
| "strstr needle (c # s) =
     (if take (length needle) (c # s) = needle then Some ([], drop (length needle) (c # s))
      else map_option (apfst ((#) c)) (strstr needle s))"

text \<open>The callback, and the query string as it is left: cut at the \<^verbatim>\<open>&\<close> after the callback.\<close>

definition take_callback :: "string \<Rightarrow> string option \<times> string" where
  "take_callback query_string =
     (case strstr ''callback='' query_string of
        None \<Rightarrow> (None, query_string)
      | Some (before, after) \<Rightarrow>
          let callback = takeWhile (\<lambda>c. c \<noteq> CHR ''&'') after
          in (Some callback, before @ ''callback='' @ callback))"

datatype stream_event = Printed string | Flushed | Slept nat | Finished

record 'i stream_request =
  query_string :: "string option"
  content_length :: "string option"
  stream_in :: 'i

record 'i stream_env =
  save_query :: save_env
  save_content :: save_env
  content_malloc_ok :: bool
  content_junk :: "nat \<Rightarrow> char"
  stream_getstr :: "nat \<Rightarrow> 'i \<Rightarrow> string \<times> 'i"

text \<open>The buffer of \<^verbatim>\<open>n\<close> bytes after a read that may have filled only the front of it.\<close>

definition content_buffer :: "(nat \<Rightarrow> char) \<Rightarrow> nat \<Rightarrow> string \<Rightarrow> string" where
  "content_buffer junk n s = s @ map junk [length s..<n]"

definition receive_query :: "'i stream_env \<Rightarrow> string option \<Rightarrow> files \<Rightarrow> (string option \<times> files) option" where
  "receive_query env qs fs =
     (case qs of
        None \<Rightarrow> Some (None, fs)
      | Some q \<Rightarrow>
          (case take_callback q of
             (callback, q) \<Rightarrow> map_option (\<lambda>(rc, warned, fs). (callback, fs)) (save_request_data (save_query env) q fs)))"

definition receive_content :: "'i stream_env \<Rightarrow> string option \<Rightarrow> 'i \<Rightarrow> files \<Rightarrow> ('i \<times> files) option" where
  "receive_content env content_length_str inp fs =
     (case content_length_str of
        None \<Rightarrow> Some (inp, fs)
      | Some str \<Rightarrow>
          (case atoi str of
             None \<Rightarrow> None
           | Some n \<Rightarrow>
               if n \<le> 0 then Some (inp, fs)
               else if n + 1 > INT_MAX then None
               else if \<not> content_malloc_ok env then Some (inp, fs)
               else
                 (case stream_getstr env (nat n) inp of
                    (s, inp) \<Rightarrow>
                      map_option (\<lambda>(rc, warned, fs). (inp, fs))
                        (save_request_data (save_content env) (content_buffer (content_junk env) (nat n) s) fs))))"

definition newline :: string where
  "newline = [CHR 0x0D, CHR 0x0A]"

definition stream_header :: "stream_event list" where
  "stream_header = map (\<lambda>l. Printed (l @ newline))
     [''Status: 200 OK'', ''Content-Type: application/javascript'', ''X-Content-Type-Options: nosniff'',
      ''X-Accel-Buffering: no'', ''Cache-Control: no-cache'', []]"

definition stream_message :: "string \<Rightarrow> nat \<Rightarrow> string" where
  "stream_message callback i =
     callback @ ''({'' @ [CHR 0x22] @ ''count'' @ [CHR 0x22] @ '': '' @ nat_text i @ '', '' @ [CHR 0x22] @ ''message'' @ [CHR 0x22] @
     '': '' @ [CHR 0x22] @ ''Streaming data '' @ nat_text i @ [CHR 0x22] @ ''});'' @ [CHR 0x0A]"

fun stream_messages :: "string \<Rightarrow> nat \<Rightarrow> nat \<Rightarrow> stream_event list" where
  "stream_messages callback i 0 = []"
| "stream_messages callback i (Suc n) =
     Printed (stream_message callback i) # Flushed # Slept 1 # stream_messages callback (i + 1) n"

definition process_stream_request ::
  "'i stream_env \<Rightarrow> 'i stream_request \<Rightarrow> files \<Rightarrow> (stream_event list \<times> 'i \<times> files) option" where
  "process_stream_request env req fs =
     (case receive_query env (query_string req) fs of
        None \<Rightarrow> None
      | Some (callback, fs) \<Rightarrow>
          (case receive_content env (content_length req) (stream_in req) fs of
             None \<Rightarrow> None
           | Some (inp, fs) \<Rightarrow>
               let callback = (case callback of None \<Rightarrow> ''callback'' | Some s \<Rightarrow> if s = [] then ''callback'' else s)
               in Some (stream_header @ stream_messages callback 0 10, inp, fs)))"

text \<open>
  The loop over the results of \<^verbatim>\<open>FCGX_Accept_r\<close> with the requests they deliver; the end of the list is
  a process that is still waiting.
\<close>

fun stream_loop :: "(int \<times> 'i stream_env \<times> 'i stream_request) list \<Rightarrow> files \<Rightarrow> (int option \<times> stream_event list \<times> files) option" where
  "stream_loop [] fs = Some (None, [], fs)"
| "stream_loop ((rc, env, req) # rounds) fs =
     (if rc < 0 then Some (Some 0, [], fs)
      else
        (case process_stream_request env req fs of
           None \<Rightarrow> None
         | Some (out, _, fs) \<Rightarrow> map_option (\<lambda>(status, outs, fs). (status, out @ Finished # outs, fs)) (stream_loop rounds fs)))"

definition simplestream_main ::
  "int \<Rightarrow> bool \<Rightarrow> (int \<times> 'i stream_env \<times> 'i stream_request) list \<Rightarrow> files \<Rightarrow>
   (int option \<times> stream_event list \<times> files) option" where
  "simplestream_main sock_fd mkdir_ok rounds fs =
     (if sock_fd < 0 then Some (Some 1, [], fs) else stream_loop rounds (ensure_output_dir mkdir_ok fs))"

subsection \<open>Telling the time\<close>

text \<open>\<^verbatim>\<open>strftime\<close> with \<^verbatim>\<open>%Y-%m-%dT%H:%M:%S\<close> and what \<^verbatim>\<open>%z\<close> gives.\<close>

definition iso_time :: "tm \<Rightarrow> string \<Rightarrow> string" where
  "iso_time t zone =
     int_text (tm_year t + 1900) @ ''-'' @ fmt_0d 2 (tm_mon t + 1) @ ''-'' @ fmt_0d 2 (tm_mday t) @ ''T'' @
     fmt_0d 2 (tm_hour t) @ '':'' @ fmt_0d 2 (tm_min t) @ '':'' @ fmt_0d 2 (tm_sec t) @ zone"

definition time_answer :: "string \<Rightarrow> stream_event list" where
  "time_answer time_buffer =
     [Printed (''Content-Type: text/plain; charset=utf-8'' @ newline), Printed newline,
      Printed (''Current Date and Time: '' @ time_buffer @ [CHR 0x0A]), Flushed, Finished]"

text \<open>The handler of \<^verbatim>\<open>filemannospawn\<close>, without the zone.\<close>

definition process_time_request :: "tm option \<Rightarrow> (int \<times> stream_event list) option" where
  "process_time_request now_tm = map_option (\<lambda>t. (0, time_answer (iso_time t []))) now_tm"

fun authnospawn_loop :: "(int \<times> tm option \<times> string) list \<Rightarrow> (bool \<times> stream_event list) option" where
  "authnospawn_loop [] = Some (False, [])"
| "authnospawn_loop ((rc, now_tm, zone) # rounds) =
     (if rc < 0 then Some (True, [])
      else
        (case now_tm of
           None \<Rightarrow> None
         | Some t \<Rightarrow> map_option (\<lambda>(over, outs). (over, time_answer (iso_time t zone) @ outs)) (authnospawn_loop rounds)))"

datatype nospawn_end = Usage_printed | Init_failed | Open_failed | Socket_closed | Still_serving

text \<open>How the program ends and what it sent; its exit status is \<^verbatim>\<open>EXIT_FAILURE\<close> whenever it ends.\<close>

definition authnospawn_main ::
  "int \<Rightarrow> (string \<Rightarrow> nat \<Rightarrow> int) \<Rightarrow> int \<Rightarrow> string list \<Rightarrow> (int \<times> tm option \<times> string) list \<Rightarrow>
   (nospawn_end \<times> stream_event list) option" where
  "authnospawn_main fcgx_init open_socket init_request args rounds =
     (case args of
        [path] \<Rightarrow>
          if fcgx_init \<noteq> 0 then Some (Init_failed, [])
          else if open_socket path 32 < 0 then Some (Open_failed, [])
          else if init_request \<noteq> 0 then Some (Socket_closed, [])
          else map_option (\<lambda>(over, outs). (if over then Socket_closed else Still_serving, outs)) (authnospawn_loop rounds)
      | _ \<Rightarrow> Some (Usage_printed, []))"

subsection \<open>File names\<close>







subsection \<open>What a request leaves behind\<close>














end
