(* ===== verification/Base64url.thy ===== *)
theory Base64url
  imports Prelude
begin

section \<open>Base64 (RFC 4648)\<close>

text \<open>
  The two encodings of the standard, independent of the program: the bytes are cut into digits of six
  bits, which are indices into an alphabet; plain Base64 is padded with equals signs. The tools that write keys are
  measured against it, and the decoder shows that nothing is lost.
\<close>

definition letters_and_digits :: string where
  "letters_and_digits = ''ABCDEFGHIJKLMNOPQRSTUVWXYZabcdefghijklmnopqrstuvwxyz0123456789''"

definition plain_digit :: "nat \<Rightarrow> char" where
  "plain_digit n = (letters_and_digits @ ''+/'') ! n"

definition url_digit :: "nat \<Rightarrow> char" where
  "url_digit n = (letters_and_digits @ ''-_'') ! n"

fun sextets :: "nat list \<Rightarrow> nat list" where
  "sextets (a # b # c # r) = [a div 4, a mod 4 * 16 + b div 16, b mod 16 * 4 + c div 64, c mod 64] @ sextets r"
| "sextets [a, b] = [a div 4, a mod 4 * 16 + b div 16, b mod 16 * 4]"
| "sextets [a] = [a div 4, a mod 4 * 16]"
| "sextets [] = []"

fun octets :: "nat list \<Rightarrow> nat list" where
  "octets (p # q # r # s # t) = [p * 4 + q div 16, q mod 16 * 16 + r div 4, r mod 4 * 64 + s] @ octets t"
| "octets [p, q, r] = [p * 4 + q div 16, q mod 16 * 16 + r div 4]"
| "octets [p, q] = [p * 4 + q div 16]"
| "octets _ = []"

definition byte_values :: "string \<Rightarrow> nat list" where
  "byte_values s = map of_char s"

definition base64 :: "string \<Rightarrow> string" where
  "base64 s = map plain_digit (sextets (byte_values s)) @ replicate ((3 - length s mod 3) mod 3) CHR ''=''"

definition base64url :: "string \<Rightarrow> string" where
  "base64url s = map url_digit (sextets (byte_values s))"

definition url_index :: "char \<Rightarrow> nat" where
  "url_index c = length (takeWhile (\<lambda>d. d \<noteq> c) (letters_and_digits @ ''-_''))"

definition base64url_decode :: "string \<Rightarrow> string" where
  "base64url_decode s = map char_of (octets (map url_index s))"

lemma sextets_small: "\<forall>b \<in> set bs. b < 256 \<Longrightarrow> \<forall>n \<in> set (sextets bs). n < 64"
  by (induction bs rule: sextets.induct) auto

lemma byte_values_small: "\<forall>b \<in> set (byte_values s). b < 256"
  by (auto simp: byte_values_def)

lemma octets_sextets: "\<forall>b \<in> set bs. b < 256 \<Longrightarrow> octets (sextets bs) = bs"
  by (induction bs rule: sextets.induct) auto

text \<open>The digits of the two alphabets, one by one.\<close>

lemma digit_tables:
  "list_all (\<lambda>n. url_index (url_digit n) = n \<and> plain_digit n \<noteq> CHR ''='' \<and>
     url_digit n = (if plain_digit n = CHR ''+'' then CHR ''-'' else if plain_digit n = CHR ''/'' then CHR ''_'' else plain_digit n))
   [0..<64]"
  by code_simp

lemma digit_table:
  assumes "n < 64"
  shows "url_index (url_digit n) = n" "plain_digit n \<noteq> CHR ''=''"
    "url_digit n = (if plain_digit n = CHR ''+'' then CHR ''-'' else if plain_digit n = CHR ''/'' then CHR ''_'' else plain_digit n)"
  using bspec [OF digit_tables [unfolded list_all_iff], of n] assms by (auto split del: if_split)

text \<open>Nothing is lost.\<close>

lemma base64url_round_trip: "base64url_decode (base64url s) = s"
proof -
  have "map url_index (base64url s) = sextets (byte_values s)"
    using sextets_small [OF byte_values_small, of s] by (auto simp: base64url_def digit_table(1) intro: map_idI)
  then show ?thesis
    by (simp add: base64url_decode_def octets_sextets [OF byte_values_small]) (simp add: byte_values_def comp_def)
qed

text \<open>Base64 without its padding and with two digits replaced is the other encoding.\<close>

lemma base64_to_url:
  "map (\<lambda>c. if c = CHR ''/'' then CHR ''_'' else c) (map (\<lambda>c. if c = CHR ''+'' then CHR ''-'' else c)
     (filter (\<lambda>c. c \<noteq> CHR ''='') (base64 s))) = base64url s"
proof -
  have "filter (\<lambda>c. c \<noteq> CHR ''='') (base64 s) = map plain_digit (sextets (byte_values s))"
    using sextets_small [OF byte_values_small, of s] by (auto simp: base64_def digit_table(2) filter_id_conv)
  then show ?thesis
    using sextets_small [OF byte_values_small, of s] by (auto simp: base64url_def digit_table(3))
qed

end
