(* ===== verification/Key_tools.thy ===== *)
theory Key_tools
  imports Jwks_store Base64url "HOL-Library.List_Lexorder" "HOL-Library.Char_ord"
begin

section \<open>The tools that make keys and tokens (\<^verbatim>\<open>appsrc/jwks_creator.cpp\<close>, \<^verbatim>\<open>appsrc/jwt_creator.cpp\<close>)\<close>

text \<open>
  \<^verbatim>\<open>jwks_creator\<close> turns an EC private key into a JWKS document; \<^verbatim>\<open>jwt_creator\<close> signs a token
  with a key of such a document, which \<^verbatim>\<open>create_pem_ec_key\<close> turns back into a private key. OpenSSL and
  the signing half of jwt-cpp are records of operations.
\<close>

subsection \<open>OpenSSL\<close>

datatype curve = NID_X9_62_prime256v1 | NID_secp384r1 | NID_secp521r1 | Other_curve

text \<open>
  Keys, big numbers and points are type parameters. \<open>key_components\<close> is \<open>None\<close> when the group or the
  public key is missing; \<open>bn_bytes\<close> are the \<^verbatim>\<open>BN_num_bytes\<close> bytes of \<^verbatim>\<open>BN_bn2bin\<close>.
\<close>

record ('k, 'b, 'p) openssl =
  read_private_key :: "string \<Rightarrow> 'k option"
  key_components :: "'k \<Rightarrow> bool"
  curve_of :: "'k \<Rightarrow> curve"
  affine_coordinates :: "'k \<Rightarrow> ('b \<times> 'b) option"
  private_number :: "'k \<Rightarrow> 'b option"
  bn_bytes :: "'b \<Rightarrow> string"
  bn_of_bytes :: "string \<Rightarrow> 'b"
  bio_base64 :: "string \<Rightarrow> string"
  EC_KEY_new_works :: bool
  EC_POINT_new_works :: bool
  point_of :: "'b \<Rightarrow> 'b \<Rightarrow> 'p option"
  accepts_public_key :: "'p \<Rightarrow> bool"
  accepts_private_key :: "'b \<Rightarrow> bool"
  PEM_write :: "'p \<Rightarrow> 'b \<Rightarrow> string option"

subsection \<open>Writing a key\<close>

text \<open>\<^verbatim>\<open>obj[key] = v\<close> of the ordered map behind \<^verbatim>\<open>picojson::object\<close>.\<close>

fun set_member :: "string \<Rightarrow> json \<Rightarrow> json_object \<Rightarrow> json_object" where
  "set_member key v [] = [(key, v)]"
| "set_member key v ((name, w) # obj) =
     (if key = name then (key, v) # obj
      else if key < name then (key, v) # (name, w) # obj
      else (name, w) # set_member key v obj)"

text \<open>The file is \<open>None\<close> when it cannot be opened.\<close>

definition load_ec_private_key :: "('k, 'b, 'p) openssl \<Rightarrow> string option \<Rightarrow> exn + 'k" where
  "load_ec_private_key ssl fp =
     (case fp of
        None \<Rightarrow> Inl Runtime_error
      | Some pem \<Rightarrow> (case read_private_key ssl pem of None \<Rightarrow> Inl Runtime_error | Some ec_key \<Rightarrow> Inr ec_key))"

definition base64url_encode :: "('k, 'b, 'p) openssl \<Rightarrow> string \<Rightarrow> string" where
  "base64url_encode ssl inp =
     (let encoded = filter (\<lambda>c. c \<noteq> CHR ''='') (bio_base64 ssl inp);
          encoded = map (\<lambda>c. if c = CHR ''+'' then CHR ''-'' else c) encoded
      in map (\<lambda>c. if c = CHR ''/'' then CHR ''_'' else c) encoded)"

fun curve_name :: "curve \<Rightarrow> string option" where
  "curve_name NID_X9_62_prime256v1 = Some ''P-256''"
| "curve_name NID_secp384r1 = Some ''P-384''"
| "curve_name NID_secp521r1 = Some ''P-521''"
| "curve_name Other_curve = None"

definition bn_to_base64url :: "('k, 'b, 'p) openssl \<Rightarrow> 'b \<Rightarrow> json" where
  "bn_to_base64url ssl bn = JString (base64url_encode ssl (bn_bytes ssl bn))"

definition ec_to_jwk :: "('k, 'b, 'p) openssl \<Rightarrow> 'k \<Rightarrow> bool \<Rightarrow> exn + json_object" where
  "ec_to_jwk ssl ec_key include_private =
     (if \<not> key_components ssl ec_key then Inl Runtime_error
      else case affine_coordinates ssl ec_key of
        None \<Rightarrow> Inl Runtime_error
      | Some (x, y) \<Rightarrow>
          (case curve_name (curve_of ssl ec_key) of
             None \<Rightarrow> Inl Runtime_error
           | Some crv \<Rightarrow>
               let jwk = set_member ''y'' (bn_to_base64url ssl y) (set_member ''x'' (bn_to_base64url ssl x)
                     (set_member ''crv'' (JString crv) (set_member ''kty'' (JString ''EC'') [])))
               in Inr (case private_number ssl ec_key of
                         Some d \<Rightarrow> if include_private then set_member ''d'' (bn_to_base64url ssl d) jwk else jwk
                       | None \<Rightarrow> jwk)))"

text \<open>
  The result is what is printed, if anything; the exit status is 0 in any case. A missing argument
  makes a JSON string of a null pointer.
\<close>

definition creator_document :: "json_object \<Rightarrow> string \<Rightarrow> string \<Rightarrow> json" where
  "creator_document jwk issuer kid =
     (let jwk = set_member ''issuer'' (JString issuer) (set_member ''kid'' (JString kid)
            (set_member ''use'' (JString ''sig'') (set_member ''alg'' (JString ''ES256'') jwk)))
      in JObject (set_member ''keys'' (JArray [JObject jwk]) []))"

definition jwks_creator_main ::
  "('k, 'b, 'p) openssl \<Rightarrow> (json \<Rightarrow> string) \<Rightarrow> string option \<Rightarrow> string list \<Rightarrow> exn + string option" where
  "jwks_creator_main ssl serialize fp argv =
     (case bindE (load_ec_private_key ssl fp) (\<lambda>ec_key. ec_to_jwk ssl ec_key True) of
        Inl e \<Rightarrow> if std_exception e then Inr None else Inl e
      | Inr jwk \<Rightarrow>
          (case argv of
             _ # issuer # kid # _ \<Rightarrow> Inr (Some (serialize (creator_document jwk issuer kid) @ [CHR 0x0A]))
           | _ \<Rightarrow> Inl Undefined))"

subsection \<open>Reading a key back\<close>

text \<open>\<open>decode64\<close> is jwt-cpp's \<^verbatim>\<open>decode\<close> of the padded text. A failure of OpenSSL gives the empty string.\<close>

definition create_pem_ec_key ::
  "('k, 'b, 'p) openssl \<Rightarrow> (string \<Rightarrow> exn + string) \<Rightarrow> string \<Rightarrow> string \<Rightarrow> string \<Rightarrow> exn + string" where
  "create_pem_ec_key ssl decode64 x y d =
     bindE (decode64 x) (\<lambda>x_bin. bindE (decode64 y) (\<lambda>y_bin. bindE (decode64 d) (\<lambda>d_bin.
       let x_bign = bn_of_bytes ssl x_bin; y_bign = bn_of_bytes ssl y_bin; d_bign = bn_of_bytes ssl d_bin
       in if \<not> EC_KEY_new_works ssl then Inr []
          else if \<not> EC_POINT_new_works ssl then Inr []
          else case point_of ssl x_bign y_bign of
            None \<Rightarrow> Inr []
          | Some pub_key \<Rightarrow>
              if \<not> accepts_public_key ssl pub_key then Inr []
              else if \<not> accepts_private_key ssl d_bign then Inr []
              else Inr (case PEM_write ssl pub_key d_bign of None \<Rightarrow> [] | Some pem \<Rightarrow> pem))))"

subsection \<open>Signing a token\<close>

text \<open>
  The arguments from the current one on; the array ends with a null pointer, and \<^verbatim>\<open>strcmp\<close> of
  that pointer is undefined. An option that matches moves on to its value, which the next comparison of
  the same round then sees.
\<close>

record creator_args =
  cl_name :: "string option"
  cl_email :: "string option"
  cl_issuer :: "string option"
  cl_kid :: "string option"

definition first_arg :: "string list \<Rightarrow> string option" where
  "first_arg args = (case args of [] \<Rightarrow> None | v # _ \<Rightarrow> Some v)"

definition take_option :: "string \<Rightarrow> string list \<Rightarrow> exn + string option option \<times> string list" where
  "take_option key args =
     (case args of
        [] \<Rightarrow> Inl Undefined
      | a # rest \<Rightarrow> Inr (if a = key then (Some (first_arg rest), rest) else (None, args)))"

definition args_round :: "string list \<Rightarrow> creator_args \<Rightarrow> exn + string list \<times> creator_args" where
  "args_round args ca =
     bindE (take_option ''--name'' args) (\<lambda>(v, args).
     let ca = (case v of None \<Rightarrow> ca | Some v \<Rightarrow> ca\<lparr>cl_name := v\<rparr>)
     in bindE (take_option ''--email'' args) (\<lambda>(v, args).
     let ca = (case v of None \<Rightarrow> ca | Some v \<Rightarrow> ca\<lparr>cl_email := v\<rparr>)
     in bindE (take_option ''--issuer'' args) (\<lambda>(v, args).
     let ca = (case v of None \<Rightarrow> ca | Some v \<Rightarrow> ca\<lparr>cl_issuer := v\<rparr>)
     in bindE (take_option ''--kid'' args) (\<lambda>(v, args).
     let ca = (case v of None \<Rightarrow> ca | Some v \<Rightarrow> ca\<lparr>cl_kid := v\<rparr>)
     in Inr (args, ca)))))"

lemma take_option_length: "take_option key args = Inr (v, args') \<Longrightarrow> length args' \<le> length args"
  by (auto simp: take_option_def split: list.splits if_splits)

lemma args_round_length: "args_round args ca = Inr (args', ca') \<Longrightarrow> length args' \<le> length args"
  by (auto simp: args_round_def bindE_Inr_iff Let_def dest!: take_option_length)

function parse_args :: "string list \<Rightarrow> creator_args \<Rightarrow> exn + creator_args" where
  "parse_args args ca =
     (if args = [] then Inr ca
      else case args_round args ca of
        Inl e \<Rightarrow> Inl e
      | Inr (args, ca) \<Rightarrow> parse_args (tl args) ca)"
  by pat_completeness auto
termination
proof (relation "measure (\<lambda>(args, ca). length args)", goal_cases)
  case (2 args ca r args' ca')
  then have "length args' \<le> length args" using args_round_length [of args ca args' ca'] by simp
  with 2 show ?case by (cases args') (auto simp: Suc_le_eq)
qed simp

declare parse_args.simps [simp del]

text \<open>The token before it is signed; times are those of the clock.\<close>

record jwt_draft =
  draft_type :: string
  draft_kid :: string
  draft_jti :: string
  draft_issuer :: string
  draft_subject :: string
  draft_issued_at :: int
  draft_expires_at :: int
  draft_claims :: json_object

record token_tools =
  decode64 :: "string \<Rightarrow> exn + string"
  encode64 :: "string \<Rightarrow> string"
  sign_es256 :: "jwt_draft \<Rightarrow> string \<Rightarrow> exn + string"
  nonce :: string

definition no_args :: creator_args where
  "no_args = \<lparr>cl_name = None, cl_email = None, cl_issuer = Some ''https://testingid.e42.uk'',
     cl_kid = Some ''947a627d87183f94388b39d71db6601679995a1f''\<rparr>"

definition four_weeks :: int where
  "four_weeks = 24 * 28 * 3600 * nanoseconds"

text \<open>
  The exit status and the token printed. No exception is caught; a null issuer or key id is undefined.
\<close>

definition jwt_creator_main ::
  "('k, 'b, 'p) openssl \<Rightarrow> token_tools \<Rightarrow> (string \<Rightarrow> string \<times> json) \<Rightarrow> jwks_env \<Rightarrow> string list \<Rightarrow>
   exn + int \<times> string option" where
  "jwt_creator_main ssl T parse env argv =
     bindE (parse_args argv no_args) (\<lambda>ca.
       case (cl_email ca, cl_name ca) of
         (Some email, Some name) \<Rightarrow>
           (case (cl_issuer ca, cl_kid ca) of
              (Some issuer, Some kid) \<Rightarrow>
                bindE (fetch_jwks_json env ''./conf/e42_uk.jwks.json'' 0) (\<lambda>(jwks_json_string, _).
                bindE (get_jwk parse jwks_json_string kid) (\<lambda>jwk.
                bindE (bindE (at jwk ''x'') get_string) (\<lambda>x.
                bindE (bindE (at jwk ''y'') get_string) (\<lambda>y.
                bindE (bindE (at jwk ''d'') get_string) (\<lambda>d.
                bindE (create_pem_ec_key ssl (decode64 T) x y d) (\<lambda>pem_priv_key.
                bindE (sign_es256 T \<lparr>draft_type = ''JWT'', draft_kid = kid, draft_jti = encode64 T (nonce T),
                    draft_issuer = issuer, draft_subject = email, draft_issued_at = now env,
                    draft_expires_at = later_now env + four_weeks,
                    draft_claims = [(''name'', JString name), (''email'', JString email)]\<rparr> pem_priv_key) (\<lambda>tk.
                Inr (0, Some tk))))))))
            | _ \<Rightarrow> Inl Undefined)
       | _ \<Rightarrow> Inr (1, None))"

subsection \<open>From the key to a verified token\<close>

lemma map_of_set_member [simp]: "map_of (set_member key v obj) = (map_of obj)(key \<mapsto> v)"
  by (induction key v obj rule: set_member.induct) auto

text \<open>The text of a coordinate or private number in a JWK.\<close>

abbreviation jwk_text :: "('k, 'b, 'p) openssl \<Rightarrow> 'b \<Rightarrow> string" where
  "jwk_text ssl bn \<equiv> base64url_encode ssl (bn_bytes ssl bn)"

text \<open>
  What the libraries promise. OpenSSL's BIO writes Base64, jwt-cpp decodes the encoding for URLs,
  and a big number is read back from its bytes. Signing needs a PEM text. A token signed with the PEM form of a
  P-256 key decodes, carries the key id it was given, and its public half, built from the encoded coordinates, verifies it
  between its two times; tokens hold times in whole seconds. A leeway widens these times.
\<close>

definition encoding_laws :: "('k, 'b, 'p) openssl \<Rightarrow> token_tools \<Rightarrow> bool" where
  "encoding_laws ssl T \<longleftrightarrow>
     (\<forall>s. bio_base64 ssl s = base64 s) \<and> (\<forall>s. decode64 T (base64url s) = Inr s) \<and>
     (\<forall>b. bn_of_bytes ssl (bn_bytes ssl b) = b)"

definition signing_laws :: "('k, 'b, 'p) openssl \<Rightarrow> ('alg, 'v, 'j) jwt_ops \<Rightarrow> token_tools \<Rightarrow> bool" where
  "signing_laws ssl J T \<longleftrightarrow>
     (\<forall>draft tk. sign_es256 T draft [] \<noteq> Inr tk) \<and>
     (\<forall>key x y d point pem pk alg draft tk.
        curve_of ssl key = NID_X9_62_prime256v1 \<and> affine_coordinates ssl key = Some (x, y) \<and> private_number ssl key = Some d \<and>
        point_of ssl x y = Some point \<and> PEM_write ssl point d = Some pem \<and>
        create_public_key_from_ec_components J ''P-256'' (base64url (bn_bytes ssl x)) (base64url (bn_bytes ssl y)) = Inr pk \<and>
        es256 J pk = Inr alg \<and> sign_es256 T draft pem = Inr tk \<longrightarrow>
        (\<exists>jwt. jwt_decode J tk = Inr jwt \<and> get_key_id J jwt = Inr (draft_kid draft) \<and>
           (\<forall>t. draft_issued_at draft \<le> t \<and> t \<le> draft_expires_at draft - draft_expires_at draft mod nanoseconds \<longrightarrow>
              jwt_verify J (allow_algorithm J (default_verifier J) alg) jwt t = Inr ()))) \<and>
     (\<forall>alg jwt t t' n. jwt_verify J (allow_algorithm J (default_verifier J) alg) jwt t = Inr () \<and>
        \<bar>t' - t\<bar> \<le> uint n * nanoseconds \<longrightarrow>
        jwt_verify J (leeway J (allow_algorithm J (default_verifier J) alg) n) jwt t' = Inr ())"

text \<open>So the tool's encoder is the one of the standard, and the key comes back.\<close>

lemma base64url_encode_eq: "encoding_laws ssl T \<Longrightarrow> base64url_encode ssl s = base64url s"
  using base64_to_url [of s] by (simp add: encoding_laws_def base64url_encode_def Let_def)

lemma pem_of_encoded:
  assumes "encoding_laws ssl T" "create_pem_ec_key ssl (decode64 T) (jwk_text ssl x) (jwk_text ssl y) (jwk_text ssl d) = Inr pem"
    and "pem \<noteq> []"
  shows "\<exists>point. point_of ssl x y = Some point \<and> PEM_write ssl point d = Some pem"
  using assms base64url_encode_eq [OF assms(1)]
  by (auto simp: create_pem_ec_key_def encoding_laws_def Let_def split: if_splits option.splits)

text \<open>A token the key signed is verified from a leeway before its issue to a leeway after its end.\<close>

lemma signed_verifies:
  assumes "encoding_laws ssl T" "signing_laws ssl J T" "curve_of ssl key = NID_X9_62_prime256v1"
    and "affine_coordinates ssl key = Some (x, y)" "private_number ssl key = Some d"
    and "create_pem_ec_key ssl (decode64 T) (jwk_text ssl x) (jwk_text ssl y) (jwk_text ssl d) = Inr pem"
    and "create_public_key_from_ec_components J ''P-256'' (jwk_text ssl x) (jwk_text ssl y) = Inr pk" "es256 J pk = Inr alg"
    and "sign_es256 T draft pem = Inr tk"
    and "draft_issued_at draft + nanoseconds \<le> draft_expires_at draft" "draft_issued_at draft \<le> t" "t \<le> draft_expires_at draft"
  shows "\<exists>jwt. jwt_decode J tk = Inr jwt \<and> get_key_id J jwt = Inr (draft_kid draft) \<and> jwt_verify J (make_verifier J alg) jwt t = Inr ()"
proof -
  note laws = assms(2) [unfolded signing_laws_def]
  have "pem \<noteq> []" using laws assms(9) by auto
  then obtain point where p: "point_of ssl x y = Some point" "PEM_write ssl point d = Some pem"
    using pem_of_encoded [OF assms(1,6)] by blast
  let ?limit = "draft_expires_at draft - draft_expires_at draft mod nanoseconds"
  have e: "draft_issued_at draft \<le> ?limit" "draft_expires_at draft - ?limit < nanoseconds"
    using assms(10) pos_mod_bound [of nanoseconds "draft_expires_at draft"] by (auto simp: nanoseconds_def)
  obtain jwt where j: "jwt_decode J tk = Inr jwt" "get_key_id J jwt = Inr (draft_kid draft)"
    "\<And>t. draft_issued_at draft \<le> t \<Longrightarrow> t \<le> ?limit \<Longrightarrow> jwt_verify J (allow_algorithm J (default_verifier J) alg) jwt t = Inr ()"
    using laws assms(3-5,7-9) p base64url_encode_eq [OF assms(1)] by metis
  have "jwt_verify J (allow_algorithm J (default_verifier J) alg) jwt (min t ?limit) = Inr ()"
    by (rule j(3)) (use assms(11) e in auto)
  moreover have "\<bar>t - min t ?limit\<bar> \<le> uint verifier_leeway * nanoseconds"
    using e(2) assms(12) by (auto simp: nanoseconds_def verifier_leeway_def min_def)
  ultimately have "jwt_verify J (make_verifier J alg) jwt t = Inr ()" using laws by (metis make_verifier_def)
  with j show ?thesis by blast
qed

text \<open>The key of a document the tool wrote, as the store and the other tool find it.\<close>

definition created_key :: "('k, 'b, 'p) openssl \<Rightarrow> 'b \<times> 'b \<Rightarrow> 'b \<Rightarrow> string \<Rightarrow> string \<Rightarrow> json_object \<Rightarrow> bool" where
  "created_key ssl xy d issuer kid jwk \<longleftrightarrow>
     map_of jwk ''kid'' = Some (JString kid) \<and> map_of jwk ''kty'' = Some (JString ''EC'') \<and>
     map_of jwk ''crv'' = Some (JString ''P-256'') \<and> map_of jwk ''x'' = Some (JString (jwk_text ssl (fst xy))) \<and>
     map_of jwk ''y'' = Some (JString (jwk_text ssl (snd xy))) \<and> map_of jwk ''d'' = Some (JString (jwk_text ssl d))"

lemma creator_writes_key:
  assumes "curve_of ssl key = NID_X9_62_prime256v1" "affine_coordinates ssl key = Some xy" "private_number ssl key = Some d"
    "read_private_key ssl pem_file = Some key" "key_components ssl key"
  shows "\<exists>jwk0 jwk. ec_to_jwk ssl key True = Inr jwk0 \<and>
      creator_document jwk0 issuer kid = JObject [(''keys'', JArray [JObject jwk])] \<and> created_key ssl xy d issuer kid jwk \<and>
      jwks_creator_main ssl serialize (Some pem_file) [prog, issuer, kid] =
        Inr (Some (serialize (creator_document jwk0 issuer kid) @ [CHR 0x0A]))"
  using assms
  by (cases xy) (auto simp: jwks_creator_main_def load_ec_private_key_def ec_to_jwk_def creator_document_def created_key_def
      bn_to_base64url_def Let_def)

lemma created_key_entry:
  assumes "created_key ssl xy d issuer kid jwk"
    "create_public_key_from_ec_components J ''P-256'' (jwk_text ssl (fst xy)) (jwk_text ssl (snd xy)) = Inr pk" "es256 J pk = Inr alg"
  shows "key_entry J jwk = Some (kid, make_verifier J alg)"
  using assms by (simp add: key_entry_def created_key_def ec_algorithm_def at_def)

text \<open>The command line of the other tool.\<close>

definition creator_options :: "string set" where
  "creator_options = {''--name'', ''--email'', ''--issuer'', ''--kid''}"

lemma args_round_simps:
  assumes "v \<notin> creator_options"
  shows "args_round (v # r) ca = Inr (v # r, ca)"
    "args_round (''--name'' # v # r) ca = Inr (v # r, ca\<lparr>cl_name := Some v\<rparr>)"
    "args_round (''--email'' # v # r) ca = Inr (v # r, ca\<lparr>cl_email := Some v\<rparr>)"
    "args_round (''--issuer'' # v # r) ca = Inr (v # r, ca\<lparr>cl_issuer := Some v\<rparr>)"
    "args_round (''--kid'' # v # r) ca = Inr (v # r, ca\<lparr>cl_kid := Some v\<rparr>)"
  using assms by (simp_all add: args_round_def take_option_def creator_options_def first_arg_def)

lemma parse_args_step: "args \<noteq> [] \<Longrightarrow> args_round args ca = Inr (args', ca') \<Longrightarrow> parse_args args ca = parse_args (tl args') ca'"
  by (subst parse_args.simps) simp

lemma parse_args_all:
  assumes "prog \<notin> creator_options" "name \<notin> creator_options" "email \<notin> creator_options" "issuer \<notin> creator_options"
    "kid \<notin> creator_options"
  shows "parse_args [prog, ''--name'', name, ''--email'', email, ''--issuer'', issuer, ''--kid'', kid] ca =
    Inr \<lparr>cl_name = Some name, cl_email = Some email, cl_issuer = Some issuer, cl_kid = Some kid\<rparr>"
  by (cases ca) (simp add: parse_args_step [OF _ args_round_simps(1) [OF assms(1)]] parse_args_step [OF _ args_round_simps(2) [OF assms(2)]]
    parse_args_step [OF _ args_round_simps(3) [OF assms(3)]] parse_args_step [OF _ args_round_simps(4) [OF assms(4)]]
    parse_args_step [OF _ args_round_simps(5) [OF assms(5)]] parse_args.simps [of "[]"])

text \<open>The store that starts from the document.\<close>

lemma created_key_loads:
  assumes "key_entry J jwk = Some (kid, v)" "parse s = JObject [(''keys'', JArray [JObject jwk])]"
  shows "\<exists>store. add_jwks_verifiers_from_string J parse s new_store = (Inr True, store) \<and> verifiers store = [kid \<mapsto> v]"
  using assms add_keys_result [of J "[JObject jwk]" new_store] add_keys_verifiers [of J "[JObject jwk]" new_store]
  by (auto simp: add_jwks_verifiers_from_string_def keys_of_document_def map_filter_simps new_store_def split: prod.split)

lemma known_key_verifies:
  assumes "verifiers store kid = Some v" "jwt_decode J tk = Inr jwt" "get_key_id J jwt = Inr kid"
    "jwt_verify J v jwt (later_now env) = Inr ()"
  shows "verify_jwt J parse env name tk [name \<mapsto> store] = (Inr True, [name \<mapsto> store], [])"
  using assms by (simp add: verify_jwt_def find_store_def find_verifier_def)

text \<open>The token the other tool signs with the key it finds in the document.\<close>

lemma creator_signs:
  assumes "created_key ssl xy d issuer kid jwk" "prog \<notin> creator_options" "name \<notin> creator_options" "email \<notin> creator_options"
    "issuer \<notin> creator_options" "kid \<notin> creator_options" "parse s = ([], JObject [(''keys'', JArray [JObject jwk])])"
    "open_file env ''./conf/e42_uk.jwks.json'' = Some (Some s)"
    "jwt_creator_main ssl T parse env
      [prog, ''--name'', name, ''--email'', email, ''--issuer'', issuer, ''--kid'', kid] = Inr (0, Some tk)"
  shows "\<exists>pem draft. create_pem_ec_key ssl (decode64 T) (jwk_text ssl (fst xy)) (jwk_text ssl (snd xy)) (jwk_text ssl d) = Inr pem \<and>
    sign_es256 T draft pem = Inr tk \<and> draft_kid draft = kid \<and> draft_issued_at draft = now env \<and>
    draft_expires_at draft = later_now env + four_weeks"
proof -
  have "get_jwk parse s kid = Inr jwk" using assms(1,7) by (simp add: get_jwk_def created_key_def)
  moreover have "fetch_jwks_json env ''./conf/e42_uk.jwks.json'' 0 = Inr (s, case st_mtime env ''./conf/e42_uk.jwks.json'' of
      None \<Rightarrow> 0 | Some t \<Rightarrow> t)" using assms(8) by (simp add: fetch_jwks_json_def)
  ultimately obtain pem where
    "create_pem_ec_key ssl (decode64 T) (jwk_text ssl (fst xy)) (jwk_text ssl (snd xy)) (jwk_text ssl d) = Inr pem"
    "sign_es256 T \<lparr>draft_type = ''JWT'', draft_kid = kid, draft_jti = encode64 T (nonce T), draft_issuer = issuer,
       draft_subject = email, draft_issued_at = now env, draft_expires_at = later_now env + four_weeks,
       draft_claims = [(''name'', JString name), (''email'', JString email)]\<rparr> pem = Inr tk"
    using assms(1,9)
    by (auto simp: jwt_creator_main_def parse_args_all [OF assms(2-6)] at_def created_key_def bindE_Inr_iff)
  then show ?thesis by (intro exI conjI) auto
qed

subsection \<open>Property\<close>

text \<open>
  C16. The two tools and the service fit together: a P-256 key that \<^verbatim>\<open>jwks_creator\<close> writes into
  the key file is loaded by the store, and a token that \<^verbatim>\<open>jwt_creator\<close> signs with it is verified by
  \<^verbatim>\<open>verify_jwt\<close> against that store for four weeks. The encoder of the one tool and the decoding in the other are
  the program's; assumed are the encodings of RFC 4648 and a signature between the raw key and its public half.
\<close>

theorem made_token_verifies:
  assumes "encoding_laws ssl T" "signing_laws ssl J T"
    and "\<And>jwk. ec_to_jwk ssl key True = Inr jwk \<Longrightarrow>
      parse (serialize (creator_document jwk issuer kid) @ [CHR 0x0A]) = ([], creator_document jwk issuer kid)"
    and "curve_of ssl key = NID_X9_62_prime256v1" "affine_coordinates ssl key = Some (x, y)" "private_number ssl key = Some d"
    and "read_private_key ssl pem_file = Some key" "key_components ssl key"
    and "jwks_creator_main ssl serialize (Some pem_file) [prog, issuer, kid] = Inr (Some document)"
    and "create_public_key_from_ec_components J ''P-256'' (base64url (bn_bytes ssl x)) (base64url (bn_bytes ssl y)) = Inr pk"
    and "es256 J pk = Inr alg"
    and "open_file env ''./conf/e42_uk.jwks.json'' = Some (Some document)"
    and "jwt_creator_main ssl T parse env
      [prog', ''--name'', name, ''--email'', email, ''--issuer'', issuer, ''--kid'', kid] = Inr (0, Some tk)"
    and "prog' \<notin> creator_options" "name \<notin> creator_options" "email \<notin> creator_options" "issuer \<notin> creator_options"
      "kid \<notin> creator_options"
    and "now env \<le> later_now env" "now env \<le> later_now env'" "later_now env' \<le> later_now env + four_weeks"
  shows "\<exists>store. add_jwks_verifiers_from_string J (\<lambda>s. snd (parse s)) document new_store = (Inr True, store) \<and>
    verify_jwt J parse' env' issuer tk [issuer \<mapsto> store] = (Inr True, [issuer \<mapsto> store], [])"
proof -
  have pk: "create_public_key_from_ec_components J ''P-256'' (jwk_text ssl x) (jwk_text ssl y) = Inr pk"
    using assms(10) base64url_encode_eq [OF assms(1)] by simp
  from creator_writes_key [OF assms(4-8), of issuer kid serialize prog] obtain jwk0 jwk where
    w: "ec_to_jwk ssl key True = Inr jwk0" "creator_document jwk0 issuer kid = JObject [(''keys'', JArray [JObject jwk])]"
    and d: "document = serialize (creator_document jwk0 issuer kid) @ [CHR 0x0A]" "created_key ssl (x, y) d issuer kid jwk"
    using assms(9) by auto
  have p: "parse document = ([], JObject [(''keys'', JArray [JObject jwk])])"
    unfolding d(1) w(2) [symmetric] by (rule assms(3) [OF w(1)])
  obtain store where s: "add_jwks_verifiers_from_string J (\<lambda>s. snd (parse s)) document new_store = (Inr True, store)"
    "verifiers store = [kid \<mapsto> make_verifier J alg]"
    using created_key_loads [OF created_key_entry [OF d(2) _ assms(11)], of "\<lambda>s. snd (parse s)" document] pk p by auto
  obtain pem draft where t: "create_pem_ec_key ssl (decode64 T) (jwk_text ssl x) (jwk_text ssl y) (jwk_text ssl d) = Inr pem"
    "sign_es256 T draft pem = Inr tk" "draft_kid draft = kid" "draft_issued_at draft = now env"
    "draft_expires_at draft = later_now env + four_weeks"
    using creator_signs [OF d(2) assms(14-18) p assms(12,13)] by auto
  have "draft_issued_at draft + nanoseconds \<le> draft_expires_at draft"
    using assms(19) t(4,5) by (simp add: four_weeks_def nanoseconds_def)
  from signed_verifies [OF assms(1,2,4-6) t(1) pk assms(11) t(2) this, of "later_now env'"] t(3-5) assms(20,21) obtain jwt where
    j: "jwt_decode J tk = Inr jwt" "get_key_id J jwt = Inr kid" "jwt_verify J (make_verifier J alg) jwt (later_now env') = Inr ()"
    by auto
  with s show ?thesis using known_key_verifies [OF _ j] by auto
qed

text \<open>A key whose numbers are letters, and a signature that is the public half itself.\<close>

definition toy_ssl :: "(unit, string, string) openssl" where
  "toy_ssl = \<lparr>read_private_key = (\<lambda>_. Some ()), key_components = (\<lambda>_. True), curve_of = (\<lambda>_. NID_X9_62_prime256v1),
     affine_coordinates = (\<lambda>_. Some (''x'', ''y'')), private_number = (\<lambda>_. Some ''d''), bn_bytes = (\<lambda>b. b),
     bn_of_bytes = (\<lambda>b. b), bio_base64 = base64, EC_KEY_new_works = True, EC_POINT_new_works = True,
     point_of = (\<lambda>x y. Some (base64url x @ base64url y)), accepts_public_key = (\<lambda>_. True), accepts_private_key = (\<lambda>_. True),
     PEM_write = (\<lambda>p d. Some p)\<rparr>"

definition toy_tools :: token_tools where
  "toy_tools = \<lparr>decode64 = (\<lambda>s. Inr (base64url_decode s)), encode64 = (\<lambda>s. s), sign_es256 = (\<lambda>draft pem.
       if length (draft_kid draft) = 1 \<and> pem \<noteq> [] \<and> CHR 0x0A \<notin> set (draft_kid draft @ pem)
       then Inr (draft_kid draft @ pem) else Inl Runtime_error), nonce = []\<rparr>"

definition made_document :: json where
  "made_document = JObject [(''keys'', JArray [JObject [(''alg'', JString ''ES256''), (''crv'', JString ''P-256''),
     (''d'', JString ''ZA''), (''issuer'', JString ''i''), (''kid'', JString ''a''), (''kty'', JString ''EC''),
     (''use'', JString ''sig''), (''x'', JString ''eA''), (''y'', JString ''eQ'')]])]"

lemma toy_texts:
  "base64url ''x'' = ''eA''" "base64url ''y'' = ''eQ''" "base64url ''d'' = ''ZA''"
  "base64url_decode ''eA'' = ''x''" "base64url_decode ''eQ'' = ''y''" "base64url_decode ''ZA'' = ''d''"
  by code_simp+

lemma toy_encoding_laws: "encoding_laws toy_ssl toy_tools"
  by (simp add: encoding_laws_def toy_ssl_def toy_tools_def base64url_round_trip)

lemma toy_signing_laws: "signing_laws toy_ssl toy_jwt toy_tools"
  by (auto simp: signing_laws_def toy_ssl_def toy_jwt_def toy_tools_def length_Suc_conv split: if_splits)

lemma toy_number: "bn_to_base64url toy_ssl b = JString (base64url b)"
  using base64url_encode_eq [OF toy_encoding_laws, of b] by (simp add: bn_to_base64url_def toy_ssl_def)

lemma toy_creator:
  assumes "ec_to_jwk toy_ssl () True = Inr jwk"
  shows "creator_document jwk ''i'' ''a'' = made_document"
proof -
  have "key_components toy_ssl ()" "affine_coordinates toy_ssl () = Some (''x'', ''y'')" "private_number toy_ssl () = Some ''d''"
    "curve_of toy_ssl () = NID_X9_62_prime256v1" by (simp_all add: toy_ssl_def)
  with assms show ?thesis
    by (auto simp: ec_to_jwk_def toy_number toy_texts creator_document_def made_document_def)
qed

theorem made_token_verifies_witness:
  "jwt_creator_main toy_ssl toy_tools (\<lambda>_. ([], made_document)) (toy_env\<lparr>open_file := (\<lambda>_. Some (Some (''{}'' @ [CHR 0x0A])))\<rparr>)
      [''t'', ''--name'', ''Ann'', ''--email'', ''a@b'', ''--issuer'', ''i'', ''--kid'', ''a''] = Inr (0, Some ''aeAeQ'') \<and>
   (\<exists>store. add_jwks_verifiers_from_string toy_jwt (\<lambda>_. made_document) (''{}'' @ [CHR 0x0A]) new_store = (Inr True, store) \<and>
      fst (verify_jwt toy_jwt (\<lambda>_. JNull) toy_env ''i'' ''aeAeQ'' [''i'' \<mapsto> store]) = Inr True)"
proof -
  let ?env = "toy_env\<lparr>open_file := (\<lambda>_. Some (Some (''{}'' @ [CHR 0x0A])))\<rparr>"
  let ?argv = "[''t'', ''--name'', ''Ann'', ''--email'', ''a@b'', ''--issuer'', ''i'', ''--kid'', ''a'']"
  have o: "''t'' \<notin> creator_options" "''Ann'' \<notin> creator_options" "''a@b'' \<notin> creator_options" "''i'' \<notin> creator_options"
    "''a'' \<notin> creator_options" by (simp_all add: creator_options_def)
  have c: "jwks_creator_main toy_ssl (\<lambda>_. ''{}'') (Some []) [''j'', ''i'', ''a''] = Inr (Some (''{}'' @ [CHR 0x0A]))"
    by (simp add: jwks_creator_main_def load_ec_private_key_def ec_to_jwk_def toy_ssl_def)
  have j: "jwt_creator_main toy_ssl toy_tools (\<lambda>_. ([], made_document)) ?env ?argv = Inr (0, Some ''aeAeQ'')"
    by (simp add: jwt_creator_main_def parse_args_all [OF o] fetch_jwks_json_def get_jwk_def made_document_def at_def
        create_pem_ec_key_def toy_ssl_def toy_tools_def toy_texts)
  have "\<exists>store. add_jwks_verifiers_from_string toy_jwt (\<lambda>s. snd ([] :: string, made_document)) (''{}'' @ [CHR 0x0A]) new_store = (Inr True, store) \<and>
      verify_jwt toy_jwt (\<lambda>_. JNull) toy_env ''i'' ''aeAeQ'' [''i'' \<mapsto> store] = (Inr True, [''i'' \<mapsto> store], [])"
    by (rule made_token_verifies [OF toy_encoding_laws toy_signing_laws _ _ _ _ _ _ c _ _ _ j o(1-5), where key = "()" and x = "''x''"
        and y = "''y''" and d = "''d''" and pk = "''eAeQ''" and alg = "''eAeQ''"])
      (simp_all add: toy_creator, simp_all add: toy_ssl_def toy_jwt_def toy_texts toy_env_def four_weeks_def nanoseconds_def)
  with j show ?thesis by auto
qed

end
