(* ===== verification/Spec2Isabelle.thy ===== *)
theory Spec2Isabelle
  imports Sha256_vectors Httputils_tests Jwksverifier_tests Contentdisposition Qsp_inplace Errorinfo Appauth_sessions Authmain
    Fileman Filemannospawn Simplestream Key_tools
begin

text \<open>
  \<^bold>\<open>The program.\<close> Two FastCGI applications behind nginx. \<^verbatim>\<open>authmain\<close>
  (\<^verbatim>\<open>appsrc/auth.cpp\<close> and \<^verbatim>\<open>src/appauth.cpp\<close>) logs users in at Microsoft and answers the
  server's authorisation requests; the JWT it sets as the cookie \<^verbatim>\<open>auth\<close> is checked against the
  provider's JSON web keys. The file manager (\<^verbatim>\<open>appsrc/filemannospawn.cpp\<close> and
  \<^verbatim>\<open>src/appfileman.cpp\<close>) lists directories to the users such tokens name. A login goes through these
  parts: the posted form is decoded, the target is signed into a state string with SHA-256, the provider
  sends back a code and that string, the code is exchanged for a token over HTTP, the token is verified,
  and the answer sets the cookie and leads to the target.

  \<^bold>\<open>Theories and sources\<close> (the latter under \<^verbatim>\<open>src/\<close>).

  \<^item> \<open>Prelude\<close>, \<open>Decimal\<close>, \<open>Cpp\<close>, \<open>Libgreen\<close>: C strings and buffers; digits; exceptions, containers and
    the contract \<open>emplacing\<close> of a map that only grows; the interface of the support library as records
    of operations with the laws that are relied on and an instance of each.
  \<^item> \<open>Minisha256\<close>, \<open>Sha256_vectors\<close> (\<^verbatim>\<open>minisha256.c\<close>): the hash, shown equal to FIPS 180-4.
  \<^item> \<open>Openidconnect\<close> (\<^verbatim>\<open>openidconnect.c\<close>): the signed string; the locale \<open>hex_digest\<close> holds what it
    needs of a hash and is interpreted on \<open>sha256_buf\<close>.
  \<^item> \<open>Quotedstringparser\<close>, \<open>Qsp_inplace\<close> (\<^verbatim>\<open>quotedstringparser.c\<close>) and \<open>Contentdisposition\<close>
    (\<^verbatim>\<open>contentdisposition.c\<close>): splitting at delimiters outside quotes, and header attributes.
  \<^item> \<open>Cookies\<close>, \<open>Pathparse\<close> (\<^verbatim>\<open>HTTPUtils.cpp\<close>, \<^verbatim>\<open>HTTPUtils.hpp\<close>): cookies parsed in place and
    restored; paths cut into percent-decoded segments. \<open>Httputils_tests\<close> runs the repository's own tests.
  \<^item> \<open>Jwks_store\<close> (\<^verbatim>\<open>JWKSVerifierStore.cpp\<close> and \<^verbatim>\<open>.hpp\<close>): the stores of verifiers by issuer and key id,
    loading, fetching and verification; the relations \<open>manager_step\<close> and \<open>manager_reaches\<close>. \<open>Jwks_book\<close>: the
    abstract book of keys they refine. \<open>Jwksverifier_tests\<close>: the repository's own test of them.
  \<^item> \<open>Jwtinterface\<close> (\<^verbatim>\<open>jwtinterface.cpp\<close>), \<open>Application\<close> (\<^verbatim>\<open>application.cpp\<close> and the way
    \<^verbatim>\<open>appsrc/auth.cpp\<close> fills the key store), \<open>Simpletemplate\<close> (\<^verbatim>\<open>simpletemplate.hpp\<close>).
  \<^item> \<open>Httpclient\<close> (\<^verbatim>\<open>httpclient.c\<close>): the response buffer, an instance of the locale \<open>bounded_buffer\<close>.
  \<^item> \<open>Formdecoder\<close>, \<open>Formdecoder_fastcgi\<close>, \<open>Formdecoder_multipart\<close> (\<^verbatim>\<open>formdecoder.c\<close>,
    \<^verbatim>\<open>formdecoder_fastcgi.c\<close>): fields on an explicit heap with files and descriptors; reading a request
    body; what becomes of a multipart body, from the stream to the fields.
  \<^item> \<open>Errorinfo\<close> (\<^verbatim>\<open>errorinfo.c\<close>): errors with causes and attached objects.
  \<^item> \<open>Login_codes\<close>, \<open>Appauth_text\<close>, \<open>Appauth\<close> (\<^verbatim>\<open>appauth.cpp\<close>): the cache of codes, the string helpers,
    the handlers and the router. \<open>Appauth_handlers\<close>: the service as the relation \<open>serving\<close>, and the contract
    of a handler as the locale \<open>handler\<close>, interpreted on every handler that reads no form.
    \<open>Appauth_safety\<close>, \<open>Appauth_headers\<close>, \<open>Appauth_cookies\<close>, \<open>Appauth_sessions\<close>, \<open>Appauth_resources\<close>: what each
    handler guarantees, the header lines of every answer, who is given a cookie by the router as a whole, that this
    cookie is honoured later, and what a request leaves in the file system.
  \<^item> \<open>Authmain\<close> (\<^verbatim>\<open>appsrc/auth.cpp\<close>): the main program from its start to its end, over a list of rounds of the
    accept loop; what holds of single requests is lifted to everything it is asked.
  \<^item> \<open>Fileman\<close>, \<open>Filemannospawn\<close>: the second application and its main program.
  \<^item> \<open>Simplestream\<close> (\<^verbatim>\<open>appsrc/simplestream.c\<close>, \<^verbatim>\<open>appsrc/authnospawn.cpp\<close>): the two demonstration servers.
  \<^item> \<open>Base64url\<close>: the two encodings of RFC 4648 with a decoder, the reference for \<open>Key_tools\<close>
    (\<^verbatim>\<open>appsrc/jwks_creator.cpp\<close>, \<^verbatim>\<open>appsrc/jwt_creator.cpp\<close>): making keys and tokens, shown to fit the stores.

  \<^bold>\<open>How it is modelled.\<close> A C string is the list of its bytes; a buffer written in place is a list with
  its NULs, pointers into it are indices, and a read beyond it is \<open>None\<close>. C++ exceptions are the values
  \<open>Inl e\<close>, where \<open>Undefined\<close> is undefined behaviour and is never caught. State that outlives a request is
  in \<open>app_state\<close>: key stores, code cache, files and saved key files. A handler returns its result, the
  calls it made on the output stream and the new state; what a browser sees of it is the bytes of all calls, read
  line by line. Clocks, with one reading for each time the code reads them, the network, the memory an
  uninitialised buffer holds and allocation failures are fields of environment records. Words are of
  their width where the code wraps (SHA-256); sizes that are bounded by a buffer are naturals.

  \<^bold>\<open>What the lemmas show.\<close> SHA-256 is the standard's function. A state string verifies exactly when its
  tag is that of its text, and a login comes back to the target it was started with. The key stores refine a
  book that learns complete keys and forgets none, and a token is accepted exactly by the verdict of the
  book. Whatever the main program is asked, it gives the cookie to no token but one that such a key
  vouches for, on any line of any header, as long as no line break is in a signed state string; it goes on until \<^verbatim>\<open>FCGX_Accept_r\<close> fails or an exception leaves it, finishes every request once, with
  the exception that is a finding, and leaves no file or descriptor behind unless a part repeats its
  disposition; and the cookie it set lets the browser in while the token is valid. Parsing stays in its
  buffer and refines a specification on lists; forms give back the fields that were posted; responses are
  bounded by 1 MiB. Several properties state what the code does where that is not what it means to do; the
  findings of the manifest name them.

  \<^bold>\<open>Termination.\<close> Loops over buffers are total functions with a measure. The two loops that read the
  request body are partial functions, since a stream may go on for ever; on every finite stream both
  are shown to return (\<open>read_body_result\<close>, \<open>read_multipart_result\<close>). No fuel is used. The service loops run over
  what they are given: \<open>serving\<close> is closed under any number of requests, \<open>accept_loop\<close> and \<open>serve_loop\<close> take a list
  of rounds.

  \<^bold>\<open>Not modelled.\<close> The libraries: libgreen (\<^verbatim>\<open>dynstring\<close>, \<^verbatim>\<open>querystring\<close>, \<^verbatim>\<open>simplemap\<close>,
  \<^verbatim>\<open>mimedecoder\<close>, \<^verbatim>\<open>database\<close>), jwt-cpp, picojson, OpenSSL, libcurl, FastCGI and SQLite are parameters;
  tables are lists of rows. Logging has no model. In the modelled files: \<^verbatim>\<open>print_all_keys\<close> and
  \<^verbatim>\<open>formdecoder_dump_envp\<close>, which only print; \<^verbatim>\<open>set_to_json\<close> and
  \<^verbatim>\<open>time_point_to_string\<close>, whose results are only printed; the first 298 lines of \<^verbatim>\<open>JWKSVerifierStore.cpp\<close>
  and long parts of its header, an older version that is commented out; the hooks for user types in
  \<^verbatim>\<open>HTTPUtils.hpp\<close>, which nothing instantiates. The signal handler of \<^verbatim>\<open>filemannospawn.cpp\<close> is
  run before the loop reads its flag or while it accepts a request. \<^verbatim>\<open>jwt_tests.cpp\<close>, which tests jwt-cpp, and the static pages are left out.
\<close>

end
